theory Spec2Isabelle
  imports Complex_Main "HOL-Library.Multiset"
begin

section \<open>Numbers and angles (services/spatialService.ts)\<close>

text \<open>
  The coordinates of a position and the bearings and distances the library computes from
  them are finite numbers, modelled as reals with exact arithmetic. A number parsed from
  a property value, or passed as the requested rank, can also be infinite or \<open>NaN\<close>: such
  numbers, and what the program computes from them, have the type \<open>jsnum\<close>. The remainder
  operator \<open>%\<close> of JavaScript truncates its quotient towards zero, so the remainder has the
  sign of the dividend; the remainder of an infinite or \<open>NaN\<close> dividend is \<open>NaN\<close>.
\<close>

datatype jsnum = Num real | PosInf | NegInf | NaN

definition isNum :: "jsnum \<Rightarrow> bool" where
  "isNum x = (case x of Num r \<Rightarrow> True | _ \<Rightarrow> False)"

definition js_trunc :: "real \<Rightarrow> int" where
  "js_trunc x = (if 0 \<le> x then \<lfloor>x\<rfloor> else \<lceil>x\<rceil>)"

definition js_rem :: "real \<Rightarrow> real \<Rightarrow> real" where
  "js_rem x m = x - m * of_int (js_trunc (x / m))"

text \<open>\<open>normalizeAngle\<close>: \<open>(angle % 360 + 360) % 360\<close>, with an exact 360 mapped to 0.\<close>

definition normalizeAngle :: "real \<Rightarrow> real" where
  "normalizeAngle angle =
     (let result = js_rem (js_rem angle 360 + 360) 360
      in if result = 360 then 0 else result)"

definition normalizeAngleJs :: "jsnum \<Rightarrow> jsnum" where
  "normalizeAngleJs angle = (case angle of Num r \<Rightarrow> Num (normalizeAngle r) | _ \<Rightarrow> NaN)"

text \<open>\<open>calculateDeviation\<close>: absolute difference, replaced by \<open>360 - diff\<close> above 180.\<close>

definition calculateDeviation :: "real \<Rightarrow> real \<Rightarrow> real" where
  "calculateDeviation angle1 angle2 =
     (let diff = \<bar>angle1 - angle2\<bar>
      in if diff > 180 then 360 - diff else diff)"

text \<open>
  The same function where its first argument is any number and the second a finite one:
  the absolute difference to an infinite number is \<open>+Infinity\<close>, which is above 180, and
  \<open>360 - Infinity\<close> is \<open>-Infinity\<close>; every comparison with \<open>NaN\<close> is false. Likewise the sum
  of any number and a finite one, and the comparison \<open>x <= y\<close> with a finite \<open>y\<close>.
\<close>

definition calculateDeviationJs :: "jsnum \<Rightarrow> real \<Rightarrow> jsnum" where
  "calculateDeviationJs angle1 angle2 =
     (case angle1 of
        Num a \<Rightarrow> Num (calculateDeviation a angle2)
      | PosInf \<Rightarrow> NegInf
      | NegInf \<Rightarrow> NegInf
      | NaN \<Rightarrow> NaN)"

definition jsPlus :: "jsnum \<Rightarrow> real \<Rightarrow> jsnum" where
  "jsPlus x c = (case x of Num r \<Rightarrow> Num (r + c) | PosInf \<Rightarrow> PosInf | NegInf \<Rightarrow> NegInf | NaN \<Rightarrow> NaN)"

definition jsLe :: "jsnum \<Rightarrow> real \<Rightarrow> bool" where
  "jsLe x y = (case x of Num r \<Rightarrow> r \<le> y | NegInf \<Rightarrow> True | _ \<Rightarrow> False)"

section \<open>GeoJSON data\<close>

text \<open>
  A GeoJSON position is an array of at least two numbers, longitude first; further
  elements (an altitude) are kept, since the program joins all of them into the key of
  its coordinate index. A feature has a geometry (possibly null) and a property object,
  modelled as the list of its entries in key order (\<open>Object.keys\<close>), with distinct keys.
  A property value is a number, a string or, for the \<open>_center\<close> entry written by
  \<open>parseGeoFile\<close>, a position.
\<close>

datatype position = Position (lng_of: real) (lat_of: real) (rest_of: "real list")

datatype geometry =
    Point position
  | MultiPoint "position list"
  | LineString "position list"
  | MultiLineString "position list list"
  | Polygon "position list list"
  | MultiPolygon "position list list list"
  | GeometryCollection "geometry list"

datatype pvalue = PNum real | PStr string | PPos position

record feature =
  geometry :: "geometry option"
  properties :: "(string \<times> pvalue) list"

datatype units = Kilometers | Meters

text \<open>
  The functions of the turf library and the built-in \<open>parseFloat\<close> are not part of the
  program: they are parameters of the model. The turf functions read the geometry of the
  feature they are given. \<open>centroid\<close> and \<open>booleanPointInPolygon\<close> can throw (the program
  wraps calls of both in \<open>try\<close>): \<open>None\<close> is the exception. \<open>parseFloat\<close> yields any number,
  \<open>Infinity\<close> for the string "Infinity" and \<open>NaN\<close> for what does not parse. The last
  parameter stands for the host's \<open>Array.prototype.sort\<close> where its comparator is not
  consistent (a score is not finite) and the order is implementation-defined: from the
  scores in array order it gives the index of the element sorted first.
\<close>

record lib =
  turfDistance :: "units \<Rightarrow> position \<Rightarrow> position \<Rightarrow> real"
  turfBearing :: "position \<Rightarrow> position \<Rightarrow> real"
  centroid :: "geometry option \<Rightarrow> position option"
  coordAll :: "geometry option \<Rightarrow> position list"
  booleanPointInPolygon :: "position \<Rightarrow> geometry option \<Rightarrow> bool option"
  parseFloat :: "pvalue \<Rightarrow> jsnum"
  hostSortFirst :: "jsnum list \<Rightarrow> nat"

datatype error =
    NoFeaturesFound    \<comment> \<open>"No features found in dataset to analyze."\<close>
  | NoSuitableSite     \<comment> \<open>"No suitable site found."\<close>
  | TurfError          \<comment> \<open>an exception of a turf call outside any \<open>try\<close>\<close>
  | TypeError          \<comment> \<open>a property read on \<open>undefined\<close>\<close>

section \<open>Regular expressions on property keys\<close>

text \<open>
  The key patterns of the program use literals, sequence, alternation and the optional
  group, under the flag \<open>i\<close>. \<open>rx_rests r s\<close> lists what can remain of \<open>s\<close> after a match of
  \<open>r\<close> at its start (every way of matching, as backtracking explores them); literals are
  written in lower case and compared with the lower-cased input.
\<close>

datatype rx = Lit string | Seq rx rx | Alt rx rx | Opt rx

definition lower :: "char \<Rightarrow> char" where
  "lower c =
     (case map_of (zip ''ABCDEFGHIJKLMNOPQRSTUVWXYZ'' ''abcdefghijklmnopqrstuvwxyz'') c of
        Some d \<Rightarrow> d
      | None \<Rightarrow> c)"

fun rx_rests :: "rx \<Rightarrow> string \<Rightarrow> string list" where
  "rx_rests (Lit w) s =
     (if take (length w) (map lower s) = w then [drop (length w) s] else [])"
| "rx_rests (Seq a b) s = concat (map (rx_rests b) (rx_rests a s))"
| "rx_rests (Alt a b) s = rx_rests a s @ rx_rests b s"
| "rx_rests (Opt a) s = rx_rests a s @ [s]"

text \<open>\<open>/^r$/i.test(s)\<close>, \<open>/^r/i.test(s)\<close> and \<open>/r$/i.test(s)\<close>.\<close>

definition rx_full :: "rx \<Rightarrow> string \<Rightarrow> bool" where
  "rx_full r s = ([] \<in> set (rx_rests r s))"

definition rx_prefix :: "rx \<Rightarrow> string \<Rightarrow> bool" where
  "rx_prefix r s = (rx_rests r s \<noteq> [])"

fun rx_suffix :: "rx \<Rightarrow> string \<Rightarrow> bool" where
  "rx_suffix r [] = rx_full r []"
| "rx_suffix r (c # s) = (rx_full r (c # s) \<or> rx_suffix r s)"

text \<open>\<open>(site_?)?\<close>, the optional prefix of all three key patterns.\<close>

definition sitePrefix :: rx where
  "sitePrefix = Opt (Seq (Lit ''site'') (Opt (Lit ''_'')))"

text \<open>\<open>/^(site_?)?(azimuth|bearing|heading|dir(ection)?|orient(ation)?)$/i\<close>\<close>

definition azimuthRx :: rx where
  "azimuthRx =
     Seq sitePrefix
       (Alt (Lit ''azimuth'')
       (Alt (Lit ''bearing'')
       (Alt (Lit ''heading'')
       (Alt (Seq (Lit ''dir'') (Opt (Lit ''ection'')))
            (Seq (Lit ''orient'') (Opt (Lit ''ation'')))))))"

section \<open>Sector geometry (services/spatialService.ts)\<close>

text \<open>
  \<open>getExplicitAzimuth\<close>: the first key that matches; its value is parsed and, unless it is
  \<open>NaN\<close>, normalized. A missing property object is the empty one.
\<close>

definition getExplicitAzimuth :: "lib \<Rightarrow> (string \<times> pvalue) list \<Rightarrow> jsnum option" where
  "getExplicitAzimuth L props =
     (case find (\<lambda>kv. rx_full azimuthRx (fst kv)) props of
        None \<Rightarrow> None
      | Some (key, v) \<Rightarrow>
          (let val = parseFloat L v
           in if val \<noteq> NaN then Some (normalizeAngleJs val) else None))"

record SectorMetrics =
  azimuth :: jsnum
  beamwidth :: real
  isOmni :: bool
  startAngle :: jsnum
  endAngle :: jsnum

definition omniMetrics :: "real \<Rightarrow> SectorMetrics" where
  "omniMetrics az =
     \<lparr>azimuth = Num az, beamwidth = 360, isOmni = True, startAngle = Num 0, endAngle = Num 360\<rparr>"

text \<open>The result for a point, a missing geometry or a polygon collapsed onto the anchor.\<close>

definition collapsedMetrics :: "jsnum option \<Rightarrow> SectorMetrics" where
  "collapsedMetrics explicitAzimuth =
     (case explicitAzimuth of
        Some a \<Rightarrow> \<lparr>azimuth = a, beamwidth = 65, isOmni = False,
                   startAngle = normalizeAngleJs (jsPlus a (- 32.5)),
                   endAngle = normalizeAngleJs (jsPlus a 32.5)\<rparr>
      | None \<Rightarrow> omniMetrics 0)"

definition isPoint :: "geometry \<Rightarrow> bool" where
  "isPoint g = (case g of Point p \<Rightarrow> True | _ \<Rightarrow> False)"

text \<open>The vertices further than 2 m from the anchor, and their sorted bearings.\<close>

definition outerCoords :: "lib \<Rightarrow> feature \<Rightarrow> position \<Rightarrow> position list" where
  "outerCoords L geoFeature towerCenter =
     filter (\<lambda>c. turfDistance L Meters c towerCenter > 2) (coordAll L (geometry geoFeature))"

definition sortedBearings :: "lib \<Rightarrow> feature \<Rightarrow> position \<Rightarrow> real list" where
  "sortedBearings L geoFeature towerCenter =
     sort (map (\<lambda>c. normalizeAngle (turfBearing L towerCenter c))
               (outerCoords L geoFeature towerCenter))"

text \<open>
  The loop over the sorted bearings: the difference to the next bearing (the first one
  after the last), plus 360 when negative; a strictly larger difference replaces the
  maximum and the pair of bearings that bound it. The state is
  \<open>(maxGap, gapStart, gapEnd)\<close>.
\<close>

definition gapAt :: "real list \<Rightarrow> nat \<Rightarrow> real" where
  "gapAt bearings i =
     (let current = bearings ! i;
          next = bearings ! ((i + 1) mod length bearings);
          diff = next - current
      in if diff < 0 then diff + 360 else diff)"

definition gapStep :: "real list \<Rightarrow> real \<times> real \<times> real \<Rightarrow> nat \<Rightarrow> real \<times> real \<times> real" where
  "gapStep bearings st i =
     (case st of (maxGap, gapStart, gapEnd) \<Rightarrow>
        if gapAt bearings i > maxGap
        then (gapAt bearings i, bearings ! i, bearings ! ((i + 1) mod length bearings))
        else (maxGap, gapStart, gapEnd))"

definition findMaxGap :: "real list \<Rightarrow> real \<times> real \<times> real" where
  "findMaxGap bearings = foldl (gapStep bearings) (0, 0, 0) [0..<length bearings]"

definition analyzeSectorGeometry :: "lib \<Rightarrow> feature \<Rightarrow> position \<Rightarrow> error + SectorMetrics" where
  "analyzeSectorGeometry L geoFeature towerCenter =
     (let explicitAzimuth = getExplicitAzimuth L (properties geoFeature)
      in case geometry geoFeature of
           None \<Rightarrow> Inr (collapsedMetrics explicitAzimuth)
         | Some g \<Rightarrow>
             if isPoint g then Inr (collapsedMetrics explicitAzimuth)
             else
               (case centroid L (geometry geoFeature) of
                  None \<Rightarrow> Inl TurfError
                | Some centerPoint \<Rightarrow>
                    if turfDistance L Meters towerCenter centerPoint < 2
                    then Inr (collapsedMetrics explicitAzimuth)
                    else if outerCoords L geoFeature towerCenter = []
                    then Inr (omniMetrics (normalizeAngle (turfBearing L towerCenter centerPoint)))
                    else
                      (case findMaxGap (sortedBearings L geoFeature towerCenter) of
                         (maxGap, gapStart, gapEnd) \<Rightarrow>
                           if maxGap < 60 then Inr (omniMetrics 0)
                           else
                             (let startAngle = gapEnd;
                                  endAngle = gapStart;
                                  beamwidth = 360 - maxGap;
                                  geoAzimuth = normalizeAngle (startAngle + beamwidth / 2)
                              in Inr \<lparr>azimuth = (case explicitAzimuth of
                                                     Some a \<Rightarrow> a | None \<Rightarrow> Num geoAzimuth),
                                       beamwidth = beamwidth, isOmni = False,
                                       startAngle = Num startAngle,
                                       endAngle = Num endAngle\<rparr>))))"

text \<open>
  The wording of the specification, for comparison with the loop: the gaps between
  consecutive bearings of the sorted sequence, the last of them from the last bearing to
  the first one through 360; and the largest of these gaps.
\<close>

definition wrapGaps :: "real list \<Rightarrow> real list" where
  "wrapGaps bs =
     map (\<lambda>i. bs ! (i + 1) - bs ! i) [0..<length bs - 1] @ [hd bs + 360 - last bs]"

definition maxWrapGap :: "real list \<Rightarrow> real" where
  "maxWrapGap bs = Max (set (wrapGaps bs))"

section \<open>Site clustering, ranking and sector scoring (performSpatialAnalysis)\<close>

text \<open>
  The \<open>_center\<close> entry of the property object, written by \<open>parseGeoFile\<close>; when present
  it holds a position.
\<close>

definition getCenter :: "feature \<Rightarrow> position option" where
  "getCenter f =
     (case map_of (properties f) ''_center'' of
        Some (PPos c) \<Rightarrow> Some c
      | _ \<Rightarrow> None)"

text \<open>
  The bounding-box filter. A feature without \<open>_center\<close> is judged by its centroid, and
  excluded when the centroid computation throws.
\<close>

definition inWindow :: "real \<Rightarrow> real \<Rightarrow> position \<Rightarrow> bool" where
  "inWindow searchLat searchLng c =
     (let LAT_THRESHOLD = 0.5;
          LNG_THRESHOLD = 0.5 / max 0.1 (cos (searchLat * pi / 180));
          minLat = searchLat - LAT_THRESHOLD;
          maxLat = searchLat + LAT_THRESHOLD;
          minLng = searchLng - LNG_THRESHOLD;
          maxLng = searchLng + LNG_THRESHOLD
      in lat_of c \<ge> minLat \<and> lat_of c \<le> maxLat \<and> lng_of c \<ge> minLng \<and> lng_of c \<le> maxLng)"

definition prefilter :: "lib \<Rightarrow> real \<Rightarrow> real \<Rightarrow> feature list \<Rightarrow> feature list" where
  "prefilter L searchLat searchLng features =
     filter (\<lambda>f. case getCenter f of
                    Some c \<Rightarrow> inWindow searchLat searchLng c
                  | None \<Rightarrow>
                      (case centroid L (geometry f) of
                         None \<Rightarrow> False
                       | Some c \<Rightarrow> inWindow searchLat searchLng c))
            features"

text \<open>When the filter leaves nothing, all features are analyzed.\<close>

definition featuresToAnalyze :: "lib \<Rightarrow> real \<Rightarrow> real \<Rightarrow> feature list \<Rightarrow> feature list" where
  "featuresToAnalyze L searchLat searchLng features =
     (let cands = prefilter L searchLat searchLng features
      in if cands \<noteq> [] then cands else features)"

text \<open>
  \<open>toFixed(4)\<close> of a number below \<open>10^21\<close> in magnitude: the sign, and the integer nearest
  to the magnitude times \<open>10^4\<close> (the larger one of two nearest), whose digits the string
  shows. The key of a site is the pair of the two strings.
\<close>

definition toFixed4 :: "real \<Rightarrow> bool \<times> nat" where
  "toFixed4 x = (x < 0, nat \<lfloor>\<bar>x\<bar> * 10000 + 1 / 2\<rfloor>)"

type_synonym sitekey = "(bool \<times> nat) \<times> (bool \<times> nat)"

definition siteKey :: "position \<Rightarrow> sitekey" where
  "siteKey centerCoords = (toFixed4 (lat_of centerCoords), toFixed4 (lng_of centerCoords))"

record SiteGroup =
  id_key :: sitekey
  referencePoint :: position
  distance :: real
  candidates :: "feature list"

text \<open>
  The anchor used for clustering: \<open>_center\<close>, else the first coordinate, else the
  centroid, whose computation is not guarded here.
\<close>

definition centerCoords :: "lib \<Rightarrow> feature \<Rightarrow> error + position" where
  "centerCoords L f =
     (case getCenter f of
        Some c \<Rightarrow> Inr c
      | None \<Rightarrow>
          (case coordAll L (geometry f) of
             c # _ \<Rightarrow> Inr c
           | [] \<Rightarrow>
               (case centroid L (geometry f) of
                  None \<Rightarrow> Inl TurfError
                | Some c \<Rightarrow> Inr c)))"

text \<open>
  \<open>siteGroups\<close> is a \<open>Map\<close>, which keeps its entries in insertion order: a list of groups,
  each carrying its key.
\<close>

definition hasKey :: "sitekey \<Rightarrow> SiteGroup list \<Rightarrow> bool" where
  "hasKey key groups = (\<exists>g \<in> set groups. id_key g = key)"

fun pushCandidate :: "sitekey \<Rightarrow> feature \<Rightarrow> SiteGroup list \<Rightarrow> SiteGroup list" where
  "pushCandidate key f [] = []"
| "pushCandidate key f (g # groups) =
     (if id_key g = key then g\<lparr>candidates := candidates g @ [f]\<rparr> # groups
      else g # pushCandidate key f groups)"

definition groupStep :: "lib \<Rightarrow> position \<Rightarrow> SiteGroup list \<Rightarrow> feature \<Rightarrow> error + SiteGroup list" where
  "groupStep L targetPoint siteGroups f =
     (case centerCoords L f of
        Inl e \<Rightarrow> Inl e
      | Inr c \<Rightarrow>
          (let key = siteKey c;
               siteGroups' =
                 (if \<not> hasKey key siteGroups
                  then siteGroups @
                         [\<lparr>id_key = key, referencePoint = c,
                           distance = turfDistance L Kilometers targetPoint c,
                           candidates = []\<rparr>]
                  else siteGroups)
           in Inr (pushCandidate key f siteGroups')))"

fun groupFeatures :: "lib \<Rightarrow> position \<Rightarrow> SiteGroup list \<Rightarrow> feature list \<Rightarrow> error + SiteGroup list" where
  "groupFeatures L targetPoint siteGroups [] = Inr siteGroups"
| "groupFeatures L targetPoint siteGroups (f # fs) =
     (case groupStep L targetPoint siteGroups f of
        Inl e \<Rightarrow> Inl e
      | Inr siteGroups' \<Rightarrow> groupFeatures L targetPoint siteGroups' fs)"

text \<open>The key under which a feature is clustered, when its anchor can be computed.\<close>

definition keyOf :: "lib \<Rightarrow> feature \<Rightarrow> sitekey option" where
  "keyOf L f = (case centerCoords L f of Inl e \<Rightarrow> None | Inr c \<Rightarrow> Some (siteKey c))"

text \<open>
  Ranking. The requested rank is a JavaScript number. \<open>Math.min\<close> and \<open>Math.max\<close> give
  \<open>NaN\<close> when an argument is \<open>NaN\<close>. The sort by distance is stable. \<open>sites[safeRank - 1]\<close>
  is an element of the array when \<open>safeRank - 1\<close> is an integer from 0 to its length minus
  one, and \<open>undefined\<close> for every other number.
\<close>

definition rankSites :: "SiteGroup list \<Rightarrow> SiteGroup list" where
  "rankSites siteGroups = sort_key distance siteGroups"

definition jsMin :: "jsnum \<Rightarrow> real \<Rightarrow> jsnum" where
  "jsMin x y = (case x of Num r \<Rightarrow> Num (min r y) | PosInf \<Rightarrow> Num y | NegInf \<Rightarrow> NegInf | NaN \<Rightarrow> NaN)"

definition jsMax :: "real \<Rightarrow> jsnum \<Rightarrow> jsnum" where
  "jsMax y x = (case x of Num r \<Rightarrow> Num (max y r) | PosInf \<Rightarrow> PosInf | NegInf \<Rightarrow> Num y | NaN \<Rightarrow> NaN)"

definition safeRankOf :: "jsnum \<Rightarrow> nat \<Rightarrow> jsnum" where
  "safeRankOf rank totalSites = jsMax 1 (jsMin rank (real totalSites))"

definition selectSite :: "SiteGroup list \<Rightarrow> jsnum \<Rightarrow> error + SiteGroup" where
  "selectSite sites rank =
     (let totalSites = length sites;
          safeRank = safeRankOf rank totalSites
      in case safeRank of
           Num s \<Rightarrow>
             if of_int \<lfloor>s - 1\<rfloor> = s - 1 \<and> 0 \<le> s - 1 \<and> s - 1 < real totalSites
             then Inr (sites ! nat \<lfloor>s - 1\<rfloor>)
             else Inl NoSuitableSite
         | _ \<Rightarrow> Inl NoSuitableSite)"

text \<open>
  The evaluation of one member feature of the selected site. The record holds the fields
  of the object the program builds and, in addition, its local \<open>isInBeam\<close>.
\<close>

record Evaluated =
  ev_feature :: feature
  ev_azimuth :: jsnum
  ev_beamwidth :: real
  ev_deviation :: jsnum
  ev_isInside :: bool
  ev_isInBeam :: bool
  ev_score :: jsnum

definition containment :: "lib \<Rightarrow> position \<Rightarrow> feature \<Rightarrow> bool" where
  "containment L targetPoint f =
     (case geometry f of
        None \<Rightarrow> False
      | Some g \<Rightarrow>
          (case g of
             Polygon rings \<Rightarrow>
               (case booleanPointInPolygon L targetPoint (geometry f) of
                  None \<Rightarrow> False | Some b \<Rightarrow> b)
           | MultiPolygon polys \<Rightarrow>
               (case booleanPointInPolygon L targetPoint (geometry f) of
                  None \<Rightarrow> False | Some b \<Rightarrow> b)
           | _ \<Rightarrow> False))"

definition evaluateCandidate ::
  "lib \<Rightarrow> position \<Rightarrow> position \<Rightarrow> real \<Rightarrow> bool \<Rightarrow> feature \<Rightarrow> error + Evaluated" where
  "evaluateCandidate L targetPoint refPoint bearingTowerToUser isNearField f =
     (case analyzeSectorGeometry L f refPoint of
        Inl e \<Rightarrow> Inl e
      | Inr m \<Rightarrow>
          (let deviation0 = calculateDeviationJs (azimuth m) bearingTowerToUser;
               deviation = (if isOmni m \<or> isNearField then Num 0 else deviation0);
               isInside = containment L targetPoint f;
               isInBeam = (if \<not> isOmni m \<and> \<not> isNearField
                           then jsLe deviation (beamwidth m / 2) else True);
               score0 = deviation;
               score1 = (if isInside then jsPlus score0 (- 10000)
                         else if isNearField then jsPlus score0 (- 5000)
                         else if isInBeam then jsPlus score0 (- 2000)
                         else score0);
               score = (if getExplicitAzimuth L (properties f) \<noteq> None
                        then jsPlus score1 (- 10) else score1)
           in Inr \<lparr>ev_feature = f, ev_azimuth = azimuth m, ev_beamwidth = beamwidth m,
                    ev_deviation = deviation, ev_isInside = isInside,
                    ev_isInBeam = isInBeam, ev_score = score\<rparr>))"

fun evaluateAll ::
  "lib \<Rightarrow> position \<Rightarrow> position \<Rightarrow> real \<Rightarrow> bool \<Rightarrow> feature list \<Rightarrow> error + Evaluated list" where
  "evaluateAll L targetPoint refPoint b nf [] = Inr []"
| "evaluateAll L targetPoint refPoint b nf (f # fs) =
     (case evaluateCandidate L targetPoint refPoint b nf f of
        Inl e \<Rightarrow> Inl e
      | Inr ev \<Rightarrow>
          (case evaluateAll L targetPoint refPoint b nf fs of
             Inl e \<Rightarrow> Inl e
           | Inr evs \<Rightarrow> Inr (ev # evs)))"

text \<open>
  The candidates sorted by score, ascending, and the first of them. With finite scores
  the comparator \<open>a.score - b.score\<close> is consistent and the sort is stable. With a score
  that is not finite the comparator yields \<open>NaN\<close>, the order is implementation-defined,
  and the first element is the member of the array that the host puts first.
\<close>

definition scoreValue :: "Evaluated \<Rightarrow> real" where
  "scoreValue ev = (case ev_score ev of Num s \<Rightarrow> s | _ \<Rightarrow> 0)"

definition bestMatchOf :: "lib \<Rightarrow> Evaluated list \<Rightarrow> Evaluated option" where
  "bestMatchOf L evaluatedCandidates =
     (if \<forall>ev \<in> set evaluatedCandidates. isNum (ev_score ev)
      then (case sort_key scoreValue evaluatedCandidates of
              [] \<Rightarrow> None
            | bestMatch # _ \<Rightarrow> Some bestMatch)
      else Some (evaluatedCandidates !
                   (hostSortFirst L (map ev_score evaluatedCandidates)
                      mod length evaluatedCandidates)))"

text \<open>
  The result of a query; its provenance fields and its timestamp are left out.
\<close>

record AnalysisResult =
  nearestFeature :: feature
  res_distance :: real
  res_bearing :: real
  sectorAzimuth :: jsnum
  sectorBeamwidth :: real
  deviationAngle :: jsnum
  res_isInside :: bool
  searchPoint :: "real \<times> real"
  nearestPoint :: "real \<times> real"
  res_rank :: jsnum
  totalFeatures :: nat

definition performSpatialAnalysis ::
  "lib \<Rightarrow> real \<Rightarrow> real \<Rightarrow> feature list \<Rightarrow> jsnum \<Rightarrow> error + AnalysisResult" where
  "performSpatialAnalysis L searchLat searchLng features rank =
     (let targetPoint = Position searchLng searchLat []
      in if features = [] then Inl NoFeaturesFound
         else
           (case groupFeatures L targetPoint []
                   (featuresToAnalyze L searchLat searchLng features) of
                 Inl e \<Rightarrow> Inl e
               | Inr siteGroups \<Rightarrow>
                   (let sites = rankSites siteGroups;
                        totalSites = length sites;
                        safeRank = safeRankOf rank totalSites
                    in case selectSite sites rank of
                         Inl e \<Rightarrow> Inl e
                       | Inr selectedSite \<Rightarrow>
                           (let bearingTowerToUser =
                                  normalizeAngle (turfBearing L (referencePoint selectedSite) targetPoint);
                                isNearField = (distance selectedSite * 1000 < 30)
                            in case evaluateAll L targetPoint (referencePoint selectedSite)
                                      bearingTowerToUser isNearField (candidates selectedSite) of
                                 Inl e \<Rightarrow> Inl e
                               | Inr evaluatedCandidates \<Rightarrow>
                                   (case bestMatchOf L evaluatedCandidates of
                                      None \<Rightarrow> Inl TypeError
                                    | Some bestMatch \<Rightarrow>
                                        Inr \<lparr>nearestFeature = ev_feature bestMatch,
                                             res_distance = distance selectedSite,
                                             res_bearing = normalizeAngle
                                               (turfBearing L targetPoint (referencePoint selectedSite)),
                                             sectorAzimuth = ev_azimuth bestMatch,
                                             sectorBeamwidth = ev_beamwidth bestMatch,
                                             deviationAngle = ev_deviation bestMatch,
                                             res_isInside = ev_isInside bestMatch,
                                             searchPoint = (searchLat, searchLng),
                                             nearestPoint =
                                               (lat_of (referencePoint selectedSite),
                                                lng_of (referencePoint selectedSite)),
                                             res_rank = safeRank,
                                             totalFeatures = totalSites\<rparr>)))))"

section \<open>Tower center inference (services/fileService.ts)\<close>

text \<open>
  \<open>calculateAngle\<close>: the angle at a vertex between the bearings to its two neighbours.
  Its \<open>catch\<close> branch answers a position that \<open>point\<close> rejects; every value of the type
  of positions is accepted.
\<close>

definition calculateAngle :: "lib \<Rightarrow> position \<Rightarrow> position \<Rightarrow> position \<Rightarrow> real" where
  "calculateAngle L pCurr pPrev pNext =
     (let b1 = turfBearing L pCurr pPrev;
          b2 = turfBearing L pCurr pNext;
          diff = \<bar>b1 - b2\<bar>
      in if diff > 180 then 360 - diff else diff)"

text \<open>
  \<open>/^(site_?)?lat(itude)?$/i\<close> and \<open>/^(site_?)?lon(gitude)?|lng$/i\<close>. In the second
  pattern the alternation binds weakest: its left branch is anchored at the start only,
  its right branch at the end only.
\<close>

definition latRx :: rx where
  "latRx = Seq sitePrefix (Seq (Lit ''lat'') (Opt (Lit ''itude'')))"

definition lonHeadRx :: rx where
  "lonHeadRx = Seq sitePrefix (Seq (Lit ''lon'') (Opt (Lit ''gitude'')))"

definition latKeyTest :: "string \<Rightarrow> bool" where
  "latKeyTest k = rx_full latRx k"

definition lngKeyTest :: "string \<Rightarrow> bool" where
  "lngKeyTest k = (rx_prefix lonHeadRx k \<or> rx_suffix (Lit ''lng'') k)"

text \<open>
  \<open>Math.abs(x) <= y\<close> for a finite \<open>y\<close>: false for an infinite \<open>x\<close> and for \<open>NaN\<close>. In
  \<open>getExplicitCenter\<close> only two finite numbers pass the validity check.
\<close>

definition jsAbsLe :: "jsnum \<Rightarrow> real \<Rightarrow> bool" where
  "jsAbsLe x y = (case x of Num r \<Rightarrow> \<bar>r\<bar> \<le> y | _ \<Rightarrow> False)"

definition getExplicitCenter :: "lib \<Rightarrow> (string \<times> pvalue) list \<Rightarrow> position option" where
  "getExplicitCenter L props =
     (case find (\<lambda>kv. latKeyTest (fst kv)) props of
        None \<Rightarrow> None
      | Some (latKey, latV) \<Rightarrow>
          (case find (\<lambda>kv. lngKeyTest (fst kv)) props of
             None \<Rightarrow> None
           | Some (lngKey, lngV) \<Rightarrow>
               (let lat = parseFloat L latV;
                    lng = parseFloat L lngV
                in if lat \<noteq> NaN \<and> lng \<noteq> NaN \<and> jsAbsLe lat 90 \<and> jsAbsLe lng 180
                   then (case (lat, lng) of
                           (Num la, Num lo) \<Rightarrow> Some (Position lo la [])
                         | _ \<Rightarrow> None)
                   else None)))"

text \<open>
  The coordinate index: for each feature, every distinct coordinate of it adds one to the
  count of that coordinate. The key \<open>c.join(',')\<close> renders all numbers of the position,
  so two positions have the same key exactly when they are equal.
\<close>

definition bumpCount :: "(position \<rightharpoonup> nat) \<Rightarrow> position \<Rightarrow> (position \<rightharpoonup> nat)" where
  "bumpCount coordCounts c =
     coordCounts(c \<mapsto> (case coordCounts c of None \<Rightarrow> 0 | Some n \<Rightarrow> n) + 1)"

definition countFeature :: "(position \<rightharpoonup> nat) \<Rightarrow> position list \<Rightarrow> (position \<rightharpoonup> nat)" where
  "countFeature coordCounts coords =
     fold (\<lambda>c m. bumpCount m c) (remdups coords) coordCounts"

definition buildCoordCounts :: "lib \<Rightarrow> feature list \<Rightarrow> (position \<rightharpoonup> nat)" where
  "buildCoordCounts L features =
     fold (\<lambda>f m. countFeature m (coordAll L (geometry f))) features Map.empty"

text \<open>
  The angles at the vertices \<open>0 .. analysisLength - 1\<close> of the ring; the neighbours are
  taken modulo \<open>analysisLength\<close> (the index \<open>j - 1 + analysisLength\<close> is never negative).
\<close>

definition ringAngles :: "lib \<Rightarrow> position list \<Rightarrow> nat \<Rightarrow> real list" where
  "ringAngles L ring analysisLength =
     map (\<lambda>j. calculateAngle L (ring ! j)
                 (ring ! ((j + analysisLength - 1) mod analysisLength))
                 (ring ! ((j + 1) mod analysisLength)))
         [0..<analysisLength]"

text \<open>
  Sector-tip scoring. The state of the loop is \<open>(bestScore, bestCenter)\<close>, where \<open>None\<close>
  is the initial \<open>-Infinity\<close>.
\<close>

definition tipScore :: "(position \<rightharpoonup> nat) \<Rightarrow> position list \<Rightarrow> real list \<Rightarrow> nat \<Rightarrow> real" where
  "tipScore coordCounts ring angles k =
     (let coord = ring ! k;
          count = (case coordCounts coord of None \<Rightarrow> 1 | Some n \<Rightarrow> if n = 0 then 1 else n);
          scoreTopology = real count * 50;
          scoreIndex = (if k = 0 then 80 else 0);
          angle = angles ! k;
          scoreGeometry = (180 - angle) * 2
      in scoreTopology + scoreIndex + scoreGeometry)"

definition tipStep ::
  "(position \<rightharpoonup> nat) \<Rightarrow> position list \<Rightarrow> real list \<Rightarrow> real option \<times> position \<Rightarrow> nat
     \<Rightarrow> real option \<times> position" where
  "tipStep coordCounts ring angles st k =
     (case st of (bestScore, bestCenter) \<Rightarrow>
        (let totalScore = tipScore coordCounts ring angles k
         in if (case bestScore of None \<Rightarrow> True | Some b \<Rightarrow> totalScore > b)
            then (Some totalScore, ring ! k)
            else (bestScore, bestCenter)))"

definition sectorTip :: "(position \<rightharpoonup> nat) \<Rightarrow> position list \<Rightarrow> real list \<Rightarrow> nat \<Rightarrow> position" where
  "sectorTip coordCounts ring angles analysisLength =
     snd (foldl (tipStep coordCounts ring angles) (None, ring ! 0) [0..<analysisLength])"

text \<open>The analysis of a ring: short rings, the regular polygon, the sector tip.\<close>

definition ringCenter :: "lib \<Rightarrow> (position \<rightharpoonup> nat) \<Rightarrow> feature \<Rightarrow> position list \<Rightarrow> position option" where
  "ringCenter L coordCounts f ring =
     (if length ring < 3 then (case ring of [] \<Rightarrow> None | c # _ \<Rightarrow> Some c)
      else
        (let isClosed = (lng_of (ring ! 0) = lng_of (ring ! (length ring - 1))
                         \<and> lat_of (ring ! 0) = lat_of (ring ! (length ring - 1)));
             analysisLength = (if isClosed then length ring - 1 else length ring);
             angles = ringAngles L ring analysisLength;
             avgAngle = foldl (\<lambda>a b. a + b) 0 angles / real (length angles);
             variance = foldl (\<lambda>a b. a + (b - avgAngle)\<^sup>2) 0 angles / real (length angles);
             stdDev = sqrt variance;
             tip = Some (sectorTip coordCounts ring angles analysisLength)
         in if analysisLength > 3 \<and> avgAngle > 90 \<and> stdDev < 15
            then (case centroid L (geometry f) of
                    Some center \<Rightarrow> Some center
                  | None \<Rightarrow> tip)
            else tip))"

text \<open>
  The value stored as \<open>_center\<close> for a feature, \<open>None\<close> when the entry is left unset. The
  geometry of a feature is not null here (features without geometry are dropped before);
  a polygon without rings has no \<open>coordinates[0]\<close> to take the length of.
\<close>

definition inferCenter :: "lib \<Rightarrow> (position \<rightharpoonup> nat) \<Rightarrow> feature \<Rightarrow> error + position option" where
  "inferCenter L coordCounts f =
     (case getExplicitCenter L (properties f) of
        Some explicitCenter \<Rightarrow> Inr (Some explicitCenter)
      | None \<Rightarrow>
          (case geometry f of
             None \<Rightarrow> Inl TypeError
           | Some g \<Rightarrow>
               (case g of
                  Polygon rings \<Rightarrow>
                    (case rings of
                       [] \<Rightarrow> Inl TypeError
                     | ring # _ \<Rightarrow> Inr (ringCenter L coordCounts f ring))
                | MultiPolygon polys \<Rightarrow>
                    (case polys of
                       [] \<Rightarrow> Inl TypeError
                     | rings # _ \<Rightarrow>
                         (case rings of
                            [] \<Rightarrow> Inl TypeError
                          | ring # _ \<Rightarrow> Inr (ringCenter L coordCounts f ring)))
                | _ \<Rightarrow>
                    (case coordAll L (geometry f) of
                       [] \<Rightarrow> Inr None
                     | c # _ \<Rightarrow> Inr (Some c)))))"

text \<open>
  One round of the annotation loop: the feature gets its \<open>_id\<close>, then its \<open>_center\<close>. An
  assignment to a property replaces the value of an existing key and appends a new key.
\<close>

fun setProp :: "string \<Rightarrow> pvalue \<Rightarrow> (string \<times> pvalue) list \<Rightarrow> (string \<times> pvalue) list" where
  "setProp k v [] = [(k, v)]"
| "setProp k v (kv # ps) = (if fst kv = k then (k, v) # ps else kv # setProp k v ps)"

definition annotateFeature ::
  "lib \<Rightarrow> (position \<rightharpoonup> nat) \<Rightarrow> string \<Rightarrow> feature \<Rightarrow> error + feature" where
  "annotateFeature L coordCounts newId feature =
     (let f1 = feature\<lparr>properties := setProp ''_id'' (PStr newId) (properties feature)\<rparr>
      in case inferCenter L coordCounts f1 of
           Inl e \<Rightarrow> Inl e
         | Inr None \<Rightarrow> Inr f1
         | Inr (Some c) \<Rightarrow> Inr (f1\<lparr>properties := setProp ''_center'' (PPos c) (properties f1)\<rparr>))"

text \<open>
  The annotation of a dataset (after the removal of duplicates): the index is built from
  all features first; \<open>mkId\<close> gives the identifier of the feature with a given counter.
\<close>

fun annotateFrom ::
  "lib \<Rightarrow> (position \<rightharpoonup> nat) \<Rightarrow> (nat \<Rightarrow> string) \<Rightarrow> nat \<Rightarrow> feature list \<Rightarrow> error + feature list" where
  "annotateFrom L coordCounts mkId counter [] = Inr []"
| "annotateFrom L coordCounts mkId counter (f # fs) =
     (case annotateFeature L coordCounts (mkId counter) f of
        Inl e \<Rightarrow> Inl e
      | Inr f' \<Rightarrow>
          (case annotateFrom L coordCounts mkId (counter + 1) fs of
             Inl e \<Rightarrow> Inl e
           | Inr fs' \<Rightarrow> Inr (f' # fs')))"

definition inferCenters :: "lib \<Rightarrow> (nat \<Rightarrow> string) \<Rightarrow> feature list \<Rightarrow> error + feature list" where
  "inferCenters L mkId features =
     annotateFrom L (buildCoordCounts L features) mkId 0 features"

section \<open>The wording of the specification for tower center inference\<close>

text \<open>
  The analyzed ring (the closing duplicate dropped), the turning angle at each of its
  vertices, mean and population standard deviation, the number of features in which a
  coordinate occurs, and the score of a vertex.
\<close>

definition ringClosed :: "position list \<Rightarrow> bool" where
  "ringClosed ring =
     (ring \<noteq> [] \<and> lng_of (hd ring) = lng_of (last ring) \<and> lat_of (hd ring) = lat_of (last ring))"

definition analyzedRing :: "position list \<Rightarrow> position list" where
  "analyzedRing ring = (if ringClosed ring then butlast ring else ring)"

definition turningAngle :: "lib \<Rightarrow> position list \<Rightarrow> nat \<Rightarrow> real" where
  "turningAngle L vs j =
     calculateDeviation (turfBearing L (vs ! j) (vs ! ((j + length vs - 1) mod length vs)))
                        (turfBearing L (vs ! j) (vs ! ((j + 1) mod length vs)))"

definition turningAngles :: "lib \<Rightarrow> position list \<Rightarrow> real list" where
  "turningAngles L vs = map (turningAngle L vs) [0..<length vs]"

definition mean :: "real list \<Rightarrow> real" where
  "mean xs = sum_list xs / real (length xs)"

definition populationStdDev :: "real list \<Rightarrow> real" where
  "populationStdDev xs = sqrt (sum_list (map (\<lambda>x. (x - mean xs)\<^sup>2) xs) / real (length xs))"

definition occurrenceCount :: "lib \<Rightarrow> feature list \<Rightarrow> position \<Rightarrow> nat" where
  "occurrenceCount L features v =
     length (filter (\<lambda>f. v \<in> set (coordAll L (geometry f))) features)"

definition vertexScore :: "lib \<Rightarrow> feature list \<Rightarrow> position list \<Rightarrow> nat \<Rightarrow> real" where
  "vertexScore L features vs k =
     real (occurrenceCount L features (vs ! k)) * 50
     + (if k = 0 then 80 else 0)
     + (180 - turningAngle L vs k) * 2"

text \<open>
  The key patterns as the claim on explicit coordinates words them, each matched against
  the entire key: \<open>(site_)?lat(itude)?\<close> and \<open>(site_)?lon(gitude)?|lng\<close>; and the second
  pattern of the program read as one for the entire key, \<open>(site_?)?lon(gitude)?|lng\<close>.
\<close>

definition claimLatRx :: rx where
  "claimLatRx = Seq (Opt (Lit ''site_'')) (Seq (Lit ''lat'') (Opt (Lit ''itude'')))"

definition claimLonRx :: rx where
  "claimLonRx =
     Alt (Seq (Opt (Lit ''site_'')) (Seq (Lit ''lon'') (Opt (Lit ''gitude'')))) (Lit ''lng'')"

definition lonWholeRx :: rx where
  "lonWholeRx = Alt lonHeadRx (Lit ''lng'')"

text \<open>
  A key that matches the longitude pattern in part only: it begins like a longitude key
  or ends in \<open>lng\<close>, and is not a longitude key as a whole (\<open>long_name\<close>, \<open>xlng\<close>).
\<close>

definition partialLonKey :: "string \<Rightarrow> bool" where
  "partialLonKey k =
     ((rx_prefix lonHeadRx k \<or> rx_suffix (Lit ''lng'') k) \<and> \<not> rx_full lonWholeRx k)"

text \<open>
  The ring that represents a feature: the outer ring of a polygon, or of the first
  polygon of a multi-polygon.
\<close>

definition representativeRing :: "feature \<Rightarrow> position list option" where
  "representativeRing f =
     (case geometry f of
        Some (Polygon (ring # _)) \<Rightarrow> Some ring
      | Some (MultiPolygon ((ring # _) # _)) \<Rightarrow> Some ring
      | _ \<Rightarrow> None)"

text \<open>
  A number rounded to 4 decimal places (halves away from zero), as the claim on site
  clustering words the key of a site.
\<close>

definition roundedTo4 :: "real \<Rightarrow> real" where
  "roundedTo4 x = sgn x * of_int \<lfloor>\<bar>x\<bar> * 10000 + 1 / 2\<rfloor> / 10000"

section \<open>A concrete instance of the library parameters\<close>

text \<open>
  A small planar stand-in for the library, on which the model can be evaluated: all
  coordinates of a geometry in order; the mean of the coordinates as centroid, which
  does not exist for a geometry without coordinates; a compass bearing of eight
  directions, exact along the axes and the diagonals; the sum of the coordinate differences as distance, 111 km to the
  degree; the bounding box as containment test; numbers and the string "Infinity" as
  the property values that parse; and a host whose sort, where the order is
  implementation-defined, leaves the first element first.
\<close>

fun flatCoords :: "geometry \<Rightarrow> position list" where
  "flatCoords (Point p) = [p]"
| "flatCoords (MultiPoint ps) = ps"
| "flatCoords (LineString ps) = ps"
| "flatCoords (MultiLineString ls) = concat ls"
| "flatCoords (Polygon rings) = concat rings"
| "flatCoords (MultiPolygon polys) = concat (concat polys)"
| "flatCoords (GeometryCollection gs) = concat (map flatCoords gs)"

definition planarCoordAll :: "geometry option \<Rightarrow> position list" where
  "planarCoordAll go = (case go of None \<Rightarrow> [] | Some g \<Rightarrow> flatCoords g)"

definition planarCentroid :: "geometry option \<Rightarrow> position option" where
  "planarCentroid go =
     (case planarCoordAll go of
        [] \<Rightarrow> None
      | cs \<Rightarrow> Some (Position (sum_list (map lng_of cs) / real (length cs))
                              (sum_list (map lat_of cs) / real (length cs)) []))"

definition planarBearing :: "position \<Rightarrow> position \<Rightarrow> real" where
  "planarBearing a b =
     (let dx = lng_of b - lng_of a; dy = lat_of b - lat_of a
      in if dx = 0 then (if dy \<ge> 0 then 0 else 180)
         else if dx > 0 then (if dy > 0 then 45 else if dy = 0 then 90 else 135)
         else (if dy > 0 then - 45 else if dy = 0 then - 90 else - 135))"

definition planarDistance :: "units \<Rightarrow> position \<Rightarrow> position \<Rightarrow> real" where
  "planarDistance u a b =
     (\<bar>lng_of a - lng_of b\<bar> + \<bar>lat_of a - lat_of b\<bar>)
       * (case u of Kilometers \<Rightarrow> 111 | Meters \<Rightarrow> 111000)"

definition planarInside :: "position \<Rightarrow> geometry option \<Rightarrow> bool option" where
  "planarInside p go =
     (case planarCoordAll go of
        [] \<Rightarrow> None
      | cs \<Rightarrow> Some ((\<exists>c \<in> set cs. lng_of c \<le> lng_of p) \<and> (\<exists>c \<in> set cs. lng_of p \<le> lng_of c)
                    \<and> (\<exists>c \<in> set cs. lat_of c \<le> lat_of p) \<and> (\<exists>c \<in> set cs. lat_of p \<le> lat_of c)))"

definition numberOnly :: "pvalue \<Rightarrow> jsnum" where
  "numberOnly v =
     (case v of
        PNum r \<Rightarrow> Num r
      | PStr str \<Rightarrow> (if str = ''Infinity'' then PosInf else NaN)
      | PPos p \<Rightarrow> NaN)"

definition planarLib :: lib where
  "planarLib =
     \<lparr>turfDistance = planarDistance, turfBearing = planarBearing,
      centroid = planarCentroid, coordAll = planarCoordAll,
      booleanPointInPolygon = planarInside, parseFloat = numberOnly,
      hostSortFirst = (\<lambda>scores. 0)\<rparr>"

text \<open>
  Two sector polygons with their tip at the origin: one opening to the north-east, one
  to the south-west, the second carrying an explicit azimuth; and a point feature.
\<close>

definition origin :: position where
  "origin = Position 0 0 []"

definition sectorNE :: feature where
  "sectorNE =
     \<lparr>geometry = Some (Polygon [[Position 0 0 [], Position 0 (1/100) [], Position (1/100) 0 [],
                                  Position 0 0 []]]),
      properties = [(''name'', PStr ''NE''), (''_center'', PPos (Position 0 0 []))]\<rparr>"

definition sectorSW :: feature where
  "sectorSW =
     \<lparr>geometry = Some (Polygon [[Position 0 0 [], Position 0 (- 1/100) [], Position (- 1/100) 0 [],
                                  Position 0 0 []]]),
      properties = [(''Azimuth'', PNum 225), (''_center'', PPos (Position 0 0 []))]\<rparr>"

definition mast :: feature where
  "mast =
     \<lparr>geometry = Some (Point (Position (1/10) (1/10) [])),
      properties = [(''_center'', PPos (Position (1/10) (1/10) []))]\<rparr>"

definition omniCell :: feature where
  "omniCell =
     \<lparr>geometry = Some (Point (Position 0 0 [])),
      properties = [(''_center'', PPos (Position 0 0 []))]\<rparr>"

definition queryNE :: position where
  "queryNE = Position (1/1000) 0 []"

text \<open>A polygon without rings and without \<open>_center\<close>: it has no coordinates.\<close>

definition emptyPolygon :: feature where
  "emptyPolygon = \<lparr>geometry = Some (Polygon []), properties = []\<rparr>"

text \<open>The two sites of the features \<open>sectorNE\<close>, \<open>mast\<close> and \<open>omniCell\<close>, seen from \<open>queryNE\<close>.\<close>

definition demoSites :: "SiteGroup list" where
  "demoSites =
     [\<lparr>id_key = ((False, 0), (False, 0)), referencePoint = Position 0 0 [],
       distance = 111 / 1000, candidates = [sectorNE, omniCell]\<rparr>,
      \<lparr>id_key = ((False, 1000), (False, 1000)), referencePoint = Position (1/10) (1/10) [],
       distance = 22089 / 1000, candidates = [mast]\<rparr>]"

text \<open>Point features with coordinate attributes of several spellings.\<close>

definition latLonCell :: feature where
  "latLonCell =
     \<lparr>geometry = Some (Point (Position 5 5 [])),
      properties = [(''name'', PStr ''A''), (''Latitude'', PNum 10), (''LON'', PNum 20)]\<rparr>"

definition siteLatCell :: feature where
  "siteLatCell =
     \<lparr>geometry = Some (Point (Position 5 5 [])),
      properties = [(''sitelat'', PNum 10), (''lon'', PNum 20)]\<rparr>"

text \<open>An octagon whose sides run along the axes and the diagonals.\<close>

definition octagonRing :: "position list" where
  "octagonRing =
     [Position 1 0 [], Position 2 0 [], Position 3 1 [], Position 3 2 [], Position 2 3 [],
      Position 1 3 [], Position 0 2 [], Position 0 1 [], Position 1 0 []]"

definition octagon :: feature where
  "octagon = \<lparr>geometry = Some (Polygon [octagonRing]), properties = [(''name'', PStr ''omni'')]\<rparr>"

text \<open>The ring of the two sector polygons at the origin.\<close>

definition ringNE :: "position list" where
  "ringNE = [Position 0 0 [], Position 0 (1/100) [], Position (1/100) 0 [], Position 0 0 []]"

text \<open>
  A point whose azimuth attribute reads "Infinity"; two points just west and just east of
  the prime meridian, 2 m apart; a line from the origin northwards; a point with a key
  \<open>long_name\<close> before its coordinate attributes; and a point whose first latitude key
  holds no number.
\<close>

definition infinityCell :: feature where
  "infinityCell =
     \<lparr>geometry = Some (Point (Position 0 0 [])),
      properties = [(''azimuth'', PStr ''Infinity'')]\<rparr>"

definition westCell :: feature where
  "westCell =
     \<lparr>geometry = Some (Point (Position (- 1/100000) 0 [])),
      properties = [(''_center'', PPos (Position (- 1/100000) 0 []))]\<rparr>"

definition eastCell :: feature where
  "eastCell =
     \<lparr>geometry = Some (Point (Position (1/100000) 0 [])),
      properties = [(''_center'', PPos (Position (1/100000) 0 []))]\<rparr>"

definition northRay :: feature where
  "northRay =
     \<lparr>geometry = Some (LineString [Position 0 0 [], Position 0 (1/100) [], Position 0 (2/100) []]),
      properties = []\<rparr>"

definition longNameCell :: feature where
  "longNameCell =
     \<lparr>geometry = Some (Point (Position 5 5 [])),
      properties = [(''long_name'', PNum 5), (''lat'', PNum 10), (''lon'', PNum 20)]\<rparr>"

definition firstLatCell :: feature where
  "firstLatCell =
     \<lparr>geometry = Some (Point (Position 5 5 [])),
      properties = [(''lat'', PStr ''n/a''), (''latitude'', PNum 10), (''lon'', PNum 20)]\<rparr>"

section \<open>Auxiliary notions for the proofs\<close>

text \<open>What \<open>push\<close> does to one group, and the invariant of the clustering loop.\<close>

definition pushed :: "sitekey \<Rightarrow> feature \<Rightarrow> SiteGroup \<Rightarrow> SiteGroup" where
  "pushed key f g = (if id_key g = key then g\<lparr>candidates := candidates g @ [f]\<rparr> else g)"

definition clustered :: "lib \<Rightarrow> position \<Rightarrow> feature list \<Rightarrow> SiteGroup list \<Rightarrow> bool" where
  "clustered L t seen gs =
     (distinct (map id_key gs)
      \<and> (\<forall>f \<in> set seen. \<exists>g \<in> set gs. keyOf L f = Some (id_key g))
      \<and> (\<forall>g \<in> set gs.
            candidates g = filter (\<lambda>f. keyOf L f = Some (id_key g)) seen
            \<and> candidates g \<noteq> []
            \<and> centerCoords L (hd (candidates g)) = Inr (referencePoint g)
            \<and> siteKey (referencePoint g) = id_key g
            \<and> distance g = turfDistance L Kilometers t (referencePoint g)))"

text \<open>The count of a coordinate in the index, 0 when it has no entry.\<close>

definition countOf :: "(position \<rightharpoonup> nat) \<Rightarrow> position \<Rightarrow> nat" where
  "countOf m v = (case m v of None \<Rightarrow> 0 | Some n \<Rightarrow> n)"

text \<open>A number that is an angle in \<open>[0,360)\<close> or \<open>NaN\<close>: what \<open>normalizeAngle\<close> gives for any number.\<close>

definition angleOrNaN :: "jsnum \<Rightarrow> bool" where
  "angleOrNaN x = (case x of Num a \<Rightarrow> 0 \<le> a \<and> a < 360 | NaN \<Rightarrow> True | _ \<Rightarrow> False)"


text \<open>
  Comparisons of a JavaScript number with a real bound, and the test for an integer;
  each is false for \<open>NaN\<close>.
\<close>

definition jsLess :: "jsnum \<Rightarrow> real \<Rightarrow> bool" where
  "jsLess x y = (case x of Num r \<Rightarrow> r < y | NegInf \<Rightarrow> True | _ \<Rightarrow> False)"

definition jsGreater :: "jsnum \<Rightarrow> real \<Rightarrow> bool" where
  "jsGreater x y = (case x of Num r \<Rightarrow> y < r | PosInf \<Rightarrow> True | _ \<Rightarrow> False)"

definition jsInteger :: "jsnum \<Rightarrow> bool" where
  "jsInteger x = (case x of Num r \<Rightarrow> of_int \<lfloor>r\<rfloor> = r | _ \<Rightarrow> False)"
section \<open>Properties of the angle helpers\<close>

lemma js_rem_nonneg:
  assumes "0 \<le> x"
  shows "0 \<le> js_rem x 360" and "js_rem x 360 < 360"
proof -
  have t: "js_trunc (x / 360) = \<lfloor>x / 360\<rfloor>"
    using assms by (simp add: js_trunc_def)
  define r where "r = x / 360 - of_int \<lfloor>x / 360\<rfloor>"
  have lo: "0 \<le> r" unfolding r_def by linarith
  have hi: "r < 1" unfolding r_def by linarith
  have e: "js_rem x 360 = 360 * r"
    by (simp add: js_rem_def t r_def algebra_simps)
  show "0 \<le> js_rem x 360" unfolding e using lo by simp
  show "js_rem x 360 < 360" unfolding e using hi by simp
qed

lemma js_rem_neg:
  assumes "x < 0"
  shows "- 360 < js_rem x 360" and "js_rem x 360 \<le> 0"
proof -
  have t: "js_trunc (x / 360) = \<lceil>x / 360\<rceil>"
    using assms by (simp add: js_trunc_def)
  define r where "r = x / 360 - of_int \<lceil>x / 360\<rceil>"
  have hi: "r \<le> 0" unfolding r_def by linarith
  have lo: "- 1 < r" unfolding r_def by linarith
  have e: "js_rem x 360 = 360 * r"
    by (simp add: js_rem_def t r_def algebra_simps)
  show "- 360 < js_rem x 360" unfolding e using lo by simp
  show "js_rem x 360 \<le> 0" unfolding e using hi by (simp add: mult_le_0_iff)
qed

lemma js_rem_bounds: "- 360 < js_rem x 360 \<and> js_rem x 360 < 360"
proof (cases "0 \<le> x")
  case True
  from js_rem_nonneg [OF True] show ?thesis by simp
next
  case False
  then have "x < 0" by simp
  from js_rem_neg [OF this] show ?thesis by simp
qed

lemma normalizeAngle_range: "0 \<le> normalizeAngle a \<and> normalizeAngle a < 360"
proof -
  have "0 \<le> js_rem a 360 + 360" using js_rem_bounds [of a] by simp
  from js_rem_nonneg [OF this] show ?thesis
    by (simp add: normalizeAngle_def Let_def)
qed

lemma js_rem_small: "0 \<le> x \<Longrightarrow> x < 360 \<Longrightarrow> js_rem x 360 = x"
proof -
  assume a: "0 \<le> x" "x < 360"
  then have "\<lfloor>x / 360\<rfloor> = 0" by (simp add: floor_eq_iff)
  then show ?thesis using a by (simp add: js_rem_def js_trunc_def)
qed

lemma js_rem_wrap: "360 \<le> x \<Longrightarrow> x < 720 \<Longrightarrow> js_rem x 360 = x - 360"
proof -
  assume a: "360 \<le> x" "x < 720"
  then have "\<lfloor>x / 360\<rfloor> = 1" by (simp add: floor_eq_iff)
  then show ?thesis using a by (simp add: js_rem_def js_trunc_def)
qed

lemma normalizeAngle_id: "0 \<le> a \<Longrightarrow> a < 360 \<Longrightarrow> normalizeAngle a = a"
  by (simp add: normalizeAngle_def Let_def js_rem_small js_rem_wrap)

text \<open>
  Claim C10, as amended. The deviation is symmetric, is 0 between an angle and itself and
  is 180 between 0 and 180, for all real angles. Its result lies in \<open>[0,180]\<close> when the two
  angles differ by at most 360, which holds for the normalized angles the program passes
  (both in \<open>[0,360)\<close>); for angles further apart it does not.
\<close>

theorem calculateDeviation_props:
  "calculateDeviation a b = calculateDeviation b a
   \<and> calculateDeviation a a = 0
   \<and> calculateDeviation 0 180 = 180
   \<and> (\<bar>a - b\<bar> \<le> 360 \<longrightarrow> 0 \<le> calculateDeviation a b \<and> calculateDeviation a b \<le> 180)"
  by (simp add: calculateDeviation_def Let_def abs_minus_commute)

theorem calculateDeviation_props_witness:
  "\<bar>(350::real) - 10\<bar> \<le> 360 \<and> calculateDeviation 350 10 = 20
   \<and> 0 \<le> calculateDeviation 350 10 \<and> calculateDeviation 350 10 \<le> 180"
  using calculateDeviation_props [of 350 10]
  by (simp add: calculateDeviation_def Let_def)

text \<open>
  The claim as stated (a result in \<open>[0,180]\<close> for all real angles) fails for angles more
  than 360 apart: the deviation of 0 and 1000 is \<open>360 - 1000\<close>.
\<close>

theorem calculateDeviation_range_counterexample:
  "calculateDeviation 0 1000 = - 640 \<and> \<not> (0 \<le> calculateDeviation 0 1000)"
  by (simp add: calculateDeviation_def Let_def)

section \<open>The sector geometry analyzer\<close>


lemma normalizeAngle_neg: "- 360 < x \<Longrightarrow> x < 0 \<Longrightarrow> normalizeAngle x = x + 360"
proof -
  assume a: "- 360 < x" "x < 0"
  then have "\<lceil>x / 360\<rceil> = 0" by (simp add: ceiling_eq_iff)
  then have "js_rem x 360 = x" using a by (simp add: js_rem_def js_trunc_def)
  then show ?thesis using a by (simp add: normalizeAngle_def Let_def js_rem_small)
qed

lemma gapAt_range:
  assumes "\<forall>b \<in> set bs. 0 \<le> b \<and> b < 360" "i < length bs"
  shows "0 \<le> gapAt bs i \<and> gapAt bs i < 360"
proof -
  have n: "(i + 1) mod length bs < length bs" using assms(2) by (intro mod_less_divisor) auto
  have a: "0 \<le> bs ! i \<and> bs ! i < 360" using assms by simp
  have b: "0 \<le> bs ! ((i + 1) mod length bs) \<and> bs ! ((i + 1) mod length bs) < 360"
    using assms(1) n nth_mem by blast
  show ?thesis using a b by (simp add: gapAt_def Let_def)
qed

lemma gapStep_inv:
  assumes "k \<le> length bs" "foldl (gapStep bs) (0, 0, 0) [0..<k] = (m, s, e)"
  shows "(\<forall>i<k. gapAt bs i \<le> m) \<and> 0 \<le> m \<and>
         ((m = 0 \<and> s = 0 \<and> e = 0) \<or>
          (\<exists>i<k. gapAt bs i = m \<and> 0 < m \<and> (\<forall>j<i. gapAt bs j < m)
                 \<and> s = bs ! i \<and> e = bs ! ((i + 1) mod length bs)))"
  using assms
proof (induction k arbitrary: m s e)
  case 0
  then show ?case by simp
next
  case (Suc k)
  obtain m0 s0 e0 where st: "foldl (gapStep bs) (0, 0, 0) [0..<k] = (m0, s0, e0)"
    by (metis prod_cases3)
  have kl: "k \<le> length bs" using Suc.prems(1) by simp
  note ih = Suc.IH [OF kl st]
  have step: "gapStep bs (m0, s0, e0) k = (m, s, e)"
    using Suc.prems(2) st by simp
  show ?case
  proof (cases "gapAt bs k > m0")
    case True
    then have eq: "m = gapAt bs k" "s = bs ! k" "e = bs ! ((k + 1) mod length bs)"
      using step by (simp_all add: gapStep_def)
    have "\<forall>i<Suc k. gapAt bs i \<le> m" using ih True eq(1) by (auto simp: less_Suc_eq)
    moreover have "0 \<le> m" "0 < m" using ih True eq(1) by auto
    moreover have "\<forall>j<k. gapAt bs j < m" using ih True eq(1) by auto
    ultimately show ?thesis using eq by auto
  next
    case False
    then have eq: "m = m0" "s = s0" "e = e0" using step by (simp_all add: gapStep_def)
    have "\<forall>i<Suc k. gapAt bs i \<le> m" using ih False eq(1) by (auto simp: less_Suc_eq)
    moreover have "(m = 0 \<and> s = 0 \<and> e = 0) \<or>
          (\<exists>i<Suc k. gapAt bs i = m \<and> 0 < m \<and> (\<forall>j<i. gapAt bs j < m)
                 \<and> s = bs ! i \<and> e = bs ! ((i + 1) mod length bs))"
      using ih eq by (auto simp: less_Suc_eq)
    ultimately show ?thesis using ih eq by simp
  qed
qed

lemma sortedBearings_range:
  "\<forall>b \<in> set (sortedBearings L f t). 0 \<le> b \<and> b < 360"
  by (auto simp: sortedBearings_def normalizeAngle_range)

lemma findMaxGap_props:
  assumes r: "\<forall>b \<in> set bs. 0 \<le> b \<and> b < 360"
    and fm: "findMaxGap bs = (m, s, e)"
  shows "0 \<le> m \<and> m < 360 \<and> (\<forall>i<length bs. gapAt bs i \<le> m) \<and>
         ((m = 0 \<and> s = 0 \<and> e = 0) \<or>
          (\<exists>i<length bs. gapAt bs i = m \<and> 0 < m \<and> (\<forall>j<i. gapAt bs j < m)
                 \<and> s = bs ! i \<and> e = bs ! ((i + 1) mod length bs)))"
proof -
  have inv: "(\<forall>i<length bs. gapAt bs i \<le> m) \<and> 0 \<le> m \<and>
         ((m = 0 \<and> s = 0 \<and> e = 0) \<or>
          (\<exists>i<length bs. gapAt bs i = m \<and> 0 < m \<and> (\<forall>j<i. gapAt bs j < m)
                 \<and> s = bs ! i \<and> e = bs ! ((i + 1) mod length bs)))"
    using gapStep_inv [of "length bs" bs m s e] fm by (simp add: findMaxGap_def)
  have "m < 360"
  proof (cases "m = 0")
    case True then show ?thesis by simp
  next
    case False
    then obtain i where "i < length bs" "gapAt bs i = m" using inv by auto
    then show ?thesis using gapAt_range [OF r] by auto
  qed
  then show ?thesis using inv by simp
qed

lemma normalizeAngleJs_range: "angleOrNaN (normalizeAngleJs x)"
  by (cases x) (simp_all add: normalizeAngleJs_def angleOrNaN_def normalizeAngle_range)

lemma getExplicitAzimuth_range:
  "getExplicitAzimuth L props = Some a \<Longrightarrow> angleOrNaN a"
  by (auto simp: getExplicitAzimuth_def Let_def normalizeAngleJs_range
           split: option.splits prod.splits if_splits)

lemma getExplicitAzimuth_NaN:
  "getExplicitAzimuth L props = Some NaN \<Longrightarrow>
   \<exists>kv \<in> set props. parseFloat L (snd kv) = PosInf \<or> parseFloat L (snd kv) = NegInf"
proof -
  assume a: "getExplicitAzimuth L props = Some NaN"
  then obtain k v where f: "find (\<lambda>kv. rx_full azimuthRx (fst kv)) props = Some (k, v)"
    and n: "parseFloat L v \<noteq> NaN" "normalizeAngleJs (parseFloat L v) = NaN"
    by (auto simp: getExplicitAzimuth_def Let_def split: option.splits prod.splits if_splits)
  have "(k, v) \<in> set props" using f by (auto simp: find_Some_iff)
  moreover have "parseFloat L v = PosInf \<or> parseFloat L v = NegInf"
    using n by (cases "parseFloat L v") (simp_all add: normalizeAngleJs_def)
  ultimately show ?thesis by force
qed

lemma collapsedMetrics_ok:
  "(\<forall>a. ea = Some a \<longrightarrow> angleOrNaN a) \<Longrightarrow>
   angleOrNaN (azimuth (collapsedMetrics ea)) \<and>
   0 < beamwidth (collapsedMetrics ea) \<and> beamwidth (collapsedMetrics ea) \<le> 360 \<and>
   (isOmni (collapsedMetrics ea) \<longrightarrow> beamwidth (collapsedMetrics ea) = 360) \<and>
   (azimuth (collapsedMetrics ea) = NaN \<longrightarrow> ea = Some NaN)"
  by (cases ea) (simp_all add: collapsedMetrics_def omniMetrics_def angleOrNaN_def)

text \<open>
  Whatever metrics the analysis returns: the beamwidth lies in \<open>(0,360]\<close>, an
  omnidirectional result has beamwidth 360, and the azimuth lies in \<open>[0,360)\<close> unless it is
  \<open>NaN\<close>, which it is only when an azimuth attribute parses to an infinite number.
\<close>

lemma sector_metrics_ranges:
  assumes "analyzeSectorGeometry L f t = Inr m"
  shows "angleOrNaN (azimuth m) \<and> 0 < beamwidth m \<and> beamwidth m \<le> 360
         \<and> (isOmni m \<longrightarrow> beamwidth m = 360)
         \<and> (azimuth m = NaN \<longrightarrow> getExplicitAzimuth L (properties f) = Some NaN)"
proof -
  let ?ea = "getExplicitAzimuth L (properties f)"
  have ea: "\<forall>a. ?ea = Some a \<longrightarrow> angleOrNaN a"
    using getExplicitAzimuth_range by blast
  note cm = collapsedMetrics_ok [OF ea]
  obtain mg gs ge where fm: "findMaxGap (sortedBearings L f t) = (mg, gs, ge)"
    by (metis prod_cases3)
  from findMaxGap_props [OF sortedBearings_range fm]
  have mg: "0 \<le> mg" "mg < 360" by simp_all
  have na: "angleOrNaN (Num (normalizeAngle x))" for x
    by (simp add: angleOrNaN_def normalizeAngle_range)
  have z: "angleOrNaN (Num 0)" by (simp add: angleOrNaN_def)
  show ?thesis
    using assms cm mg fm ea na z
    by (auto simp: analyzeSectorGeometry_def Let_def omniMetrics_def
             split: option.splits if_splits)
qed

lemma sector_metrics_finite:
  assumes "analyzeSectorGeometry L f t = Inr m"
    and "\<forall>kv \<in> set (properties f). parseFloat L (snd kv) \<noteq> PosInf \<and> parseFloat L (snd kv) \<noteq> NegInf"
  shows "\<exists>a. azimuth m = Num a \<and> 0 \<le> a \<and> a < 360"
proof -
  note r = sector_metrics_ranges [OF assms(1)]
  have "azimuth m \<noteq> NaN" using r getExplicitAzimuth_NaN [of L "properties f"] assms(2) by blast
  then show ?thesis using r by (cases "azimuth m") (simp_all add: angleOrNaN_def)
qed

subsection \<open>An azimuth attribute that reads "Infinity"\<close>

lemma azimuthRx_azimuth: "rx_full azimuthRx ''azimuth''"
  by (simp add: rx_full_def azimuthRx_def sitePrefix_def lower_def)

text \<open>
  Claim C9, evaluated where the program departs from it. \<open>parseFloat\<close> of the attribute
  value "Infinity" is \<open>Infinity\<close>, which \<open>isNaN\<close> lets pass; \<open>normalizeAngle\<close> of it is \<open>NaN\<close>,
  and the analysis returns \<open>NaN\<close> as the azimuth of the sector, a value outside
  \<open>[0,360)\<close>.
\<close>

theorem analyzeSectorGeometry_nan_azimuth:
  "parseFloat planarLib (PStr ''Infinity'') = PosInf
   \<and> getExplicitAzimuth planarLib (properties infinityCell) = Some NaN
   \<and> analyzeSectorGeometry planarLib infinityCell origin =
       Inr \<lparr>azimuth = NaN, beamwidth = 65, isOmni = False, startAngle = NaN, endAngle = NaN\<rparr>"
proof -
  have p: "parseFloat planarLib (PStr ''Infinity'') = PosInf"
    by (simp add: planarLib_def numberOnly_def)
  have a: "getExplicitAzimuth planarLib (properties infinityCell) = Some NaN"
    by (simp add: getExplicitAzimuth_def infinityCell_def azimuthRx_azimuth p Let_def
          normalizeAngleJs_def)
  have "analyzeSectorGeometry planarLib infinityCell origin =
       Inr \<lparr>azimuth = NaN, beamwidth = 65, isOmni = False, startAngle = NaN, endAngle = NaN\<rparr>"
    unfolding analyzeSectorGeometry_def Let_def a
    by (simp add: infinityCell_def isPoint_def collapsedMetrics_def jsPlus_def
          normalizeAngleJs_def)
  then show ?thesis using p a by simp
qed

subsection \<open>The loop and the gaps of the sorted bearings\<close>

lemma wrapGaps_length: "length (wrapGaps bs) = length bs - 1 + 1"
  by (simp add: wrapGaps_def)

lemma sorted_between:
  assumes "sorted bs" "x \<in> set bs"
  shows "hd bs \<le> x \<and> x \<le> last bs"
proof -
  from assms(2) obtain i where i: "i < length bs" "bs ! i = x" by (auto simp: in_set_conv_nth)
  then have ne: "bs \<noteq> []" by auto
  have "bs ! 0 \<le> bs ! i" using assms(1) i(1) by (intro sorted_nth_mono) auto
  moreover have "bs ! i \<le> bs ! (length bs - 1)" using assms(1) i(1) by (intro sorted_nth_mono) auto
  ultimately show ?thesis using i ne by (simp add: hd_conv_nth last_conv_nth)
qed

lemma gapAt_coincident:
  assumes "sorted bs" "hd bs = last bs" "i < length bs"
  shows "gapAt bs i = 0"
proof -
  have e: "\<forall>x \<in> set bs. x = hd bs" using sorted_between [OF assms(1)] assms(2) by fastforce
  have n: "(i + 1) mod length bs < length bs" using assms(3) by (intro mod_less_divisor) auto
  have "bs ! i = hd bs" using e assms(3) by simp
  moreover have "bs ! ((i + 1) mod length bs) = hd bs" using e n nth_mem by blast
  ultimately show ?thesis by (simp add: gapAt_def Let_def)
qed

lemma gapAt_wrapGaps:
  assumes s: "sorted bs" and d: "hd bs \<noteq> last bs" and i: "i < length bs"
  shows "gapAt bs i = wrapGaps bs ! i"
proof -
  let ?n = "length bs"
  have ne: "bs \<noteq> []" using i by auto
  show ?thesis
  proof (cases "i < ?n - 1")
    case True
    then have nx: "(i + 1) mod ?n = i + 1" by simp
    have "bs ! i \<le> bs ! (i + 1)" using s True by (intro sorted_nth_mono) auto
    then have g: "gapAt bs i = bs ! (i + 1) - bs ! i" unfolding gapAt_def Let_def nx by simp
    have "wrapGaps bs ! i = bs ! (i + 1) - bs ! i"
      using True by (simp add: wrapGaps_def nth_append)
    then show ?thesis using g by simp
  next
    case False
    then have e: "i = ?n - 1" using i by linarith
    then have "i + 1 = ?n" using i by linarith
    then have nx: "(i + 1) mod ?n = 0" by simp
    have h: "bs ! 0 = hd bs" "bs ! i = last bs"
      using ne e by (simp_all add: hd_conv_nth last_conv_nth)
    have "hd bs \<le> last bs" using sorted_between [OF s, of "last bs"] ne by simp
    then have "hd bs < last bs" using d by simp
    then have g: "gapAt bs i = hd bs + 360 - last bs"
      unfolding gapAt_def Let_def nx h by simp
    have "wrapGaps bs ! i = hd bs + 360 - last bs"
      using e by (simp add: wrapGaps_def nth_append)
    then show ?thesis using g by simp
  qed
qed

lemma findMaxGap_coincident:
  assumes r: "\<forall>b \<in> set bs. 0 \<le> b \<and> b < 360" and s: "sorted bs" and d: "hd bs = last bs"
    and fm: "findMaxGap bs = (m, gs, ge)"
  shows "m = 0"
proof -
  note p = findMaxGap_props [OF r fm]
  show ?thesis
  proof (rule ccontr)
    assume "m \<noteq> 0"
    then obtain i where "i < length bs" "gapAt bs i = m" "0 < m" using p by auto
    then show False using gapAt_coincident [OF s d] by auto
  qed
qed

lemma findMaxGap_max:
  assumes r: "\<forall>b \<in> set bs. 0 \<le> b \<and> b < 360" and s: "sorted bs" and d: "hd bs \<noteq> last bs"
    and ne: "bs \<noteq> []" and fm: "findMaxGap bs = (m, gs, ge)"
  shows "m = maxWrapGap bs"
proof -
  note p = findMaxGap_props [OF r fm]
  have l: "length (wrapGaps bs) = length bs" using ne by (simp add: wrapGaps_length)
  have gaps: "set (wrapGaps bs) = (\<lambda>i. gapAt bs i) ` {..<length bs}"
  proof -
    have "wrapGaps bs = map (gapAt bs) [0..<length bs]"
      using l gapAt_wrapGaps [OF s d] by (intro nth_equalityI) simp_all
    then show ?thesis by (simp add: lessThan_atLeast0)
  qed
  have le: "\<forall>y \<in> set (wrapGaps bs). y \<le> m" using p gaps by auto
  have mem: "m \<in> set (wrapGaps bs)"
  proof (cases "m = 0")
    case True
    have z: "0 < length bs" using ne by simp
    have "gapAt bs 0 \<le> 0" using p True z by auto
    moreover have "0 \<le> gapAt bs 0" using gapAt_range [OF r z] by simp
    ultimately have "gapAt bs 0 = m" using True by simp
    then show ?thesis using gaps z by auto
  next
    case False
    then obtain i where "i < length bs" "gapAt bs i = m" using p by auto
    then show ?thesis using gaps by auto
  qed
  show ?thesis unfolding maxWrapGap_def
    using le mem by (intro Max_eqI [symmetric]) auto
qed

text \<open>
  Claim C2, as amended. For a feature whose geometry is not a point, whose centroid is at
  least 2 m from the anchor and that has a vertex further than 2 m from it, the analysis
  returns metrics built from the bearings from the anchor to the vertices further than
  2 m from it, sorted ascending, and from their maximal gap \<open>G\<close> (the last of the gaps
  leading from the last bearing to the first through 360). When all these bearings
  coincide, or when \<open>G < 60\<close>, the result is omnidirectional with azimuth 0 and beamwidth
  360. Otherwise the end angle is a bearing just before a gap of size \<open>G\<close> and the start
  angle the bearing just after it, the beamwidth is \<open>360 - G\<close>, and the azimuth is the
  explicit azimuth if there is one and else the normalized midpoint
  \<open>startAngle + beamwidth / 2\<close>.
\<close>

theorem analyzeSectorGeometry_gap_analysis:
  assumes g: "geometry f = Some g" and np: "\<not> isPoint g"
    and c: "centroid L (geometry f) = Some c"
    and far: "\<not> turfDistance L Meters t c < 2"
    and outer: "\<exists>v \<in> set (coordAll L (geometry f)). 2 < turfDistance L Meters v t"
  shows "\<exists>m. analyzeSectorGeometry L f t = Inr m \<and>
          (let bs = sort (map (\<lambda>v. normalizeAngle (turfBearing L t v))
                            [v \<leftarrow> coordAll L (geometry f). 2 < turfDistance L Meters v t]);
               n = length bs; G = maxWrapGap bs
           in (hd bs = last bs \<longrightarrow> m = omniMetrics 0)
              \<and> (hd bs \<noteq> last bs \<and> G < 60 \<longrightarrow> m = omniMetrics 0)
              \<and> (hd bs \<noteq> last bs \<and> \<not> G < 60 \<longrightarrow>
                    (\<exists>i<n. wrapGaps bs ! i = G
                           \<and> endAngle m = Num (bs ! i)
                           \<and> startAngle m = Num (bs ! ((i + 1) mod n))
                           \<and> azimuth m = (case getExplicitAzimuth L (properties f) of
                                             Some a \<Rightarrow> a
                                           | None \<Rightarrow> Num (normalizeAngle
                                                        (bs ! ((i + 1) mod n) + (360 - G) / 2))))
                    \<and> beamwidth m = 360 - G
                    \<and> \<not> isOmni m))"
proof -
  let ?bs = "sortedBearings L f t"
  have bs: "sort (map (\<lambda>v. normalizeAngle (turfBearing L t v))
                    [v \<leftarrow> coordAll L (geometry f). 2 < turfDistance L Meters v t]) = ?bs"
    by (simp add: sortedBearings_def outerCoords_def)
  have o: "outerCoords L f t \<noteq> []"
    using outer by (auto simp: outerCoords_def filter_empty_conv)
  obtain mg gs ge where fm: "findMaxGap ?bs = (mg, gs, ge)" by (metis prod_cases3)
  have r: "\<forall>b \<in> set ?bs. 0 \<le> b \<and> b < 360" by (rule sortedBearings_range)
  have "length ?bs = length (outerCoords L f t)" by (simp add: sortedBearings_def)
  then have ne: "?bs \<noteq> []" using o by auto
  have srt: "sorted ?bs" by (simp add: sortedBearings_def)
  note p = findMaxGap_props [OF r fm]
  have omni: "mg < 60 \<Longrightarrow> analyzeSectorGeometry L f t = Inr (omniMetrics 0)"
    using g np c far o fm by (simp add: analyzeSectorGeometry_def Let_def)
  show ?thesis
  proof (cases "hd ?bs = last ?bs")
    case True
    have "mg = 0" by (rule findMaxGap_coincident [OF r srt True fm])
    then have "analyzeSectorGeometry L f t = Inr (omniMetrics 0)" using omni by simp
    then show ?thesis using True by (simp add: Let_def bs)
  next
    case False
    have mx: "mg = maxWrapGap ?bs" by (rule findMaxGap_max [OF r srt False ne fm])
    show ?thesis
    proof (cases "mg < 60")
      case True
      then show ?thesis using omni False mx by (simp add: Let_def bs)
    next
      case big: False
      let ?m = "\<lparr>azimuth = (case getExplicitAzimuth L (properties f) of
                              Some a \<Rightarrow> a | None \<Rightarrow> Num (normalizeAngle (ge + (360 - mg) / 2))),
                 beamwidth = 360 - mg, isOmni = False,
                 startAngle = Num ge, endAngle = Num gs\<rparr>"
      have res: "analyzeSectorGeometry L f t = Inr ?m"
        using g np c far o fm big by (simp add: analyzeSectorGeometry_def Let_def)
      from big p obtain i where i: "i < length ?bs" "gapAt ?bs i = mg"
        "gs = ?bs ! i" "ge = ?bs ! ((i + 1) mod length ?bs)" by auto
      have w: "wrapGaps ?bs ! i = mg" using gapAt_wrapGaps [OF srt False i(1)] i(2) by simp
      have ex: "\<exists>i<length ?bs. wrapGaps ?bs ! i = mg
                   \<and> endAngle ?m = Num (?bs ! i)
                   \<and> startAngle ?m = Num (?bs ! ((i + 1) mod length ?bs))
                   \<and> azimuth ?m = (case getExplicitAzimuth L (properties f) of
                                     Some a \<Rightarrow> a
                                   | None \<Rightarrow> Num (normalizeAngle
                                       (?bs ! ((i + 1) mod length ?bs) + (360 - mg) / 2)))"
        using i w by (intro exI [of _ i]) (simp split: option.splits)
      have third: "(\<exists>i<length ?bs. wrapGaps ?bs ! i = mg
                   \<and> endAngle ?m = Num (?bs ! i)
                   \<and> startAngle ?m = Num (?bs ! ((i + 1) mod length ?bs))
                   \<and> azimuth ?m = (case getExplicitAzimuth L (properties f) of
                                     Some a \<Rightarrow> a
                                   | None \<Rightarrow> Num (normalizeAngle
                                       (?bs ! ((i + 1) mod length ?bs) + (360 - mg) / 2))))
                 \<and> beamwidth ?m = 360 - mg \<and> \<not> isOmni ?m"
        by (intro conjI ex) simp_all
      show ?thesis
        unfolding Let_def bs mx [symmetric]
        using res False big third by (intro exI [of _ ?m]) blast
    qed
  qed
qed

subsection \<open>Evaluation on the north-east sector and on the line to the north\<close>

lemma azimuthRx_name: "\<not> rx_full azimuthRx ''name''"
  by (simp add: rx_full_def azimuthRx_def sitePrefix_def lower_def)

lemma azimuthRx_center: "\<not> rx_full azimuthRx ''_center''"
  by (simp add: rx_full_def azimuthRx_def sitePrefix_def lower_def)

lemma azimuthRx_Azimuth: "rx_full azimuthRx ''Azimuth''"
  by (simp add: rx_full_def azimuthRx_def sitePrefix_def lower_def)

lemma sectorNE_azimuth: "getExplicitAzimuth planarLib (properties sectorNE) = None"
  by (simp add: getExplicitAzimuth_def sectorNE_def azimuthRx_name azimuthRx_center)

lemma sectorNE_centroid:
  "centroid planarLib (geometry sectorNE) = Some (Position (1/400) (1/400) [])"
  by (simp add: planarLib_def planarCentroid_def planarCoordAll_def sectorNE_def)

lemma sectorNE_outer:
  "outerCoords planarLib sectorNE origin = [Position 0 (1/100) [], Position (1/100) 0 []]"
  by (simp add: outerCoords_def planarLib_def sectorNE_def origin_def
        planarCoordAll_def planarDistance_def)

lemma sectorNE_bearings: "sortedBearings planarLib sectorNE origin = [0, 90]"
  by (simp add: sortedBearings_def sectorNE_outer)
     (simp add: planarLib_def origin_def planarBearing_def normalizeAngle_id)

lemma findMaxGap_0_90: "findMaxGap [0, 90] = (270, 90, 0)"
  by (simp add: findMaxGap_def gapStep_def gapAt_def upt_rec)

lemma sectorNE_metrics:
  "analyzeSectorGeometry planarLib sectorNE origin =
     Inr \<lparr>azimuth = Num 45, beamwidth = 90, isOmni = False,
          startAngle = Num 0, endAngle = Num 90\<rparr>"
proof -
  have g: "geometry sectorNE = Some (Polygon [[Position 0 0 [], Position 0 (1/100) [],
             Position (1/100) 0 [], Position 0 0 []]])"
    by (simp add: sectorNE_def)
  have d: "\<not> turfDistance planarLib Meters origin (Position (1/400) (1/400) []) < 2"
    by (simp add: planarLib_def planarDistance_def origin_def)
  show ?thesis
    unfolding analyzeSectorGeometry_def Let_def sectorNE_azimuth sectorNE_centroid
      sectorNE_bearings findMaxGap_0_90 sectorNE_outer
    using d by (simp add: g isPoint_def normalizeAngle_id)
qed

lemma maxWrapGap_0_90: "maxWrapGap [0, 90] = 270"
  by (simp add: maxWrapGap_def wrapGaps_def)

lemma sectorNE_far_bearings:
  "sort (map (\<lambda>v. normalizeAngle (turfBearing planarLib origin v))
          [v \<leftarrow> coordAll planarLib (geometry sectorNE). 2 < turfDistance planarLib Meters v origin])
     = [0, 90]"
  using sectorNE_bearings by (simp add: sortedBearings_def outerCoords_def)

theorem analyzeSectorGeometry_gap_analysis_witness:
  "geometry sectorNE = Some (Polygon [[Position 0 0 [], Position 0 (1/100) [],
             Position (1/100) 0 [], Position 0 0 []]])
   \<and> \<not> isPoint (Polygon [[Position 0 0 [], Position 0 (1/100) [],
             Position (1/100) 0 [], Position 0 0 []]])
   \<and> centroid planarLib (geometry sectorNE) = Some (Position (1/400) (1/400) [])
   \<and> \<not> turfDistance planarLib Meters origin (Position (1/400) (1/400) []) < 2
   \<and> Position 0 (1/100) [] \<in> set (coordAll planarLib (geometry sectorNE))
   \<and> 2 < turfDistance planarLib Meters (Position 0 (1/100) []) origin
   \<and> hd [0, 90 :: real] \<noteq> last [0, 90] \<and> \<not> maxWrapGap [0, 90] < 60
   \<and> (\<exists>m. analyzeSectorGeometry planarLib sectorNE origin = Inr m \<and> beamwidth m = 90
           \<and> \<not> isOmni m)"
proof -
  have g: "geometry sectorNE = Some (Polygon [[Position 0 0 [], Position 0 (1/100) [],
             Position (1/100) 0 [], Position 0 0 []]])"
    by (simp add: sectorNE_def)
  have np: "\<not> isPoint (Polygon [[Position 0 0 [], Position 0 (1/100) [],
             Position (1/100) 0 [], Position 0 0 []]])"
    by (simp add: isPoint_def)
  have d: "\<not> turfDistance planarLib Meters origin (Position (1/400) (1/400) []) < 2"
    by (simp add: planarLib_def planarDistance_def origin_def)
  have v: "Position 0 (1/100) [] \<in> set (coordAll planarLib (geometry sectorNE))"
    by (simp add: planarLib_def planarCoordAll_def sectorNE_def)
  have w: "2 < turfDistance planarLib Meters (Position 0 (1/100) []) origin"
    by (simp add: planarLib_def planarDistance_def origin_def)
  have o: "\<exists>v \<in> set (coordAll planarLib (geometry sectorNE)).
             2 < turfDistance planarLib Meters v origin"
    using v w by blast
  have h: "hd [0, 90 :: real] \<noteq> last [0, 90]" by simp
  have b: "\<not> maxWrapGap [0, 90] < 60" by (simp add: maxWrapGap_0_90)
  from analyzeSectorGeometry_gap_analysis [OF g np sectorNE_centroid d o]
  obtain m where m: "analyzeSectorGeometry planarLib sectorNE origin = Inr m"
    and k: "hd [0, 90 :: real] \<noteq> last [0, 90] \<and> \<not> maxWrapGap [0, 90] < 60
            \<longrightarrow> beamwidth m = 360 - maxWrapGap [0, 90] \<and> \<not> isOmni m"
    unfolding Let_def sectorNE_far_bearings by blast
  have "beamwidth m = 90 \<and> \<not> isOmni m" using k h b by (simp add: maxWrapGap_0_90)
  then show ?thesis using g np sectorNE_centroid d v w h b m by blast
qed

lemma northRay_bearings: "sortedBearings planarLib northRay origin = [0, 0]"
  by (simp add: sortedBearings_def outerCoords_def planarLib_def northRay_def origin_def
        planarCoordAll_def planarDistance_def planarBearing_def normalizeAngle_id)

lemma findMaxGap_0_0: "findMaxGap [0, 0] = (0, 0, 0)"
  by (simp add: findMaxGap_def gapStep_def gapAt_def upt_rec)

text \<open>
  The claim as stated takes the last gap through 360 also between equal bearings. The
  two vertices of the line to the north lie at the same bearing 0: the maximal gap so
  taken is 360, not below 60, and the claim gives the wedge from 0 to 0 of beamwidth
  \<open>360 - 360\<close>. The loop of the program finds no positive gap there and the result is
  omnidirectional, of beamwidth 360.
\<close>

theorem coincident_bearings_counterexample:
  "geometry northRay
     = Some (LineString [Position 0 0 [], Position 0 (1/100) [], Position 0 (2/100) []])
   \<and> centroid planarLib (geometry northRay) = Some (Position 0 (1/100) [])
   \<and> \<not> turfDistance planarLib Meters origin (Position 0 (1/100) []) < 2
   \<and> coordAll planarLib (geometry northRay)
       = [Position 0 0 [], Position 0 (1/100) [], Position 0 (2/100) []]
   \<and> \<not> 2 < turfDistance planarLib Meters (Position 0 0 []) origin
   \<and> 2 < turfDistance planarLib Meters (Position 0 (1/100) []) origin
   \<and> 2 < turfDistance planarLib Meters (Position 0 (2/100) []) origin
   \<and> normalizeAngle (turfBearing planarLib origin (Position 0 (1/100) [])) = 0
   \<and> normalizeAngle (turfBearing planarLib origin (Position 0 (2/100) [])) = 0
   \<and> wrapGaps [0, 0] = [0, 360]
   \<and> maxWrapGap [0, 0] = 360
   \<and> analyzeSectorGeometry planarLib northRay origin =
       Inr \<lparr>azimuth = Num 0, beamwidth = 360, isOmni = True,
            startAngle = Num 0, endAngle = Num 360\<rparr>"
proof -
  have g: "geometry northRay
     = Some (LineString [Position 0 0 [], Position 0 (1/100) [], Position 0 (2/100) []])"
    by (simp add: northRay_def)
  have c: "centroid planarLib (geometry northRay) = Some (Position 0 (1/100) [])"
    by (simp add: planarLib_def planarCentroid_def planarCoordAll_def northRay_def)
  have d: "\<not> turfDistance planarLib Meters origin (Position 0 (1/100) []) < 2"
    by (simp add: planarLib_def planarDistance_def origin_def)
  have v: "coordAll planarLib (geometry northRay)
       = [Position 0 0 [], Position 0 (1/100) [], Position 0 (2/100) []]"
    by (simp add: planarLib_def planarCoordAll_def northRay_def)
  have f: "\<not> 2 < turfDistance planarLib Meters (Position 0 0 []) origin"
    "2 < turfDistance planarLib Meters (Position 0 (1/100) []) origin"
    "2 < turfDistance planarLib Meters (Position 0 (2/100) []) origin"
    by (simp_all add: planarLib_def planarDistance_def origin_def)
  have b: "normalizeAngle (turfBearing planarLib origin (Position 0 (1/100) [])) = 0"
    "normalizeAngle (turfBearing planarLib origin (Position 0 (2/100) [])) = 0"
    by (simp_all add: planarLib_def planarBearing_def origin_def normalizeAngle_id)
  have w: "wrapGaps [0, 0] = [0, 360]" "maxWrapGap [0, 0] = 360"
    by (simp_all add: maxWrapGap_def wrapGaps_def)
  have o: "outerCoords planarLib northRay origin \<noteq> []"
    by (simp add: outerCoords_def planarLib_def northRay_def origin_def
          planarCoordAll_def planarDistance_def)
  have e: "getExplicitAzimuth planarLib (properties northRay) = None"
    by (simp add: getExplicitAzimuth_def northRay_def)
  have r: "analyzeSectorGeometry planarLib northRay origin =
       Inr \<lparr>azimuth = Num 0, beamwidth = 360, isOmni = True,
            startAngle = Num 0, endAngle = Num 360\<rparr>"
    unfolding analyzeSectorGeometry_def Let_def e c northRay_bearings findMaxGap_0_0
    using d o by (simp add: g isPoint_def omniMetrics_def)
  show ?thesis by (intro conjI g c d v f b w r)
qed

section \<open>Sector candidate scoring\<close>

lemma calculateDeviation_range:
  "0 \<le> a \<Longrightarrow> a < 360 \<Longrightarrow> 0 \<le> b \<Longrightarrow> b < 360 \<Longrightarrow>
   0 \<le> calculateDeviation a b \<and> calculateDeviation a b \<le> 180"
  by (auto simp: calculateDeviation_def Let_def abs_if)

text \<open>
  With the bearing to the query point normalized, as \<open>performSpatialAnalysis\<close> passes it,
  the deviation of a candidate lies in \<open>[0,180]\<close>, unless its azimuth is \<open>NaN\<close>.
\<close>

lemma evaluateCandidate_deviation_range:
  assumes b: "0 \<le> b" "b < 360"
    and e: "evaluateCandidate L tp rp b nf f = Inr ev"
  shows "ev_deviation ev = NaN \<or> (\<exists>d. ev_deviation ev = Num d \<and> 0 \<le> d \<and> d \<le> 180)"
proof -
  from e obtain m where m: "analyzeSectorGeometry L f rp = Inr m"
    by (auto simp: evaluateCandidate_def split: sum.splits)
  from sector_metrics_ranges [OF m] have az: "angleOrNaN (azimuth m)" by simp
  have d: "ev_deviation ev = (if isOmni m \<or> nf then Num 0 else calculateDeviationJs (azimuth m) b)"
    using e m by (auto simp: evaluateCandidate_def Let_def)
  show ?thesis
  proof (cases "azimuth m")
    case (Num a)
    then have "0 \<le> a" "a < 360" using az by (simp_all add: angleOrNaN_def)
    from calculateDeviation_range [OF this b] show ?thesis
      using d Num by (simp add: calculateDeviationJs_def)
  next
    case NaN
    then show ?thesis using d by (simp add: calculateDeviationJs_def)
  qed (use az in \<open>simp_all add: angleOrNaN_def\<close>)
qed

lemma evaluateCandidate_score:
  assumes e: "evaluateCandidate L tp rp b nf f = Inr ev" and d: "ev_deviation ev = Num d"
  shows "ev_score ev =
           Num (d
                - (if ev_isInside ev then 10000 else if nf then 5000
                   else if ev_isInBeam ev then 2000 else 0)
                - (if getExplicitAzimuth L (properties f) \<noteq> None then 10 else 0))"
proof -
  from e obtain m where m: "analyzeSectorGeometry L f rp = Inr m"
    by (auto simp: evaluateCandidate_def split: sum.splits)
  let ?dev = "if isOmni m \<or> nf then Num 0 else calculateDeviationJs (azimuth m) b"
  have dv: "?dev = Num d"
    using e m d by (auto simp: evaluateCandidate_def Let_def)
  show ?thesis
    using e unfolding evaluateCandidate_def m Let_def sum.case dv
    by (cases "containment L tp f"; cases nf; cases "isOmni m";
        cases "getExplicitAzimuth L (properties f)";
        cases "d \<le> beamwidth m / 2") (auto simp: jsPlus_def jsLe_def)
qed

lemma bestMatch_least:
  assumes x: "x \<in> set evs" and fin: "\<forall>e \<in> set evs. isNum (ev_score e)"
    and b: "bestMatchOf L evs = Some y"
  shows "scoreValue y \<le> scoreValue x"
proof -
  let ?s = "sort_key scoreValue evs"
  from b fin obtain ys where s: "?s = y # ys"
    by (cases ?s) (simp_all add: bestMatchOf_def)
  have xs: "x \<in> set ?s" using x by simp
  have "sorted (map scoreValue ?s)" by simp
  then have "\<forall>z \<in> set ys. scoreValue y \<le> scoreValue z" unfolding s by simp
  then show ?thesis using xs unfolding s by auto
qed

text \<open>
  Claim C1. For two member features evaluated for the same site and query point, with
  deviations in \<open>[0,180]\<close>: if the first is inside and the second is not inside but in
  beam, the score of the first is strictly lower, with or without explicit azimuth
  attributes; so the second is never the best match of a list of candidates with
  finite scores that contains the first.
\<close>

theorem inside_outranks_inBeam:
  assumes A: "evaluateCandidate L tp rp b nf fA = Inr A"
    and B: "evaluateCandidate L tp rp b nf fB = Inr B"
    and dA: "ev_deviation A = Num dA" "0 \<le> dA" "dA \<le> 180"
    and dB: "ev_deviation B = Num dB" "0 \<le> dB" "dB \<le> 180"
    and inside: "ev_isInside A" and outside: "\<not> ev_isInside B" and beam: "ev_isInBeam B"
  shows "\<exists>sA sB. ev_score A = Num sA \<and> ev_score B = Num sB \<and> sA < sB
           \<and> (\<forall>evs. A \<in> set evs \<and> (\<forall>e \<in> set evs. isNum (ev_score e))
                  \<longrightarrow> bestMatchOf L evs \<noteq> Some B)"
proof -
  let ?sA = "dA - 10000 - (if getExplicitAzimuth L (properties fA) \<noteq> None then 10 else 0)"
  let ?sB = "dB - (if nf then 5000 else 2000)
                - (if getExplicitAzimuth L (properties fB) \<noteq> None then 10 else 0)"
  have sA: "ev_score A = Num ?sA"
    using evaluateCandidate_score [OF A dA(1)] inside by simp
  have sB: "ev_score B = Num ?sB"
    using evaluateCandidate_score [OF B dB(1)] outside beam by simp
  have a: "?sA \<le> 180 - 10000" using dA by simp
  have b: "- 5000 - 10 \<le> ?sB" using dB by simp
  have lt: "?sA < ?sB" using a b by linarith
  have vA: "scoreValue A = ?sA" and vB: "scoreValue B = ?sB"
    using sA sB by (simp_all add: scoreValue_def)
  have "\<forall>evs. A \<in> set evs \<and> (\<forall>e \<in> set evs. isNum (ev_score e))
                  \<longrightarrow> bestMatchOf L evs \<noteq> Some B"
  proof (intro allI impI notI)
    fix evs assume h: "A \<in> set evs \<and> (\<forall>e \<in> set evs. isNum (ev_score e))"
      and "bestMatchOf L evs = Some B"
    then have "scoreValue B \<le> scoreValue A" using bestMatch_least [of A evs L B] by blast
    then show False using lt vA vB by simp
  qed
  then show ?thesis using sA sB lt by blast
qed

lemma sectorNE_inside: "containment planarLib queryNE sectorNE"
  by (simp add: containment_def sectorNE_def planarLib_def planarInside_def
        planarCoordAll_def queryNE_def)

lemma sectorNE_evaluated:
  "evaluateCandidate planarLib queryNE origin 90 False sectorNE =
     Inr \<lparr>ev_feature = sectorNE, ev_azimuth = Num 45, ev_beamwidth = 90, ev_deviation = Num 45,
          ev_isInside = True, ev_isInBeam = True, ev_score = Num (- 9955)\<rparr>"
  by (simp add: evaluateCandidate_def sectorNE_metrics sectorNE_inside sectorNE_azimuth
        calculateDeviationJs_def calculateDeviation_def jsPlus_def jsLe_def Let_def)

lemma omniCell_metrics:
  "analyzeSectorGeometry planarLib omniCell origin = Inr (omniMetrics 0)"
  by (simp add: analyzeSectorGeometry_def omniCell_def isPoint_def getExplicitAzimuth_def
        azimuthRx_center collapsedMetrics_def)

lemma omniCell_evaluated:
  "evaluateCandidate planarLib queryNE origin 90 False omniCell =
     Inr \<lparr>ev_feature = omniCell, ev_azimuth = Num 0, ev_beamwidth = 360, ev_deviation = Num 0,
          ev_isInside = False, ev_isInBeam = True, ev_score = Num (- 2000)\<rparr>"
  by (simp add: evaluateCandidate_def omniCell_metrics omniMetrics_def jsPlus_def Let_def)
     (simp add: containment_def omniCell_def getExplicitAzimuth_def azimuthRx_center)

theorem inside_outranks_inBeam_witness:
  "\<exists>A B. evaluateCandidate planarLib queryNE origin 90 False sectorNE = Inr A
        \<and> evaluateCandidate planarLib queryNE origin 90 False omniCell = Inr B
        \<and> ev_deviation A = Num 45 \<and> ev_deviation B = Num 0
        \<and> ev_isInside A \<and> \<not> ev_isInside B \<and> ev_isInBeam B
        \<and> ev_score A = Num (- 9955) \<and> ev_score B = Num (- 2000)
        \<and> bestMatchOf planarLib [B, A] \<noteq> Some B"
proof -
  let ?A = "\<lparr>ev_feature = sectorNE, ev_azimuth = Num 45, ev_beamwidth = 90, ev_deviation = Num 45,
          ev_isInside = True, ev_isInBeam = True, ev_score = Num (- 9955)\<rparr>"
  let ?B = "\<lparr>ev_feature = omniCell, ev_azimuth = Num 0, ev_beamwidth = 360, ev_deviation = Num 0,
          ev_isInside = False, ev_isInBeam = True, ev_score = Num (- 2000)\<rparr>"
  have "\<exists>sA sB. ev_score ?A = Num sA \<and> ev_score ?B = Num sB \<and> sA < sB
           \<and> (\<forall>evs. ?A \<in> set evs \<and> (\<forall>e \<in> set evs. isNum (ev_score e))
                  \<longrightarrow> bestMatchOf planarLib evs \<noteq> Some ?B)"
    by (rule inside_outranks_inBeam [OF sectorNE_evaluated omniCell_evaluated, of 45 0]) simp_all
  then have r: "\<forall>evs. ?A \<in> set evs \<and> (\<forall>e \<in> set evs. isNum (ev_score e))
                  \<longrightarrow> bestMatchOf planarLib evs \<noteq> Some ?B"
    by blast
  have "?A \<in> set [?B, ?A] \<and> (\<forall>e \<in> set [?B, ?A]. isNum (ev_score e))"
    by (simp add: isNum_def)
  with r have "bestMatchOf planarLib [?B, ?A] \<noteq> Some ?B" by blast
  then show ?thesis
    using sectorNE_evaluated omniCell_evaluated
    by (intro exI [of _ ?A] exI [of _ ?B]) simp
qed

section \<open>Site clustering\<close>


lemma pushCandidate_absent:
  "\<forall>g \<in> set gs. id_key g \<noteq> key \<Longrightarrow> pushCandidate key f gs = gs"
  by (induction gs) auto

lemma pushCandidate_map:
  "distinct (map id_key gs) \<Longrightarrow> pushCandidate key f gs = map (pushed key f) gs"
proof (induction gs)
  case Nil
  then show ?case by simp
next
  case (Cons g gs)
  show ?case
  proof (cases "id_key g = key")
    case True
    then have "\<forall>h \<in> set gs. id_key h \<noteq> key" using Cons.prems by (auto simp: image_iff)
    then have r: "map (pushed key f) gs = gs" by (induction gs) (auto simp: pushed_def)
    have h: "pushed key f g = g\<lparr>candidates := candidates g @ [f]\<rparr>"
      using True by (simp add: pushed_def)
    show ?thesis using True by (simp add: r h)
  next
    case False
    then show ?thesis using Cons by (simp add: pushed_def)
  qed
qed

lemma pushed_id [simp]: "id_key (pushed key f g) = id_key g"
  by (simp add: pushed_def)

lemma groupStep_clustered:
  assumes inv: "clustered L t seen gs" and st: "groupStep L t gs f = Inr gs'"
  shows "clustered L t (seen @ [f]) gs'"
proof -
  from st obtain c where c: "centerCoords L f = Inr c"
    by (auto simp: groupStep_def split: sum.splits)
  let ?k = "siteKey c"
  have kf: "keyOf L f = Some ?k" using c by (simp add: keyOf_def)
  have d: "distinct (map id_key gs)" using inv by (simp add: clustered_def)
  show ?thesis
  proof (cases "hasKey ?k gs")
    case True
    have gs': "gs' = map (pushed ?k f) gs"
      using st c True pushCandidate_map [OF d] by (simp add: groupStep_def Let_def)
    have d': "distinct (map id_key gs')" using d by (simp add: gs' comp_def)
    have cov: "\<forall>x \<in> set (seen @ [f]). \<exists>g \<in> set gs'. keyOf L x = Some (id_key g)"
    proof
      fix x assume "x \<in> set (seen @ [f])"
      then consider "x \<in> set seen" | "x = f" by auto
      then show "\<exists>g \<in> set gs'. keyOf L x = Some (id_key g)"
      proof cases
        case 1
        then obtain g where "g \<in> set gs" "keyOf L x = Some (id_key g)"
          using inv by (auto simp: clustered_def)
        then show ?thesis unfolding gs' by (intro bexI [of _ "pushed ?k f g"]) auto
      next
        case 2
        from True obtain g where "g \<in> set gs" "id_key g = ?k" by (auto simp: hasKey_def)
        then show ?thesis unfolding gs' 2 kf by (intro bexI [of _ "pushed ?k f g"]) auto
      qed
    qed
    have grp: "\<forall>g' \<in> set gs'.
            candidates g' = filter (\<lambda>x. keyOf L x = Some (id_key g')) (seen @ [f])
            \<and> candidates g' \<noteq> []
            \<and> centerCoords L (hd (candidates g')) = Inr (referencePoint g')
            \<and> siteKey (referencePoint g') = id_key g'
            \<and> distance g' = turfDistance L Kilometers t (referencePoint g')"
    proof
      fix g' assume "g' \<in> set gs'"
      then obtain g where g: "g \<in> set gs" "g' = pushed ?k f g" unfolding gs' by auto
      have p: "candidates g = filter (\<lambda>x. keyOf L x = Some (id_key g)) seen"
            "candidates g \<noteq> []"
            "centerCoords L (hd (candidates g)) = Inr (referencePoint g)"
            "siteKey (referencePoint g) = id_key g"
            "distance g = turfDistance L Kilometers t (referencePoint g)"
        using inv g(1) by (auto simp: clustered_def)
      show "candidates g' = filter (\<lambda>x. keyOf L x = Some (id_key g')) (seen @ [f])
            \<and> candidates g' \<noteq> []
            \<and> centerCoords L (hd (candidates g')) = Inr (referencePoint g')
            \<and> siteKey (referencePoint g') = id_key g'
            \<and> distance g' = turfDistance L Kilometers t (referencePoint g')"
        using p kf unfolding g(2) pushed_def by auto
    qed
    show ?thesis unfolding clustered_def using d' cov grp by blast
  next
    case False
    let ?new = "\<lparr>id_key = ?k, referencePoint = c,
                  distance = turfDistance L Kilometers t c, candidates = []\<rparr>"
    have no: "\<forall>g \<in> set gs. id_key g \<noteq> ?k" using False by (auto simp: hasKey_def)
    have d2: "distinct (map id_key (gs @ [?new]))" using d no by auto
    have "map (pushed ?k f) gs = gs" using no by (induction gs) (auto simp: pushed_def)
    then have gs': "gs' = gs @ [?new\<lparr>candidates := [f]\<rparr>]"
      using st c False pushCandidate_map [OF d2] by (simp add: groupStep_def Let_def pushed_def)
    have d': "distinct (map id_key gs')" using d no by (auto simp: gs')
    have nodone: "filter (\<lambda>x. keyOf L x = Some ?k) seen = []"
    proof -
      have "\<forall>x \<in> set seen. keyOf L x \<noteq> Some ?k"
      proof
        fix x assume "x \<in> set seen"
        then obtain g where "g \<in> set gs" "keyOf L x = Some (id_key g)"
          using inv by (auto simp: clustered_def)
        then show "keyOf L x \<noteq> Some ?k" using no by auto
      qed
      then show ?thesis by (simp add: filter_empty_conv)
    qed
    have cov: "\<forall>x \<in> set (seen @ [f]). \<exists>g \<in> set gs'. keyOf L x = Some (id_key g)"
      using inv kf by (auto simp: clustered_def gs')
    have grp: "\<forall>g' \<in> set gs'.
            candidates g' = filter (\<lambda>x. keyOf L x = Some (id_key g')) (seen @ [f])
            \<and> candidates g' \<noteq> []
            \<and> centerCoords L (hd (candidates g')) = Inr (referencePoint g')
            \<and> siteKey (referencePoint g') = id_key g'
            \<and> distance g' = turfDistance L Kilometers t (referencePoint g')"
    proof
      fix g' assume "g' \<in> set gs'"
      then consider "g' \<in> set gs" | "g' = ?new\<lparr>candidates := [f]\<rparr>" by (auto simp: gs')
      then show "candidates g' = filter (\<lambda>x. keyOf L x = Some (id_key g')) (seen @ [f])
            \<and> candidates g' \<noteq> []
            \<and> centerCoords L (hd (candidates g')) = Inr (referencePoint g')
            \<and> siteKey (referencePoint g') = id_key g'
            \<and> distance g' = turfDistance L Kilometers t (referencePoint g')"
      proof cases
        case 1
        then show ?thesis using inv no kf by (auto simp: clustered_def)
      next
        case 2
        then show ?thesis using nodone kf c by simp
      qed
    qed
    show ?thesis unfolding clustered_def using d' cov grp by blast
  qed
qed

lemma groupFeatures_clustered:
  "clustered L t seen gs \<Longrightarrow> groupFeatures L t gs fs = Inr gs' \<Longrightarrow>
   clustered L t (seen @ fs) gs'"
proof (induction fs arbitrary: seen gs)
  case Nil
  then show ?case by simp
next
  case (Cons f fs)
  from Cons.prems(2) obtain g1 where s: "groupStep L t gs f = Inr g1"
    and r: "groupFeatures L t g1 fs = Inr gs'"
    by (auto split: sum.splits)
  from groupStep_clustered [OF Cons.prems(1) s] have "clustered L t (seen @ [f]) g1" .
  from Cons.IH [OF this r] show ?case by simp
qed

lemma clustered_empty: "clustered L t [] []"
  by (simp add: clustered_def)

text \<open>The key holds the sign and the magnitude rounded to the nearest multiple of \<open>10^-4\<close>.\<close>

lemma toFixed4_nearest:
  "fst (toFixed4 x) = (x < 0)
   \<and> \<bar>real (snd (toFixed4 x)) - \<bar>x\<bar> * 10000\<bar> \<le> 1 / 2"
proof -
  let ?y = "\<bar>x\<bar> * 10000 + 1 / 2"
  have nn: "0 \<le> \<lfloor>?y\<rfloor>" by simp
  have r: "real (nat \<lfloor>?y\<rfloor>) = of_int \<lfloor>?y\<rfloor>" using nn by simp
  have "of_int \<lfloor>?y\<rfloor> \<le> ?y" "?y < of_int \<lfloor>?y\<rfloor> + 1" by linarith+
  then show ?thesis unfolding toFixed4_def fst_conv snd_conv r by linarith
qed

lemma centerCoords_center: "getCenter f = Some c \<Longrightarrow> centerCoords L f = Inr c"
  by (simp add: centerCoords_def)

text \<open>
  What the clustering loop returns: the keys of the groups are distinct; a feature that
  carries a precomputed anchor is a member of the group with the key of that anchor; the
  members of a group are exactly the input features with the group's key, in input order;
  the reference point of a group is the anchor of its first member, and its distance is
  the distance in kilometers from the query point to that reference point.
\<close>

lemma groupFeatures_sites:
  assumes "groupFeatures L t [] fs = Inr gs"
  shows "distinct (map id_key gs)
     \<and> (\<forall>f \<in> set fs. \<forall>c. getCenter f = Some c \<longrightarrow>
            (\<exists>g \<in> set gs. id_key g = siteKey c \<and> f \<in> set (candidates g)))
     \<and> (\<forall>g \<in> set gs.
            candidates g = filter (\<lambda>f. keyOf L f = Some (id_key g)) fs
          \<and> (\<forall>f \<in> set (candidates g). keyOf L f = Some (id_key g))
          \<and> candidates g \<noteq> []
          \<and> centerCoords L (hd (candidates g)) = Inr (referencePoint g)
          \<and> (\<forall>c. getCenter (hd (candidates g)) = Some c \<longrightarrow> referencePoint g = c)
          \<and> distance g = turfDistance L Kilometers t (referencePoint g))"
proof -
  have inv: "clustered L t fs gs"
    using groupFeatures_clustered [OF clustered_empty assms] by simp
  have d: "distinct (map id_key gs)" using inv by (simp add: clustered_def)
  have grp: "\<forall>g \<in> set gs.
            candidates g = filter (\<lambda>f. keyOf L f = Some (id_key g)) fs
          \<and> candidates g \<noteq> []
          \<and> centerCoords L (hd (candidates g)) = Inr (referencePoint g)
          \<and> distance g = turfDistance L Kilometers t (referencePoint g)"
    using inv unfolding clustered_def by blast
  have mem: "\<forall>f \<in> set fs. \<forall>c. getCenter f = Some c \<longrightarrow>
            (\<exists>g \<in> set gs. id_key g = siteKey c \<and> f \<in> set (candidates g))"
  proof (intro ballI allI impI)
    fix f c assume f: "f \<in> set fs" and c: "getCenter f = Some c"
    have k: "keyOf L f = Some (siteKey c)"
      using centerCoords_center [OF c] by (simp add: keyOf_def)
    from inv f obtain g where g: "g \<in> set gs" "keyOf L f = Some (id_key g)"
      by (auto simp: clustered_def)
    have "f \<in> set (candidates g)" using grp g f by simp
    then show "\<exists>g \<in> set gs. id_key g = siteKey c \<and> f \<in> set (candidates g)"
      using g k by auto
  qed
  have shared: "\<forall>g \<in> set gs. \<forall>f \<in> set (candidates g). keyOf L f = Some (id_key g)"
    using grp by auto
  have ref: "\<forall>g \<in> set gs. \<forall>c. getCenter (hd (candidates g)) = Some c \<longrightarrow> referencePoint g = c"
  proof (intro ballI allI impI)
    fix g c assume g: "g \<in> set gs" and c: "getCenter (hd (candidates g)) = Some c"
    have "centerCoords L (hd (candidates g)) = Inr (referencePoint g)" using grp g by blast
    then show "referencePoint g = c" using centerCoords_center [OF c, of L] by simp
  qed
  have all: "\<forall>g \<in> set gs.
            candidates g = filter (\<lambda>f. keyOf L f = Some (id_key g)) fs
          \<and> (\<forall>f \<in> set (candidates g). keyOf L f = Some (id_key g))
          \<and> candidates g \<noteq> []
          \<and> centerCoords L (hd (candidates g)) = Inr (referencePoint g)
          \<and> (\<forall>c. getCenter (hd (candidates g)) = Some c \<longrightarrow> referencePoint g = c)
          \<and> distance g = turfDistance L Kilometers t (referencePoint g)"
    using grp shared ref by blast
  show ?thesis by (intro conjI d mem all)
qed

text \<open>
  The key and the rounded number. Except for a negative number above \<open>-0.00005\<close>, whose
  key carries the sign while the number rounds to zero, two numbers have the same key
  exactly when they round to the same number.
\<close>

lemma roundedTo4_neg:
  assumes "x \<le> - 1 / 20000"
  shows "roundedTo4 x < 0"
proof -
  have "1 \<le> \<bar>x\<bar> * 10000 + 1 / 2" using assms by simp
  then have "1 \<le> \<lfloor>\<bar>x\<bar> * 10000 + 1 / 2\<rfloor>" by linarith
  then have "0 < (of_int \<lfloor>\<bar>x\<bar> * 10000 + 1 / 2\<rfloor> :: real)" by simp
  moreover have "sgn x = - 1" using assms by simp
  ultimately show ?thesis by (simp add: roundedTo4_def)
qed

lemma roundedTo4_nonneg:
  assumes "0 \<le> x"
  shows "roundedTo4 x = real (snd (toFixed4 x)) / 10000"
proof (cases "x = 0")
  case True
  then show ?thesis by (simp add: roundedTo4_def toFixed4_def)
next
  case False
  then have "sgn x = 1" using assms by simp
  moreover have "0 \<le> \<lfloor>\<bar>x\<bar> * 10000 + 1 / 2\<rfloor>" by simp
  ultimately show ?thesis by (simp add: roundedTo4_def toFixed4_def)
qed

lemma roundedTo4_negative:
  assumes "x < 0"
  shows "roundedTo4 x = - real (snd (toFixed4 x)) / 10000"
proof -
  have "sgn x = - 1" using assms by simp
  moreover have "0 \<le> \<lfloor>\<bar>x\<bar> * 10000 + 1 / 2\<rfloor>" by simp
  ultimately show ?thesis by (simp add: roundedTo4_def toFixed4_def)
qed

lemma toFixed4_rounded:
  assumes x: "\<not> (- 1 / 20000 < x \<and> x < 0)" and y: "\<not> (- 1 / 20000 < y \<and> y < 0)"
  shows "(toFixed4 x = toFixed4 y) = (roundedTo4 x = roundedTo4 y)"
proof -
  have fx: "fst (toFixed4 x) = (x < 0)" and fy: "fst (toFixed4 y) = (y < 0)"
    by (simp_all add: toFixed4_def)
  have eq: "(toFixed4 x = toFixed4 y) = ((x < 0) = (y < 0) \<and> snd (toFixed4 x) = snd (toFixed4 y))"
    using fx fy by (cases "toFixed4 x"; cases "toFixed4 y") auto
  consider "x < 0" "y < 0" | "x < 0" "0 \<le> y" | "0 \<le> x" "y < 0" | "0 \<le> x" "0 \<le> y"
    by linarith
  then show ?thesis
  proof cases
    case 1
    have "(roundedTo4 x = roundedTo4 y) = (snd (toFixed4 x) = snd (toFixed4 y))"
      unfolding roundedTo4_negative [OF 1(1)] roundedTo4_negative [OF 1(2)] by simp
    then show ?thesis unfolding eq using 1 by simp
  next
    case 2
    then have "roundedTo4 x < 0" using x roundedTo4_neg [of x] by simp
    moreover have "0 \<le> roundedTo4 y" using 2 roundedTo4_nonneg [of y] by simp
    ultimately show ?thesis unfolding eq using 2 by auto
  next
    case 3
    then have "roundedTo4 y < 0" using y roundedTo4_neg [of y] by simp
    moreover have "0 \<le> roundedTo4 x" using 3 roundedTo4_nonneg [of x] by simp
    ultimately show ?thesis unfolding eq using 3 by auto
  next
    case 4
    have n: "\<not> x < 0" "\<not> y < 0" using 4 by simp_all
    have "(roundedTo4 x = roundedTo4 y) = (snd (toFixed4 x) = snd (toFixed4 y))"
      unfolding roundedTo4_nonneg [OF 4(1)] roundedTo4_nonneg [OF 4(2)] by simp
    then show ?thesis unfolding eq using n by simp
  qed
qed

subsection \<open>Evaluation on three features\<close>

lemma siteKey_origin: "siteKey (Position 0 0 []) = ((False, 0), (False, 0))"
  by (simp add: siteKey_def toFixed4_def)

lemma siteKey_mast: "siteKey (Position (1/10) (1/10) []) = ((False, 1000), (False, 1000))"
  by (simp add: siteKey_def toFixed4_def)

lemma demo_centers:
  "getCenter sectorNE = Some (Position 0 0 [])"
  "getCenter sectorSW = Some (Position 0 0 [])"
  "getCenter omniCell = Some (Position 0 0 [])"
  "getCenter mast = Some (Position (1/10) (1/10) [])"
  by (simp_all add: getCenter_def sectorNE_def sectorSW_def omniCell_def mast_def)

lemma demo_groups:
  "groupFeatures planarLib queryNE [] [sectorNE, mast, omniCell] =
     Inr [\<lparr>id_key = ((False, 0), (False, 0)), referencePoint = Position 0 0 [],
           distance = 111 / 1000, candidates = [sectorNE, omniCell]\<rparr>,
          \<lparr>id_key = ((False, 1000), (False, 1000)), referencePoint = Position (1/10) (1/10) [],
           distance = 22089 / 1000, candidates = [mast]\<rparr>]"
  by (simp add: groupStep_def centerCoords_def demo_centers siteKey_origin siteKey_mast
        hasKey_def Let_def planarLib_def planarDistance_def queryNE_def)


lemma split_centers:
  "getCenter westCell = Some (Position (- 1/100000) 0 [])"
  "getCenter eastCell = Some (Position (1/100000) 0 [])"
  by (simp_all add: getCenter_def westCell_def eastCell_def)

text \<open>
  Claim C8, evaluated where the program departs from it. Two features carry precomputed
  anchors 2 m apart, just west and just east of the prime meridian on the equator. The
  latitudes and the longitudes of the two anchors, each rounded to 4 decimal places, are
  the same numbers, so the claim places both features in one site. The program renders
  the key with \<open>toFixed(4)\<close>, which keeps the sign of a negative number that rounds to
  zero; the two keys differ, and clustering returns two sites of one member each.
\<close>

theorem signed_zero_key_splits_site:
  "getCenter westCell = Some (Position (- 1/100000) 0 [])
   \<and> getCenter eastCell = Some (Position (1/100000) 0 [])
   \<and> roundedTo4 (lat_of (Position (- 1/100000) 0 [])) = roundedTo4 (lat_of (Position (1/100000) 0 []))
   \<and> roundedTo4 (lng_of (Position (- 1/100000) 0 [])) = roundedTo4 (lng_of (Position (1/100000) 0 []))
   \<and> siteKey (Position (- 1/100000) 0 []) \<noteq> siteKey (Position (1/100000) 0 [])
   \<and> groupFeatures planarLib origin [] [westCell, eastCell] =
       Inr [\<lparr>id_key = ((False, 0), (True, 0)), referencePoint = Position (- 1/100000) 0 [],
             distance = 111 / 100000, candidates = [westCell]\<rparr>,
            \<lparr>id_key = ((False, 0), (False, 0)), referencePoint = Position (1/100000) 0 [],
             distance = 111 / 100000, candidates = [eastCell]\<rparr>]"
  by (simp add: split_centers roundedTo4_def groupStep_def centerCoords_def siteKey_def
        toFixed4_def hasKey_def Let_def planarLib_def planarDistance_def origin_def)

section \<open>Ranking of sites\<close>

lemma featuresToAnalyze_nonempty:
  "features \<noteq> [] \<Longrightarrow> featuresToAnalyze L la lo features \<noteq> []"
  by (simp add: featuresToAnalyze_def Let_def)

lemma featuresToAnalyze_Nil: "featuresToAnalyze L la lo [] = []"
  by (simp add: featuresToAnalyze_def prefilter_def)

lemma featuresToAnalyze_subset: "set (featuresToAnalyze L la lo features) \<subseteq> set features"
  by (auto simp: featuresToAnalyze_def prefilter_def Let_def)

lemma groupFeatures_nonempty:
  assumes "groupFeatures L t [] fs = Inr gs" "fs \<noteq> []"
  shows "gs \<noteq> []"
proof -
  have inv: "clustered L t fs gs"
    using groupFeatures_clustered [OF clustered_empty assms(1)] by simp
  from assms(2) obtain f where "f \<in> set fs" by (cases fs) auto
  then obtain g where "g \<in> set gs" using inv unfolding clustered_def by blast
  then show ?thesis by auto
qed

lemma groupFeatures_members:
  assumes "groupFeatures L t [] fs = Inr gs" "g \<in> set gs"
  shows "candidates g \<noteq> [] \<and> set (candidates g) \<subseteq> set fs"
proof -
  have inv: "clustered L t fs gs"
    using groupFeatures_clustered [OF clustered_empty assms(1)] by simp
  then have "candidates g = filter (\<lambda>f. keyOf L f = Some (id_key g)) fs \<and> candidates g \<noteq> []"
    using assms(2) unfolding clustered_def by blast
  then show ?thesis by auto
qed

text \<open>
  The clamped rank. For a rank that is an integer, or below 1, or above the number of
  sites, it is an integer from 1 to the number of sites; for every other rank (a fraction
  between 1 and the number of sites, or \<open>NaN\<close>) it is that rank itself.
\<close>

lemma safeRankOf_cases:
  assumes n: "0 < n"
  shows "(jsLess rank 1 \<longrightarrow> safeRankOf rank n = Num 1)
       \<and> (jsGreater rank (real n) \<longrightarrow> safeRankOf rank n = Num (real n))
       \<and> (\<not> jsLess rank 1 \<and> \<not> jsGreater rank (real n) \<longrightarrow> safeRankOf rank n = rank)"
proof -
  have "1 \<le> real n" using n by simp
  then show ?thesis
    by (cases rank) (auto simp: safeRankOf_def jsMin_def jsMax_def jsLess_def jsGreater_def)
qed

lemma safeRankOf_index:
  assumes n: "0 < n" and ok: "jsInteger rank \<or> jsLess rank 1 \<or> jsGreater rank (real n)"
  shows "\<exists>k. safeRankOf rank n = Num (real k) \<and> 1 \<le> k \<and> k \<le> n"
proof -
  note c = safeRankOf_cases [OF n, of rank]
  consider "jsLess rank 1" | "jsGreater rank (real n)"
    | "\<not> jsLess rank 1" "\<not> jsGreater rank (real n)" "jsInteger rank"
    using ok by blast
  then show ?thesis
  proof cases
    case 1
    then have "safeRankOf rank n = Num (real 1)" using c by simp
    then show ?thesis using n by (intro exI [of _ 1]) simp
  next
    case 2
    then have "safeRankOf rank n = Num (real n)" using c by simp
    then show ?thesis using n by (intro exI [of _ n]) simp
  next
    case 3
    from 3(3) obtain r where r: "rank = Num r" "of_int \<lfloor>r\<rfloor> = r"
      by (cases rank) (simp_all add: jsInteger_def del: of_int_floor_cancel)
    have lo: "1 \<le> r" and hi: "r \<le> real n"
      using 3(1,2) r(1) by (simp_all add: jsLess_def jsGreater_def)
    have f1: "1 \<le> \<lfloor>r\<rfloor>" using lo by linarith
    then have "real (nat \<lfloor>r\<rfloor>) = of_int \<lfloor>r\<rfloor>" by simp
    then have k: "real (nat \<lfloor>r\<rfloor>) = r" "1 \<le> nat \<lfloor>r\<rfloor>" using r(2) f1 by linarith+
    have "nat \<lfloor>r\<rfloor> \<le> n" using hi k(1) by linarith
    moreover have "safeRankOf rank n = Num (real (nat \<lfloor>r\<rfloor>))" using c 3(1,2) r(1) k(1) by simp
    ultimately show ?thesis using k(2) by blast
  qed
qed

lemma selectSite_index:
  assumes "safeRankOf rank (length sites) = Num (real k)" "1 \<le> k" "k \<le> length sites"
  shows "selectSite sites rank = Inr (sites ! (k - 1))"
proof -
  have a: "real k - 1 = real (k - 1)" using assms(2) by simp
  have b: "real (k - 1) < real (length sites)" using assms(2,3) by simp
  show ?thesis
    unfolding selectSite_def Let_def assms(1) jsnum.case a using b by simp
qed

text \<open>
  With at least one site, the selection fails exactly for the ranks that are neither an
  integer, nor below 1, nor above the number of sites.
\<close>

lemma selectSite_fails_iff:
  assumes ne: "sites \<noteq> []"
  shows "(selectSite sites rank = Inl NoSuitableSite)
         = (\<not> (jsInteger rank \<or> jsLess rank 1 \<or> jsGreater rank (real (length sites))))"
proof (cases "jsInteger rank \<or> jsLess rank 1 \<or> jsGreater rank (real (length sites))")
  case True
  have n: "0 < length sites" using ne by simp
  from safeRankOf_index [OF n True] obtain k
    where k: "safeRankOf rank (length sites) = Num (real k)" "1 \<le> k" "k \<le> length sites"
    by blast
  from selectSite_index [OF k] show ?thesis using True by simp
next
  case False
  have n: "0 < length sites" using ne by simp
  have same: "safeRankOf rank (length sites) = rank"
    using safeRankOf_cases [OF n, of rank] False by blast
  show ?thesis
  proof (cases rank)
    case (Num r)
    have ni: "of_int \<lfloor>r\<rfloor> \<noteq> r"
      using False Num by (simp add: jsInteger_def del: of_int_floor_cancel)
    have fl: "\<lfloor>r - 1\<rfloor> = \<lfloor>r\<rfloor> - 1" by simp
    have nj: "of_int \<lfloor>r - 1\<rfloor> \<noteq> r - 1" unfolding fl using ni by simp
    have same': "safeRankOf (Num r) (length sites) = Num r" using same Num by simp
    have "selectSite sites (Num r) = Inl NoSuitableSite"
      unfolding selectSite_def Let_def same' jsnum.case using nj by (simp only: if_False simp_thms)
    then show ?thesis using False Num by simp
  next
    case NaN
    have "selectSite sites NaN = Inl NoSuitableSite"
      using same NaN by (simp add: selectSite_def Let_def)
    then show ?thesis using False NaN by simp
  qed (use False in \<open>simp_all add: jsLess_def jsGreater_def\<close>)
qed

lemma rankSites_props:
  "sorted (map distance (rankSites gs))" "mset (rankSites gs) = mset gs"
  "set (rankSites gs) = set gs" "length (rankSites gs) = length gs"
  by (simp_all add: rankSites_def)

lemma sorted_first_least:
  assumes "sorted (map f xs)" "x \<in> set xs"
  shows "(f (xs ! 0) :: real) \<le> f x"
proof -
  from assms(2) obtain i where i: "i < length xs" "xs ! i = x" by (auto simp: in_set_conv_nth)
  have z: "0 < length xs" using i(1) by (cases xs) auto
  have "map f xs ! 0 \<le> map f xs ! i" using assms(1) i(1) by (intro sorted_nth_mono) auto
  then show ?thesis using i z by simp
qed

lemma sorted_last_greatest:
  assumes "sorted (map f xs)" "x \<in> set xs"
  shows "(f x :: real) \<le> f (xs ! (length xs - 1))"
proof -
  from assms(2) obtain i where i: "i < length xs" "xs ! i = x" by (auto simp: in_set_conv_nth)
  have "map f xs ! i \<le> map f xs ! (length xs - 1)"
    using assms(1) i(1) by (intro sorted_nth_mono) auto
  then show ?thesis using i by simp
qed

lemma analyzeSectorGeometry_error:
  "analyzeSectorGeometry L f t = Inl e \<Longrightarrow> e = TurfError"
  by (auto simp: analyzeSectorGeometry_def Let_def split: option.splits if_splits prod.splits)

lemma evaluateCandidate_error:
  "evaluateCandidate L tp rp b nf f = Inl e \<Longrightarrow> e = TurfError"
  by (auto simp: evaluateCandidate_def Let_def analyzeSectorGeometry_error split: sum.splits)

lemma evaluateAll_error:
  "evaluateAll L tp rp b nf fs = Inl e \<Longrightarrow> e = TurfError"
  by (induction fs arbitrary: e) (auto simp: evaluateCandidate_error split: sum.splits)

text \<open>The evaluation of a feature whose centroid the library computes does not fail.\<close>

lemma analyzeSectorGeometry_total:
  "centroid L (geometry f) \<noteq> None \<Longrightarrow> \<exists>m. analyzeSectorGeometry L f t = Inr m"
  by (auto simp: analyzeSectorGeometry_def Let_def split: option.splits if_splits prod.splits)

lemma evaluateCandidate_total:
  assumes "centroid L (geometry f) \<noteq> None"
  shows "\<exists>ev. evaluateCandidate L tp rp b nf f = Inr ev"
proof -
  from analyzeSectorGeometry_total [OF assms] obtain m
    where "analyzeSectorGeometry L f rp = Inr m" by blast
  then show ?thesis by (simp add: evaluateCandidate_def Let_def)
qed

lemma evaluateAll_total:
  "\<forall>f \<in> set fs. centroid L (geometry f) \<noteq> None \<Longrightarrow>
   \<exists>evs. evaluateAll L tp rp b nf fs = Inr evs \<and> length evs = length fs"
proof (induction fs)
  case Nil
  then show ?case by simp
next
  case (Cons f fs)
  then obtain evs where evs: "evaluateAll L tp rp b nf fs = Inr evs" "length evs = length fs"
    by auto
  from Cons.prems have "centroid L (geometry f) \<noteq> None" by simp
  from evaluateCandidate_total [OF this] obtain ev
    where "evaluateCandidate L tp rp b nf f = Inr ev" by blast
  then show ?case using evs by simp
qed

lemma bestMatchOf_some: "evs \<noteq> [] \<Longrightarrow> \<exists>best. bestMatchOf L evs = Some best"
proof -
  assume ne: "evs \<noteq> []"
  then have "sort_key scoreValue evs \<noteq> []" by (metis length_0_conv length_sort)
  then show ?thesis by (cases "sort_key scoreValue evs") (simp_all add: bestMatchOf_def)
qed

lemma perform_selected:
  assumes grp: "groupFeatures L (Position lo la []) [] (featuresToAnalyze L la lo features) = Inr gs"
    and sel: "selectSite (rankSites gs) rank = Inr site"
    and fne: "features \<noteq> []"
  shows "performSpatialAnalysis L la lo features rank \<noteq> Inl NoSuitableSite
         \<and> performSpatialAnalysis L la lo features rank \<noteq> Inl NoFeaturesFound
         \<and> (\<forall>res. performSpatialAnalysis L la lo features rank = Inr res \<longrightarrow>
               res_rank res = safeRankOf rank (length gs)
             \<and> totalFeatures res = length gs
             \<and> res_distance res = distance site
             \<and> nearestPoint res = (lat_of (referencePoint site), lng_of (referencePoint site)))"
  unfolding performSpatialAnalysis_def Let_def
  using fne grp sel rankSites_props(4) [of gs]
  by (auto split: sum.splits option.splits dest: evaluateAll_error)

lemma perform_succeeds:
  assumes grp: "groupFeatures L (Position lo la []) [] (featuresToAnalyze L la lo features) = Inr gs"
    and sel: "selectSite (rankSites gs) rank = Inr site"
    and mem: "site \<in> set gs"
    and fne: "features \<noteq> []"
    and lib: "\<forall>f \<in> set features. centroid L (geometry f) \<noteq> None"
  shows "\<exists>res. performSpatialAnalysis L la lo features rank = Inr res"
proof -
  let ?t = "Position lo la []"
  let ?b = "normalizeAngle (turfBearing L (referencePoint site) ?t)"
  let ?nf = "distance site * 1000 < 30"
  from groupFeatures_members [OF grp mem]
  have c: "candidates site \<noteq> []" "set (candidates site) \<subseteq> set features"
    using featuresToAnalyze_subset [of L la lo features] by auto
  then have "\<forall>f \<in> set (candidates site). centroid L (geometry f) \<noteq> None" using lib by blast
  from evaluateAll_total [OF this, of ?t "referencePoint site" ?b ?nf] obtain evs
    where evs: "evaluateAll L ?t (referencePoint site) ?b ?nf (candidates site) = Inr evs"
      "length evs = length (candidates site)"
    by blast
  then have "evs \<noteq> []" using c(1) by auto
  from bestMatchOf_some [OF this, of L] obtain best where best: "bestMatchOf L evs = Some best"
    by blast
  show ?thesis
    unfolding performSpatialAnalysis_def Let_def
    using fne grp sel evs(1) best by simp
qed

text \<open>
  Claim C6, as amended. When the features to analyze cluster into at least one site and
  the requested rank is an integer, or below 1, or above the number of sites (infinite
  ranks included): the sites are sorted by ascending distance to the query point; the
  clamped rank is an integer \<open>k\<close> from 1 to the number of sites, equal to the requested
  rank when that is in this range, and the site at position \<open>k\<close> is selected; a rank below 1
  gives \<open>k = 1\<close> and a site of least distance, a rank above the number of sites gives that
  number and a site of greatest distance; the query never fails with "No suitable site
  found.", every result reports the rank \<open>k\<close>, the number of sites and the selected
  site's distance and reference point, and the query does return a result when the
  library computes the centroid of every feature.
\<close>

theorem rank_clamping:
  assumes grp: "groupFeatures L (Position searchLng searchLat []) []
                  (featuresToAnalyze L searchLat searchLng features) = Inr gs"
    and ne: "gs \<noteq> []"
    and ok: "jsInteger rank \<or> jsLess rank 1 \<or> jsGreater rank (real (length gs))"
  shows "sorted (map distance (rankSites gs)) \<and> mset (rankSites gs) = mset gs
     \<and> performSpatialAnalysis L searchLat searchLng features rank \<noteq> Inl NoSuitableSite
     \<and> (\<exists>site k. selectSite (rankSites gs) rank = Inr site
           \<and> safeRankOf rank (length gs) = Num (real k) \<and> 1 \<le> k \<and> k \<le> length gs
           \<and> site = rankSites gs ! (k - 1)
           \<and> site \<in> set gs
           \<and> (\<not> jsLess rank 1 \<and> \<not> jsGreater rank (real (length gs)) \<longrightarrow> rank = Num (real k))
           \<and> (jsLess rank 1 \<longrightarrow> k = 1 \<and> (\<forall>g \<in> set gs. distance site \<le> distance g))
           \<and> (jsGreater rank (real (length gs)) \<longrightarrow> k = length gs
                  \<and> (\<forall>g \<in> set gs. distance g \<le> distance site))
           \<and> (\<forall>res. performSpatialAnalysis L searchLat searchLng features rank = Inr res \<longrightarrow>
                  res_rank res = Num (real k)
                \<and> totalFeatures res = length gs
                \<and> res_distance res = distance site
                \<and> nearestPoint res = (lat_of (referencePoint site), lng_of (referencePoint site)))
           \<and> ((\<forall>f \<in> set features. centroid L (geometry f) \<noteq> None) \<longrightarrow>
                (\<exists>res. performSpatialAnalysis L searchLat searchLng features rank = Inr res
                   \<and> res_rank res = Num (real k)
                   \<and> totalFeatures res = length gs
                   \<and> res_distance res = distance site
                   \<and> nearestPoint res =
                       (lat_of (referencePoint site), lng_of (referencePoint site)))))"
proof -
  let ?sites = "rankSites gs"
  let ?n = "length gs"
  let ?P = "performSpatialAnalysis L searchLat searchLng features rank"
  have n: "0 < ?n" using ne by simp
  have len: "length ?sites = ?n" by (rule rankSites_props(4))
  from safeRankOf_index [OF n ok] obtain k
    where k: "safeRankOf rank ?n = Num (real k)" "1 \<le> k" "k \<le> ?n" by blast
  let ?site = "?sites ! (k - 1)"
  have sel: "selectSite ?sites rank = Inr ?site"
    using selectSite_index [of rank ?sites k] k by (simp add: len)
  have idx: "k - 1 < length ?sites" using k(2,3) len by linarith
  have mem: "?site \<in> set gs" using nth_mem [OF idx] by (simp add: rankSites_props(3))
  have srt: "sorted (map distance ?sites)" by (rule rankSites_props(1))
  note c = safeRankOf_cases [OF n, of rank]
  have inr: "\<not> jsLess rank 1 \<and> \<not> jsGreater rank (real ?n) \<longrightarrow> rank = Num (real k)"
    using c k(1) by auto
  have low: "jsLess rank 1 \<longrightarrow> k = 1 \<and> (\<forall>g \<in> set gs. distance ?site \<le> distance g)"
  proof
    assume "jsLess rank 1"
    then have "Num (real k) = Num 1" using c k(1) by simp
    then have k1: "k = 1" by simp
    have "\<forall>g \<in> set gs. distance (?sites ! 0) \<le> distance g"
      using sorted_first_least [OF srt] by (simp add: rankSites_props(3))
    then show "k = 1 \<and> (\<forall>g \<in> set gs. distance ?site \<le> distance g)"
      using k1 by simp
  qed
  have high: "jsGreater rank (real ?n) \<longrightarrow> k = ?n \<and> (\<forall>g \<in> set gs. distance g \<le> distance ?site)"
  proof
    assume "jsGreater rank (real ?n)"
    then have "Num (real k) = Num (real ?n)" using c k(1) by simp
    then have kn: "k = ?n" by simp
    have "\<forall>g \<in> set gs. distance g \<le> distance (?sites ! (length ?sites - 1))"
      using sorted_last_greatest [OF srt] by (simp add: rankSites_props(3))
    then show "k = ?n \<and> (\<forall>g \<in> set gs. distance g \<le> distance ?site)"
      using kn len by simp
  qed
  have fne: "features \<noteq> []"
  proof
    assume "features = []"
    then have "gs = []" using grp by (simp add: featuresToAnalyze_Nil)
    then show False using ne by simp
  qed
  note pr = perform_selected [OF grp sel fne]
  have res: "\<forall>res. ?P = Inr res \<longrightarrow>
                  res_rank res = Num (real k) \<and> totalFeatures res = ?n
                \<and> res_distance res = distance ?site
                \<and> nearestPoint res = (lat_of (referencePoint ?site), lng_of (referencePoint ?site))"
    using pr k(1) by simp
  have tot: "(\<forall>f \<in> set features. centroid L (geometry f) \<noteq> None) \<longrightarrow>
                (\<exists>res. ?P = Inr res
                   \<and> res_rank res = Num (real k) \<and> totalFeatures res = ?n
                   \<and> res_distance res = distance ?site
                   \<and> nearestPoint res =
                       (lat_of (referencePoint ?site), lng_of (referencePoint ?site)))"
  proof
    assume "\<forall>f \<in> set features. centroid L (geometry f) \<noteq> None"
    from perform_succeeds [OF grp sel mem fne this] obtain r where r: "?P = Inr r" by blast
    then show "\<exists>res. ?P = Inr res
                   \<and> res_rank res = Num (real k) \<and> totalFeatures res = ?n
                   \<and> res_distance res = distance ?site
                   \<and> nearestPoint res =
                       (lat_of (referencePoint ?site), lng_of (referencePoint ?site))"
      using res by blast
  qed
  have ex: "\<exists>site k. selectSite ?sites rank = Inr site
           \<and> safeRankOf rank ?n = Num (real k) \<and> 1 \<le> k \<and> k \<le> ?n
           \<and> site = ?sites ! (k - 1)
           \<and> site \<in> set gs
           \<and> (\<not> jsLess rank 1 \<and> \<not> jsGreater rank (real ?n) \<longrightarrow> rank = Num (real k))
           \<and> (jsLess rank 1 \<longrightarrow> k = 1 \<and> (\<forall>g \<in> set gs. distance site \<le> distance g))
           \<and> (jsGreater rank (real ?n) \<longrightarrow> k = ?n
                  \<and> (\<forall>g \<in> set gs. distance g \<le> distance site))
           \<and> (\<forall>res. ?P = Inr res \<longrightarrow>
                  res_rank res = Num (real k)
                \<and> totalFeatures res = ?n
                \<and> res_distance res = distance site
                \<and> nearestPoint res = (lat_of (referencePoint site), lng_of (referencePoint site)))
           \<and> ((\<forall>f \<in> set features. centroid L (geometry f) \<noteq> None) \<longrightarrow>
                (\<exists>res. ?P = Inr res
                   \<and> res_rank res = Num (real k)
                   \<and> totalFeatures res = ?n
                   \<and> res_distance res = distance site
                   \<and> nearestPoint res =
                       (lat_of (referencePoint site), lng_of (referencePoint site))))"
    by (rule exI [of _ ?site], rule exI [of _ k])
       (intro conjI sel k refl mem inr low high res tot)
  show ?thesis
    by (intro conjI srt rankSites_props(2) pr [THEN conjunct1] ex)
qed

subsection \<open>Evaluation on the two sites\<close>

lemma demo_window:
  "inWindow 0 (1/1000) (Position 0 0 [])" "inWindow 0 (1/1000) (Position (1/10) (1/10) [])"
  by (simp_all add: inWindow_def Let_def)

lemma demo_toAnalyze:
  "featuresToAnalyze planarLib 0 (1/1000) [sectorNE, mast, omniCell] = [sectorNE, mast, omniCell]"
  by (simp add: featuresToAnalyze_def prefilter_def demo_centers demo_window Let_def)

lemma demo_grouped:
  "groupFeatures planarLib (Position (1/1000) 0 []) []
     (featuresToAnalyze planarLib 0 (1/1000) [sectorNE, mast, omniCell]) = Inr demoSites"
  using demo_groups by (simp add: demo_toAnalyze demoSites_def queryNE_def)

lemma demoSites_ne: "demoSites \<noteq> []"
  by (simp add: demoSites_def)

lemma demoSites_length: "length demoSites = 2"
  by (simp add: demoSites_def)

lemma demo_centroids:
  "\<forall>f \<in> set [sectorNE, mast, omniCell]. centroid planarLib (geometry f) \<noteq> None"
  by (simp add: planarLib_def planarCentroid_def planarCoordAll_def sectorNE_def mast_def
        omniCell_def)

lemma demo_ranked: "rankSites demoSites = demoSites"
  by (simp add: rankSites_def demoSites_def)

theorem rank_clamping_witness:
  "groupFeatures planarLib (Position (1/1000) 0 []) []
     (featuresToAnalyze planarLib 0 (1/1000) [sectorNE, mast, omniCell]) = Inr demoSites
   \<and> demoSites \<noteq> []
   \<and> jsLess (Num 0) 1
   \<and> performSpatialAnalysis planarLib 0 (1/1000) [sectorNE, mast, omniCell] (Num 0)
       \<noteq> Inl NoSuitableSite
   \<and> (\<exists>site. selectSite (rankSites demoSites) (Num 0) = Inr site
          \<and> safeRankOf (Num 0) (length demoSites) = Num 1
          \<and> (\<forall>g \<in> set demoSites. distance site \<le> distance g)
          \<and> (\<exists>res. performSpatialAnalysis planarLib 0 (1/1000) [sectorNE, mast, omniCell] (Num 0)
                       = Inr res
                \<and> res_rank res = Num 1 \<and> totalFeatures res = 2
                \<and> res_distance res = distance site))"
proof -
  have ok: "jsInteger (Num 0) \<or> jsLess (Num 0) 1 \<or> jsGreater (Num 0) (real (length demoSites))"
    by (simp add: jsLess_def)
  have l: "jsLess (Num 0) 1" by (simp add: jsLess_def)
  note r = rank_clamping [OF demo_grouped demoSites_ne ok]
  have a: "performSpatialAnalysis planarLib 0 (1/1000) [sectorNE, mast, omniCell] (Num 0)
             \<noteq> Inl NoSuitableSite"
    by (rule r [THEN conjunct2, THEN conjunct2, THEN conjunct1])
  from r [THEN conjunct2, THEN conjunct2, THEN conjunct2]
  obtain site k where s: "selectSite (rankSites demoSites) (Num 0) = Inr site"
    and k: "safeRankOf (Num 0) (length demoSites) = Num (real k)"
    and lo: "jsLess (Num 0) 1 \<longrightarrow> k = 1 \<and> (\<forall>g \<in> set demoSites. distance site \<le> distance g)"
    and t: "(\<forall>f \<in> set [sectorNE, mast, omniCell]. centroid planarLib (geometry f) \<noteq> None) \<longrightarrow>
              (\<exists>res. performSpatialAnalysis planarLib 0 (1/1000) [sectorNE, mast, omniCell] (Num 0)
                        = Inr res
                 \<and> res_rank res = Num (real k)
                 \<and> totalFeatures res = length demoSites
                 \<and> res_distance res = distance site
                 \<and> nearestPoint res =
                     (lat_of (referencePoint site), lng_of (referencePoint site)))"
    by blast
  have k1: "k = 1" and least: "\<forall>g \<in> set demoSites. distance site \<le> distance g"
    using lo l by simp_all
  from t demo_centroids obtain res
    where res: "performSpatialAnalysis planarLib 0 (1/1000) [sectorNE, mast, omniCell] (Num 0)
                  = Inr res"
      "res_rank res = Num (real k)" "totalFeatures res = length demoSites"
      "res_distance res = distance site"
    by blast
  have "\<exists>site. selectSite (rankSites demoSites) (Num 0) = Inr site
          \<and> safeRankOf (Num 0) (length demoSites) = Num 1
          \<and> (\<forall>g \<in> set demoSites. distance site \<le> distance g)
          \<and> (\<exists>res. performSpatialAnalysis planarLib 0 (1/1000) [sectorNE, mast, omniCell] (Num 0)
                       = Inr res
                \<and> res_rank res = Num 1 \<and> totalFeatures res = 2
                \<and> res_distance res = distance site)"
    using s k k1 least res demoSites_length by (intro exI [of _ site]) auto
  then show ?thesis using demo_grouped demoSites_ne a l by blast
qed

text \<open>
  Two ranks for which the query fails because of the rank: with the two sites of the
  three features, the rank 1.5 and the rank \<open>NaN\<close> are kept by the clamping, no site is
  at that position, and the query raises "No suitable site found.".
\<close>

theorem fractional_rank_counterexample:
  "groupFeatures planarLib (Position (1/1000) 0 []) []
     (featuresToAnalyze planarLib 0 (1/1000) [sectorNE, mast, omniCell]) = Inr demoSites
   \<and> length demoSites = 2
   \<and> safeRankOf (Num (3/2)) 2 = Num (3/2)
   \<and> performSpatialAnalysis planarLib 0 (1/1000) [sectorNE, mast, omniCell] (Num (3/2))
       = Inl NoSuitableSite
   \<and> performSpatialAnalysis planarLib 0 (1/1000) [sectorNE, mast, omniCell] NaN
       = Inl NoSuitableSite"
proof -
  have a: "selectSite demoSites (Num (3/2)) = Inl NoSuitableSite"
    by (simp add: selectSite_def safeRankOf_def jsMin_def jsMax_def demoSites_length Let_def
          del: of_int_floor_cancel)
  have b: "selectSite demoSites NaN = Inl NoSuitableSite"
    by (simp add: selectSite_def safeRankOf_def jsMin_def jsMax_def Let_def)
  have c: "safeRankOf (Num (3/2)) 2 = Num (3/2)"
    by (simp add: safeRankOf_def jsMin_def jsMax_def)
  have d: "performSpatialAnalysis planarLib 0 (1/1000) [sectorNE, mast, omniCell] (Num (3/2))
       = Inl NoSuitableSite"
    unfolding performSpatialAnalysis_def Let_def using demo_grouped a demo_ranked by simp
  have e: "performSpatialAnalysis planarLib 0 (1/1000) [sectorNE, mast, omniCell] NaN
       = Inl NoSuitableSite"
    unfolding performSpatialAnalysis_def Let_def using demo_grouped b demo_ranked by simp
  show ?thesis by (intro conjI demo_grouped demoSites_length c d e)
qed

section \<open>Errors of a query\<close>

text \<open>
  A query fails with "No features found" exactly for the empty collection; any other
  failure is "No suitable site found" or an exception of a library call that no \<open>try\<close>
  guards.
\<close>


lemma groupFeatures_error:
  "groupFeatures L t gs fs = Inl e \<Longrightarrow> e = TurfError"
proof (induction fs arbitrary: gs)
  case Nil
  then show ?case by simp
next
  case (Cons f fs)
  show ?case
  proof (cases "groupStep L t gs f")
    case (Inl e')
    then have "e' = TurfError"
      by (auto simp: groupStep_def centerCoords_def Let_def
               split: sum.splits option.splits list.splits)
    then show ?thesis using Cons.prems Inl by simp
  next
    case (Inr g1)
    then show ?thesis using Cons by simp
  qed
qed

lemma evaluateAll_length:
  "evaluateAll L tp rp b nf fs = Inr evs \<Longrightarrow> length evs = length fs"
  by (induction fs arbitrary: evs) (auto split: sum.splits)

lemma perform_errors:
  assumes "performSpatialAnalysis L la lo features rank = Inl e"
  shows "(e = NoFeaturesFound \<and> features = []) \<or> (e = TurfError \<and> features \<noteq> [])
         \<or> (e = NoSuitableSite \<and> features \<noteq> [])"
proof (cases "features = []")
  case True
  then show ?thesis using assms by (simp add: performSpatialAnalysis_def)
next
  case False
  let ?t = "Position lo la []"
  let ?fs = "featuresToAnalyze L la lo features"
  show ?thesis
  proof (cases "groupFeatures L ?t [] ?fs")
    case (Inl e')
    then have "e' = TurfError" by (rule groupFeatures_error)
    then show ?thesis using assms False Inl by (simp add: performSpatialAnalysis_def)
  next
    case grp: (Inr gs)
    have gne: "gs \<noteq> []"
      by (rule groupFeatures_nonempty [OF grp featuresToAnalyze_nonempty [OF False]])
    show ?thesis
    proof (cases "selectSite (rankSites gs) rank")
      case (Inl e')
      then have "e' = NoSuitableSite"
        by (auto simp: selectSite_def Let_def split: jsnum.splits if_splits)
      then show ?thesis
        using assms False grp Inl by (simp add: performSpatialAnalysis_def Let_def)
    next
      case sel: (Inr site)
      have "site \<in> set (rankSites gs)"
        using sel by (auto simp: selectSite_def Let_def split: jsnum.splits if_splits)
      then have mem: "site \<in> set gs" by (simp add: rankSites_props(3))
      from groupFeatures_members [OF grp mem] have cne: "candidates site \<noteq> []" by simp
      let ?ev = "evaluateAll L ?t (referencePoint site)
                   (normalizeAngle (turfBearing L (referencePoint site) ?t))
                   (distance site * 1000 < 30) (candidates site)"
      show ?thesis
      proof (cases ?ev)
        case (Inl e')
        then have "e' = TurfError" by (rule evaluateAll_error)
        then show ?thesis
          using assms False grp sel Inl by (simp add: performSpatialAnalysis_def Let_def)
      next
        case (Inr evs)
        from evaluateAll_length [OF Inr] cne have "evs \<noteq> []" by auto
        from bestMatchOf_some [OF this, of L] obtain best
          where "bestMatchOf L evs = Some best" by blast
        then show ?thesis
          using assms False grp sel Inr by (simp add: performSpatialAnalysis_def Let_def)
      qed
    qed
  qed
qed


lemma no_features_iff:
  "performSpatialAnalysis L la lo features rank = Inl NoFeaturesFound \<longleftrightarrow> features = []"
proof
  assume "performSpatialAnalysis L la lo features rank = Inl NoFeaturesFound"
  from perform_errors [OF this] show "features = []" by simp
next
  assume "features = []"
  then show "performSpatialAnalysis L la lo features rank = Inl NoFeaturesFound"
    by (simp add: performSpatialAnalysis_def)
qed

lemma emptyPolygon_noCentroid:
  "getCenter emptyPolygon = None" "coordAll planarLib (geometry emptyPolygon) = []"
  "centroid planarLib (geometry emptyPolygon) = None"
  by (simp_all add: getCenter_def emptyPolygon_def planarLib_def planarCoordAll_def
        planarCentroid_def)

text \<open>
  Claim C5, evaluated where the program departs from it. A collection of one polygon
  without coordinates and without \<open>_center\<close>: the centroid computation throws in the
  bounding-box filter, where it is caught and the feature excluded; the filter leaves
  nothing, so all features are clustered, and there the same centroid computation is
  not guarded: its exception leaves \<open>performSpatialAnalysis\<close>.
\<close>

theorem uncaught_centroid_failure:
  "prefilter planarLib 0 0 [emptyPolygon] = []
   \<and> performSpatialAnalysis planarLib 0 0 [emptyPolygon] (Num 1) = Inl TurfError"
  by (simp add: performSpatialAnalysis_def featuresToAnalyze_def prefilter_def
        emptyPolygon_noCentroid groupStep_def centerCoords_def Let_def)


subsection \<open>A query evaluated end to end\<close>

lemma demo_selected:
  "selectSite demoSites (Num 7) =
     Inr \<lparr>id_key = ((False, 1000), (False, 1000)), referencePoint = Position (1/10) (1/10) [],
          distance = 22089 / 1000, candidates = [mast]\<rparr>"
  by (simp add: selectSite_def safeRankOf_def jsMin_def jsMax_def demoSites_def Let_def)

lemma mast_evaluated:
  "evaluateCandidate planarLib (Position (1/1000) 0 []) (Position (1/10) (1/10) []) b False mast =
     Inr \<lparr>ev_feature = mast, ev_azimuth = Num 0, ev_beamwidth = 360, ev_deviation = Num 0,
          ev_isInside = False, ev_isInBeam = True, ev_score = Num (- 2000)\<rparr>"
  by (simp add: evaluateCandidate_def analyzeSectorGeometry_def mast_def isPoint_def
       getExplicitAzimuth_def azimuthRx_center collapsedMetrics_def omniMetrics_def
       containment_def jsPlus_def Let_def)

lemma demo_perform:
  "performSpatialAnalysis planarLib 0 (1/1000) [sectorNE, mast, omniCell] (Num 7) =
     Inr \<lparr>nearestFeature = mast, res_distance = 22089 / 1000, res_bearing = 45,
          sectorAzimuth = Num 0, sectorBeamwidth = 360, deviationAngle = Num 0,
          res_isInside = False,
          searchPoint = (0, 1/1000), nearestPoint = (1/10, 1/10), res_rank = Num 2,
          totalFeatures = 2\<rparr>"
proof -
  have b: "normalizeAngle (turfBearing planarLib (Position (1/1000) 0 []) (Position (1/10) (1/10) [])) = 45"
    by (simp add: planarLib_def planarBearing_def normalizeAngle_id)
  have n: "length demoSites = 2" "safeRankOf (Num 7) 2 = Num 2"
    by (simp_all add: demoSites_def safeRankOf_def jsMin_def jsMax_def)
  show ?thesis
    unfolding performSpatialAnalysis_def Let_def demo_grouped
    by (simp add: demo_ranked demo_selected mast_evaluated b n bestMatchOf_def isNum_def)
qed

section \<open>Tower center inference: explicit coordinates\<close>

lemma find_setProp:
  "\<not> T k \<Longrightarrow> find (\<lambda>kv. T (fst kv)) (setProp k v ps) = find (\<lambda>kv. T (fst kv)) ps"
  by (induction ps) auto

lemma idKey_tests: "\<not> latKeyTest ''_id''" "\<not> lngKeyTest ''_id''"
  by (simp_all add: latKeyTest_def lngKeyTest_def rx_full_def rx_prefix_def latRx_def
        lonHeadRx_def sitePrefix_def lower_def)

lemma getExplicitCenter_setId:
  "getExplicitCenter L (setProp ''_id'' v ps) = getExplicitCenter L ps"
  unfolding getExplicitCenter_def find_setProp [of latKeyTest, OF idKey_tests(1)]
        find_setProp [of lngKeyTest, OF idKey_tests(2)] by (rule refl)

lemma map_of_setProp: "map_of (setProp k v ps) k = Some v"
  by (induction ps) auto

lemma getCenter_set:
  "getCenter (f\<lparr>properties := setProp ''_center'' (PPos c) ps\<rparr>) = Some c"
  by (simp add: getCenter_def map_of_setProp)

lemma annotateFeature_center:
  assumes "inferCenter L coordCounts
             (f\<lparr>properties := setProp ''_id'' (PStr newId) (properties f)\<rparr>) = Inr (Some c)"
  shows "\<exists>f'. annotateFeature L coordCounts newId f = Inr f' \<and> getCenter f' = Some c
              \<and> geometry f' = geometry f"
  using assms by (simp add: annotateFeature_def Let_def getCenter_set)

lemma getExplicitCenter_found:
  assumes "find (\<lambda>kv. latKeyTest (fst kv)) props = Some (latKey, latV)"
    and "find (\<lambda>kv. lngKeyTest (fst kv)) props = Some (lngKey, lngV)"
    and "parseFloat L latV = Num la" "parseFloat L lngV = Num lo"
    and "\<bar>la\<bar> \<le> 90" "\<bar>lo\<bar> \<le> 180"
  shows "getExplicitCenter L props = Some (Position lo la [])"
  using assms by (simp add: getExplicitCenter_def jsAbsLe_def)

lemma getExplicitCenter_needs_lat:
  assumes "\<forall>kv \<in> set props. \<not> rx_full latRx (fst kv)"
  shows "getExplicitCenter L props = None"
proof -
  have "find (\<lambda>kv. latKeyTest (fst kv)) props = None"
    using assms by (auto simp: find_None_iff latKeyTest_def)
  then show ?thesis by (simp add: getExplicitCenter_def)
qed

lemma getExplicitCenter_needs_lng:
  assumes "\<forall>kv \<in> set props. \<not> lngKeyTest (fst kv)"
  shows "getExplicitCenter L props = None"
proof -
  have "find (\<lambda>kv. lngKeyTest (fst kv)) props = None"
    using assms by (auto simp: find_None_iff)
  then show ?thesis by (simp add: getExplicitCenter_def split: option.splits)
qed

text \<open>
  The longitude test of the program accepts the longitude keys and the keys that match
  in part only.
\<close>

lemma rx_full_suffix: "rx_full r k \<Longrightarrow> rx_suffix r k"
  by (cases k) auto

lemma lonWhole_accepted: "rx_full lonWholeRx k \<Longrightarrow> lngKeyTest k"
proof -
  assume "rx_full lonWholeRx k"
  then have "rx_full lonHeadRx k \<or> rx_full (Lit ''lng'') k"
    by (auto simp: rx_full_def lonWholeRx_def)
  then show ?thesis
  proof
    assume "rx_full lonHeadRx k"
    then have "rx_prefix lonHeadRx k" by (auto simp: rx_full_def rx_prefix_def)
    then show ?thesis by (simp add: lngKeyTest_def)
  next
    assume "rx_full (Lit ''lng'') k"
    then show ?thesis using rx_full_suffix by (simp add: lngKeyTest_def)
  qed
qed

lemma lngKeyTest_parts: "lngKeyTest k = (rx_full lonWholeRx k \<or> partialLonKey k)"
  using lonWhole_accepted [of k] by (auto simp: partialLonKey_def lngKeyTest_def)

lemma find_same:
  "\<forall>x \<in> set xs. P x = Q x \<Longrightarrow> find P xs = find Q xs"
  by (induction xs) auto

lemma find_lng_whole:
  assumes "\<forall>kv \<in> set props. \<not> partialLonKey (fst kv)"
  shows "find (\<lambda>kv. lngKeyTest (fst kv)) props = find (\<lambda>kv. rx_full lonWholeRx (fst kv)) props"
  by (rule find_same) (use assms in \<open>simp add: lngKeyTest_parts\<close>)

text \<open>
  Claim C3, as amended. For a feature none of whose keys matches the longitude pattern
  in part only: if the first key (in key order) whose entire name matches
  \<open>(site_?)?lat(itude)?\<close> and the first key whose entire name matches
  \<open>(site_?)?lon(gitude)?|lng\<close> have values that parse to numbers with \<open>|lat| \<le> 90\<close> and
  \<open>|lng| \<le> 180\<close>, the anchor of the feature is \<open>[lng, lat]\<close> of those two values, whatever
  its geometry and whatever the coordinate index holds; and a feature without a key that
  matches the first pattern entirely, or without a key that matches the second pattern
  entirely, never takes this branch. All matching ignores case.
\<close>

theorem explicit_center_authoritative:
  assumes whole: "\<forall>kv \<in> set (properties f). \<not> partialLonKey (fst kv)"
  shows "(find (\<lambda>kv. rx_full latRx (fst kv)) (properties f) = Some (latKey, latV)
      \<and> find (\<lambda>kv. rx_full lonWholeRx (fst kv)) (properties f) = Some (lngKey, lngV)
      \<and> parseFloat L latV = Num la \<and> parseFloat L lngV = Num lo
      \<and> \<bar>la\<bar> \<le> 90 \<and> \<bar>lo\<bar> \<le> 180
    \<longrightarrow> (\<exists>f'. annotateFeature L coordCounts newId f = Inr f'
              \<and> getCenter f' = Some (Position lo la []) \<and> geometry f' = geometry f))
   \<and> ((\<forall>kv \<in> set (properties f). \<not> rx_full latRx (fst kv))
        \<or> (\<forall>kv \<in> set (properties f). \<not> rx_full lonWholeRx (fst kv))
        \<longrightarrow> getExplicitCenter L (setProp ''_id'' (PStr newId) (properties f)) = None)"
proof (intro conjI impI)
  assume a: "find (\<lambda>kv. rx_full latRx (fst kv)) (properties f) = Some (latKey, latV)
      \<and> find (\<lambda>kv. rx_full lonWholeRx (fst kv)) (properties f) = Some (lngKey, lngV)
      \<and> parseFloat L latV = Num la \<and> parseFloat L lngV = Num lo
      \<and> \<bar>la\<bar> \<le> 90 \<and> \<bar>lo\<bar> \<le> 180"
  have lat: "find (\<lambda>kv. latKeyTest (fst kv)) (properties f) = Some (latKey, latV)"
    using a by (simp add: latKeyTest_def)
  have lng: "find (\<lambda>kv. lngKeyTest (fst kv)) (properties f) = Some (lngKey, lngV)"
    using a find_lng_whole [OF whole] by simp
  have "getExplicitCenter L (properties f) = Some (Position lo la [])"
    by (rule getExplicitCenter_found [OF lat lng]) (use a in simp_all)
  then have "inferCenter L coordCounts
               (f\<lparr>properties := setProp ''_id'' (PStr newId) (properties f)\<rparr>)
             = Inr (Some (Position lo la []))"
    by (simp add: inferCenter_def getExplicitCenter_setId)
  then show "\<exists>f'. annotateFeature L coordCounts newId f = Inr f'
              \<and> getCenter f' = Some (Position lo la []) \<and> geometry f' = geometry f"
    by (rule annotateFeature_center)
next
  assume "(\<forall>kv \<in> set (properties f). \<not> rx_full latRx (fst kv))
        \<or> (\<forall>kv \<in> set (properties f). \<not> rx_full lonWholeRx (fst kv))"
  then have "getExplicitCenter L (properties f) = None"
  proof
    assume "\<forall>kv \<in> set (properties f). \<not> rx_full latRx (fst kv)"
    then show ?thesis by (rule getExplicitCenter_needs_lat)
  next
    assume "\<forall>kv \<in> set (properties f). \<not> rx_full lonWholeRx (fst kv)"
    then have "\<forall>kv \<in> set (properties f). \<not> lngKeyTest (fst kv)"
      using whole by (simp add: lngKeyTest_parts)
    then show ?thesis by (rule getExplicitCenter_needs_lng)
  qed
  then show "getExplicitCenter L (setProp ''_id'' (PStr newId) (properties f)) = None"
    by (simp add: getExplicitCenter_setId)
qed

subsection \<open>Evaluation on features with coordinate attributes\<close>

lemmas key_defs = latKeyTest_def lngKeyTest_def partialLonKey_def rx_full_def rx_prefix_def
  latRx_def lonHeadRx_def lonWholeRx_def claimLatRx_def claimLonRx_def sitePrefix_def lower_def

lemma latLonCell_keys:
  "find (\<lambda>kv. rx_full latRx (fst kv)) (properties latLonCell) = Some (''Latitude'', PNum 10)"
  "find (\<lambda>kv. rx_full lonWholeRx (fst kv)) (properties latLonCell) = Some (''LON'', PNum 20)"
  by (simp_all add: latLonCell_def key_defs)

lemma latLonCell_whole: "\<forall>kv \<in> set (properties latLonCell). \<not> partialLonKey (fst kv)"
  by (simp add: latLonCell_def key_defs)

lemma planar_parse: "parseFloat planarLib (PNum r) = Num r"
  by (simp add: planarLib_def numberOnly_def)

lemma sectorNE_whole: "\<forall>kv \<in> set (properties sectorNE). \<not> partialLonKey (fst kv)"
  by (simp add: sectorNE_def key_defs)

lemma sectorNE_noLat: "\<forall>kv \<in> set (properties sectorNE). \<not> rx_full latRx (fst kv)"
  by (simp add: sectorNE_def key_defs)

theorem explicit_center_authoritative_witness:
  "properties latLonCell = [(''name'', PStr ''A''), (''Latitude'', PNum 10), (''LON'', PNum 20)]
   \<and> \<not> partialLonKey ''name'' \<and> \<not> partialLonKey ''Latitude'' \<and> \<not> partialLonKey ''LON''
   \<and> find (\<lambda>kv. rx_full latRx (fst kv)) (properties latLonCell) = Some (''Latitude'', PNum 10)
   \<and> find (\<lambda>kv. rx_full lonWholeRx (fst kv)) (properties latLonCell) = Some (''LON'', PNum 20)
   \<and> parseFloat planarLib (PNum 10) = Num 10 \<and> parseFloat planarLib (PNum 20) = Num 20
   \<and> \<bar>10 :: real\<bar> \<le> 90 \<and> \<bar>20 :: real\<bar> \<le> 180
   \<and> (\<exists>f'. annotateFeature planarLib Map.empty ''feat_0'' latLonCell = Inr f'
           \<and> getCenter f' = Some (Position 20 10 []))
   \<and> properties sectorNE = [(''name'', PStr ''NE''), (''_center'', PPos (Position 0 0 []))]
   \<and> \<not> partialLonKey ''_center''
   \<and> \<not> rx_full latRx ''name'' \<and> \<not> rx_full latRx ''_center''
   \<and> getExplicitCenter planarLib (setProp ''_id'' (PStr ''feat_0'') (properties sectorNE)) = None"
proof -
  have h: "find (\<lambda>kv. rx_full latRx (fst kv)) (properties latLonCell) = Some (''Latitude'', PNum 10)
      \<and> find (\<lambda>kv. rx_full lonWholeRx (fst kv)) (properties latLonCell) = Some (''LON'', PNum 20)
      \<and> parseFloat planarLib (PNum 10) = Num 10 \<and> parseFloat planarLib (PNum 20) = Num 20
      \<and> \<bar>10 :: real\<bar> \<le> 90 \<and> \<bar>20 :: real\<bar> \<le> 180"
    by (simp add: latLonCell_keys planar_parse)
  note t1 = explicit_center_authoritative [OF latLonCell_whole,
      of "''Latitude''" "PNum 10" "''LON''" "PNum 20" planarLib 10 20 Map.empty "''feat_0''"]
  note t2 = explicit_center_authoritative [OF sectorNE_whole,
      of "''Latitude''" "PNum 10" "''LON''" "PNum 20" planarLib 10 20 Map.empty "''feat_0''"]
  have a: "\<exists>f'. annotateFeature planarLib Map.empty ''feat_0'' latLonCell = Inr f'
           \<and> getCenter f' = Some (Position 20 10 [])"
    using t1 [THEN conjunct1, THEN mp, OF h] by blast
  have b: "getExplicitCenter planarLib (setProp ''_id'' (PStr ''feat_0'') (properties sectorNE)) = None"
    by (rule t2 [THEN conjunct2, THEN mp, OF disjI1, OF sectorNE_noLat])
  have p: "properties sectorNE = [(''name'', PStr ''NE''), (''_center'', PPos (Position 0 0 []))]"
    by (simp add: sectorNE_def)
  have q: "properties latLonCell
             = [(''name'', PStr ''A''), (''Latitude'', PNum 10), (''LON'', PNum 20)]"
    by (simp add: latLonCell_def)
  have w: "\<not> partialLonKey ''name'' \<and> \<not> partialLonKey ''Latitude'' \<and> \<not> partialLonKey ''LON''"
    using latLonCell_whole by (simp add: q)
  have n: "\<not> partialLonKey ''_center'' \<and> \<not> rx_full latRx ''name'' \<and> \<not> rx_full latRx ''_center''"
    using sectorNE_noLat sectorNE_whole by (simp add: p)
  show ?thesis using h a b p q w n by blast
qed

text \<open>
  The claim as stated names the patterns \<open>(site_)?lat(itude)?\<close> and
  \<open>(site_)?lon(gitude)?|lng\<close>, says that keys not matching them never trigger the branch,
  and asks for a key of each pattern with valid values, wherever it stands. The program
  makes the underscore optional: the key \<open>sitelat\<close> does not match the first pattern of
  the claim, and with it the anchor is taken from the attributes. And the program reads
  the first key of each pattern only: with the keys \<open>lat\<close>, \<open>latitude\<close> and \<open>lon\<close>, of which
  \<open>latitude\<close> and \<open>lon\<close> match the patterns of the claim and hold the valid values 10 and 20,
  the value of \<open>lat\<close> is no number, the branch is not taken, and the anchor of the point is
  its own coordinate.
\<close>

theorem explicit_center_pattern_counterexample:
  "\<not> rx_full claimLatRx ''sitelat'' \<and> \<not> rx_full claimLatRx ''lon''
   \<and> annotateFeature planarLib Map.empty ''feat_0'' siteLatCell =
       Inr \<lparr>geometry = Some (Point (Position 5 5 [])),
            properties = [(''sitelat'', PNum 10), (''lon'', PNum 20), (''_id'', PStr ''feat_0''),
                          (''_center'', PPos (Position 20 10 []))]\<rparr>
   \<and> rx_full claimLatRx ''latitude'' \<and> rx_full claimLonRx ''lon''
   \<and> parseFloat planarLib (PNum 10) = Num 10 \<and> parseFloat planarLib (PNum 20) = Num 20
   \<and> getExplicitCenter planarLib (properties firstLatCell) = None
   \<and> annotateFeature planarLib Map.empty ''feat_0'' firstLatCell =
       Inr \<lparr>geometry = Some (Point (Position 5 5 [])),
            properties = [(''lat'', PStr ''n/a''), (''latitude'', PNum 10), (''lon'', PNum 20),
                          (''_id'', PStr ''feat_0''), (''_center'', PPos (Position 5 5 []))]\<rparr>"
  by (simp add: annotateFeature_def inferCenter_def getExplicitCenter_def siteLatCell_def
        firstLatCell_def planarLib_def numberOnly_def planarCoordAll_def jsAbsLe_def
        key_defs Let_def)

text \<open>
  The keys that match the longitude pattern in part only. The pattern of the program,
  \<open>/^(site_?)?lon(gitude)?|lng$/i\<close>, is anchored at the start in its first alternative and
  at the end in its second, unlike the pattern for the latitude; it accepts \<open>long_name\<close>
  and \<open>xlng\<close>. With the keys \<open>long_name\<close>, \<open>lat\<close> and \<open>lon\<close> the longitude of the anchor is
  the value of \<open>long_name\<close>.
\<close>

lemma lngKeyTest_partial_keys:
  "lngKeyTest ''long_name'' \<and> partialLonKey ''long_name''
   \<and> lngKeyTest ''bearing'' = False \<and> lngKeyTest ''xlng'' \<and> partialLonKey ''xlng''"
  by (simp add: key_defs)

lemma partial_longitude_key_anchor:
  "getExplicitCenter planarLib (properties longNameCell) = Some (Position 5 10 [])"
  by (simp add: getExplicitCenter_def longNameCell_def planarLib_def numberOnly_def
        jsAbsLe_def key_defs Let_def)

section \<open>Tower center inference: regular polygons and sector tips\<close>


lemma foldl_plus: "foldl (\<lambda>a b. a + g b) s xs = (s :: real) + sum_list (map g xs)"
  by (induction xs arbitrary: s) auto

lemma analyzedRing_length:
  assumes "3 \<le> length ring"
  shows "ringClosed ring =
           (lng_of (ring ! 0) = lng_of (ring ! (length ring - 1))
            \<and> lat_of (ring ! 0) = lat_of (ring ! (length ring - 1)))"
    and "length (analyzedRing ring) = (if ringClosed ring then length ring - 1 else length ring)"
proof -
  have ne: "ring \<noteq> []" using assms by auto
  show "ringClosed ring =
           (lng_of (ring ! 0) = lng_of (ring ! (length ring - 1))
            \<and> lat_of (ring ! 0) = lat_of (ring ! (length ring - 1)))"
    using ne by (simp add: ringClosed_def hd_conv_nth last_conv_nth)
  show "length (analyzedRing ring) = (if ringClosed ring then length ring - 1 else length ring)"
    by (simp add: analyzedRing_def)
qed

lemma analyzedRing_nth:
  "i < length (analyzedRing ring) \<Longrightarrow> analyzedRing ring ! i = ring ! i"
  by (auto simp: analyzedRing_def nth_butlast split: if_splits)

lemma ringAngles_turning:
  "ringAngles L ring (length (analyzedRing ring)) = turningAngles L (analyzedRing ring)"
proof -
  let ?vs = "analyzedRing ring"
  let ?n = "length ?vs"
  have "\<forall>j \<in> set [0..<?n].
          calculateAngle L (ring ! j) (ring ! ((j + ?n - 1) mod ?n)) (ring ! ((j + 1) mod ?n))
          = turningAngle L ?vs j"
  proof
    fix j assume "j \<in> set [0..<?n]"
    then have j: "j < ?n" by simp
    then have "0 < ?n" by linarith
    then have p: "(j + ?n - 1) mod ?n < ?n" "(j + 1) mod ?n < ?n"
      by (rule mod_less_divisor)+
    show "calculateAngle L (ring ! j) (ring ! ((j + ?n - 1) mod ?n)) (ring ! ((j + 1) mod ?n))
          = turningAngle L ?vs j"
      using analyzedRing_nth [OF j] analyzedRing_nth [OF p(1)] analyzedRing_nth [OF p(2)]
      by (simp add: calculateAngle_def turningAngle_def calculateDeviation_def Let_def)
  qed
  then show ?thesis by (simp add: ringAngles_def turningAngles_def)
qed

lemma ringCenter_cases:
  assumes "3 \<le> length ring"
  shows "ringCenter L coordCounts f ring =
           (let vs = analyzedRing ring; angles = turningAngles L vs;
                tip = Some (sectorTip coordCounts ring angles (length vs))
            in if length vs > 3 \<and> mean angles > 90 \<and> populationStdDev angles < 15
               then (case centroid L (geometry f) of Some center \<Rightarrow> Some center | None \<Rightarrow> tip)
               else tip)"
proof -
  have l: "\<not> length ring < 3" using assms by simp
  note a = analyzedRing_length [OF assms]
  have al: "(if lng_of (ring ! 0) = lng_of (ring ! (length ring - 1))
                \<and> lat_of (ring ! 0) = lat_of (ring ! (length ring - 1))
             then length ring - 1 else length ring) = length (analyzedRing ring)"
    using a by simp
  have m: "foldl (\<lambda>a b. a + b) 0 xs / real (length xs) = mean xs" for xs
    using foldl_plus [of "\<lambda>b. b" 0 xs] by (simp add: mean_def)
  have s: "sqrt (foldl (\<lambda>a b. a + (b - mean xs)\<^sup>2) 0 xs / real (length xs)) = populationStdDev xs"
    for xs
    using foldl_plus [of "\<lambda>b. (b - mean xs)\<^sup>2" 0 xs] by (simp add: populationStdDev_def)
  show ?thesis
    unfolding ringCenter_def Let_def al ringAngles_turning m s
    using l by simp
qed

lemma inferCenter_ring:
  assumes "getExplicitCenter L (properties f) = None" "representativeRing f = Some ring"
  shows "inferCenter L coordCounts f = Inr (ringCenter L coordCounts f ring)"
  using assms
  by (auto simp: inferCenter_def representativeRing_def
           split: option.splits geometry.splits list.splits)

lemma representativeRing_setProp:
  "representativeRing (f\<lparr>properties := ps\<rparr>) = representativeRing f"
  by (simp add: representativeRing_def)

text \<open>With bearings in \<open>[-180,180]\<close>, as the library gives them, a turning angle lies in \<open>[0,180]\<close>.\<close>

lemma turningAngle_range:
  assumes "\<forall>a b. - 180 \<le> turfBearing L a b \<and> turfBearing L a b \<le> 180"
  shows "0 \<le> turningAngle L vs j \<and> turningAngle L vs j \<le> 180"
proof -
  let ?b1 = "turfBearing L (vs ! j) (vs ! ((j + length vs - 1) mod length vs))"
  let ?b2 = "turfBearing L (vs ! j) (vs ! ((j + 1) mod length vs))"
  have "- 180 \<le> ?b1 \<and> ?b1 \<le> 180" "- 180 \<le> ?b2 \<and> ?b2 \<le> 180" using assms by blast+
  then show ?thesis
    by (auto simp: turningAngle_def calculateDeviation_def Let_def abs_if)
qed

text \<open>
  Claim C7. For a feature without explicit coordinate attributes whose representative
  ring (of the polygon, or of the first polygon of a multi-polygon), with the closing
  duplicate dropped, has more than 3 vertices, whose turning angles have a mean above 90
  and a population standard deviation below 15, and whose centroid \<open>c\<close> the library
  computes: the anchor of the feature is \<open>c\<close>.
\<close>

theorem regular_polygon_centroid:
  assumes ex: "getExplicitCenter L (properties f) = None"
    and ring: "representativeRing f = Some ring"
    and n: "length (analyzedRing ring) > 3"
    and avg: "mean (turningAngles L (analyzedRing ring)) > 90"
    and sd: "populationStdDev (turningAngles L (analyzedRing ring)) < 15"
    and c: "centroid L (geometry f) = Some c"
  shows "\<exists>f'. annotateFeature L coordCounts newId f = Inr f' \<and> getCenter f' = Some c"
proof -
  let ?f1 = "f\<lparr>properties := setProp ''_id'' (PStr newId) (properties f)\<rparr>"
  have l: "3 \<le> length ring"
    using n by (auto simp: analyzedRing_def split: if_splits)
  have ex1: "getExplicitCenter L (properties ?f1) = None"
    using ex by (simp add: getExplicitCenter_setId)
  have r1: "representativeRing ?f1 = Some ring" using ring by (simp add: representativeRing_setProp)
  have "inferCenter L coordCounts ?f1 = Inr (ringCenter L coordCounts ?f1 ring)"
    by (rule inferCenter_ring [OF ex1 r1])
  moreover have "ringCenter L coordCounts ?f1 ring = Some c"
    using n avg sd c by (simp add: ringCenter_cases [OF l] Let_def)
  ultimately have "inferCenter L coordCounts ?f1 = Inr (Some c)" by simp
  from annotateFeature_center [OF this] show ?thesis by blast
qed

lemma bumpCount_at:
  "bumpCount m c v = (if v = c then Some (countOf m c + 1) else m v)"
  by (simp add: bumpCount_def countOf_def)

lemma fold_count_distinct:
  "distinct xs \<Longrightarrow>
   fold (\<lambda>c m. bumpCount m c) xs m v
     = (if v \<in> set xs then Some (countOf m v + 1) else m v)"
proof (induction xs arbitrary: m)
  case Nil
  then show ?case by simp
next
  case (Cons x xs)
  have d: "distinct xs" "x \<notin> set xs" using Cons.prems by auto
  have ih: "fold (\<lambda>c m. bumpCount m c) xs (bumpCount m x) v
     = (if v \<in> set xs then Some (countOf (bumpCount m x) v + 1) else bumpCount m x v)"
    by (rule Cons.IH [OF d(1)])
  have c: "v \<noteq> x \<Longrightarrow> countOf (bumpCount m x) v = countOf m v"
    by (simp add: countOf_def bumpCount_at)
  have e: "fold (\<lambda>c m. bumpCount m c) (x # xs) m v
             = fold (\<lambda>c m. bumpCount m c) xs (bumpCount m x) v"
    by simp
  have bx: "bumpCount m x v = (if v = x then Some (countOf m x + 1) else m v)"
    by (rule bumpCount_at)
  show ?case unfolding e ih bx using d(2) c by (cases "v = x") auto
qed

lemma countFeature_at:
  "countFeature m cs v = (if v \<in> set cs then Some (countOf m v + 1) else m v)"
  using fold_count_distinct [of "remdups cs" m v] by (simp add: countFeature_def)

lemma fold_countFeature:
  assumes "\<forall>v. m v \<noteq> Some 0"
  shows "(\<forall>v. fold (\<lambda>f m. countFeature m (coordAll L (geometry f))) fs m v \<noteq> Some 0)
         \<and> countOf (fold (\<lambda>f m. countFeature m (coordAll L (geometry f))) fs m) v
             = countOf m v + occurrenceCount L fs v"
  using assms
proof (induction fs arbitrary: m)
  case Nil
  then show ?case by (simp add: occurrenceCount_def)
next
  case (Cons f fs)
  let ?m1 = "countFeature m (coordAll L (geometry f))"
  have p: "\<forall>v. ?m1 v \<noteq> Some 0" using Cons.prems by (simp add: countFeature_at)
  have c: "countOf ?m1 v = countOf m v + (if v \<in> set (coordAll L (geometry f)) then 1 else 0)"
    by (simp add: countFeature_at countOf_def)
  from Cons.IH [OF p] c show ?case by (simp add: occurrenceCount_def)
qed

lemma buildCoordCounts_at:
  "buildCoordCounts L features v =
     (if occurrenceCount L features v = 0 then None else Some (occurrenceCount L features v))"
proof -
  have e: "\<forall>v. (Map.empty :: position \<rightharpoonup> nat) v \<noteq> Some 0" by simp
  from fold_countFeature [OF e, of L features v]
  have a: "\<forall>v. buildCoordCounts L features v \<noteq> Some 0"
    and b: "countOf (buildCoordCounts L features) v = occurrenceCount L features v"
    by (simp_all add: buildCoordCounts_def countOf_def)
  show ?thesis
  proof (cases "buildCoordCounts L features v")
    case None
    then show ?thesis using b by (simp add: countOf_def)
  next
    case (Some n)
    from a have "buildCoordCounts L features v \<noteq> Some 0" by blast
    then have "n \<noteq> 0" using Some by auto
    then show ?thesis using b Some by (simp add: countOf_def)
  qed
qed

lemma tipStep_inv:
  assumes "0 < k" "foldl (tipStep cc ring angles) (None, ring ! 0) [0..<k] = (bs, bc)"
  shows "\<exists>i<k. bs = Some (tipScore cc ring angles i) \<and> bc = ring ! i
           \<and> (\<forall>j<k. tipScore cc ring angles j \<le> tipScore cc ring angles i)
           \<and> (\<forall>j<i. tipScore cc ring angles j < tipScore cc ring angles i)"
  using assms
proof (induction k arbitrary: bs bc)
  case 0
  then show ?case by simp
next
  case (Suc k)
  obtain bs0 bc0 where st: "foldl (tipStep cc ring angles) (None, ring ! 0) [0..<k] = (bs0, bc0)"
    by (metis surj_pair)
  have step: "tipStep cc ring angles (bs0, bc0) k = (bs, bc)"
    using Suc.prems(2) st by simp
  show ?case
  proof (cases "k = 0")
    case True
    then have "bs0 = None" using st by simp
    then have "bs = Some (tipScore cc ring angles 0) \<and> bc = ring ! 0"
      using step True by (simp add: tipStep_def Let_def)
    then show ?thesis using True by auto
  next
    case False
    then have "0 < k" by simp
    from Suc.IH [OF this st] obtain i where i: "i < k" "bs0 = Some (tipScore cc ring angles i)"
      "bc0 = ring ! i" "\<forall>j<k. tipScore cc ring angles j \<le> tipScore cc ring angles i"
      "\<forall>j<i. tipScore cc ring angles j < tipScore cc ring angles i"
      by blast
    show ?thesis
    proof (cases "tipScore cc ring angles k > tipScore cc ring angles i")
      case True
      then have e: "bs = Some (tipScore cc ring angles k)" "bc = ring ! k"
        using step i(2) by (simp_all add: tipStep_def Let_def)
      have a: "\<forall>j<Suc k. tipScore cc ring angles j \<le> tipScore cc ring angles k"
        using i(4) True by (auto simp: less_Suc_eq)
      have b: "\<forall>j<k. tipScore cc ring angles j < tipScore cc ring angles k"
        using i(4) True by fastforce
      show ?thesis using e a b by (intro exI [of _ k]) simp
    next
      case False
      then have e: "bs = bs0" "bc = bc0"
        using step i(2) by (simp_all add: tipStep_def Let_def)
      have a: "\<forall>j<Suc k. tipScore cc ring angles j \<le> tipScore cc ring angles i"
        using i(4) False by (auto simp: less_Suc_eq)
      show ?thesis using e i a by (intro exI [of _ i]) simp
    qed
  qed
qed

lemma sectorTip_argmax:
  assumes "0 < n"
  shows "\<exists>i<n. sectorTip cc ring angles n = ring ! i
           \<and> (\<forall>j<n. tipScore cc ring angles j \<le> tipScore cc ring angles i)
           \<and> (\<forall>j<i. tipScore cc ring angles j < tipScore cc ring angles i)"
proof -
  obtain bs bc where st: "foldl (tipStep cc ring angles) (None, ring ! 0) [0..<n] = (bs, bc)"
    by (metis surj_pair)
  from tipStep_inv [OF assms st] show ?thesis by (auto simp: sectorTip_def st)
qed

lemma occurrenceCount_pos:
  "f \<in> set features \<Longrightarrow> v \<in> set (coordAll L (geometry f)) \<Longrightarrow>
   0 < occurrenceCount L features v"
  unfolding occurrenceCount_def by (rule length_pos_if_in_set [of f]) simp

lemma tipScore_vertexScore:
  assumes mem: "f \<in> set features"
    and cov: "set (analyzedRing ring) \<subseteq> set (coordAll L (geometry f))"
    and j: "j < length (analyzedRing ring)"
  shows "tipScore (buildCoordCounts L features) ring (turningAngles L (analyzedRing ring)) j
           = vertexScore L features (analyzedRing ring) j"
proof -
  let ?vs = "analyzedRing ring"
  have r: "ring ! j = ?vs ! j" using analyzedRing_nth [OF j] by simp
  have "?vs ! j \<in> set (coordAll L (geometry f))" using cov j nth_mem by blast
  from occurrenceCount_pos [OF mem this]
  have c: "buildCoordCounts L features (?vs ! j) = Some (occurrenceCount L features (?vs ! j))"
    and p: "occurrenceCount L features (?vs ! j) \<noteq> 0"
    by (simp_all add: buildCoordCounts_at)
  have a: "turningAngles L ?vs ! j = turningAngle L ?vs j"
    using j by (simp add: turningAngles_def)
  show ?thesis
    unfolding tipScore_def vertexScore_def Let_def r c a using p by simp
qed

text \<open>
  Claim C4. The coordinate index holds, for every coordinate, the number of features in
  which it occurs, each feature counted once. For a feature of the dataset that reaches
  the sector-tip fallback (no explicit coordinates, a representative ring of at least 3
  positions, not taken as a regular polygon), whose analyzed ring vertices are among its
  coordinates: the anchor is an analyzed vertex whose score, occurrence count times 50
  plus 80 for the first vertex plus twice 180 minus the turning angle, is maximal, and
  every earlier vertex scores strictly less.
\<close>

theorem sector_tip_scoring:
  assumes ex: "getExplicitCenter L (properties f) = None"
    and ring: "representativeRing f = Some ring"
    and l: "3 \<le> length ring"
    and fallback: "\<not> (length (analyzedRing ring) > 3
                     \<and> mean (turningAngles L (analyzedRing ring)) > 90
                     \<and> populationStdDev (turningAngles L (analyzedRing ring)) < 15
                     \<and> centroid L (geometry f) \<noteq> None)"
    and mem: "f \<in> set features"
    and cov: "set (analyzedRing ring) \<subseteq> set (coordAll L (geometry f))"
  shows "(\<forall>v. buildCoordCounts L features v =
             (if occurrenceCount L features v = 0 then None
              else Some (occurrenceCount L features v)))
     \<and> (\<exists>f' k. annotateFeature L (buildCoordCounts L features) newId f = Inr f'
            \<and> k < length (analyzedRing ring)
            \<and> getCenter f' = Some (analyzedRing ring ! k)
            \<and> (\<forall>j<length (analyzedRing ring).
                   vertexScore L features (analyzedRing ring) j
                   \<le> vertexScore L features (analyzedRing ring) k)
            \<and> (\<forall>j<k. vertexScore L features (analyzedRing ring) j
                       < vertexScore L features (analyzedRing ring) k))"
proof -
  let ?vs = "analyzedRing ring"
  let ?n = "length ?vs"
  let ?cc = "buildCoordCounts L features"
  let ?angles = "turningAngles L ?vs"
  let ?f1 = "f\<lparr>properties := setProp ''_id'' (PStr newId) (properties f)\<rparr>"
  have "?n = length ring - 1 \<or> ?n = length ring" by (simp add: analyzedRing_def)
  then have n: "0 < ?n" using l by linarith
  have ex1: "getExplicitCenter L (properties ?f1) = None"
    using ex by (simp add: getExplicitCenter_setId)
  have r1: "representativeRing ?f1 = Some ring" using ring by (simp add: representativeRing_setProp)
  have ic: "inferCenter L ?cc ?f1 = Inr (ringCenter L ?cc ?f1 ring)"
    by (rule inferCenter_ring [OF ex1 r1])
  have rc: "ringCenter L ?cc ?f1 ring = Some (sectorTip ?cc ring ?angles ?n)"
    using fallback by (auto simp: ringCenter_cases [OF l] Let_def split: option.splits)
  from sectorTip_argmax [OF n, of ?cc ring ?angles]
  obtain k where k: "k < ?n" "sectorTip ?cc ring ?angles ?n = ring ! k"
    "\<forall>j<?n. tipScore ?cc ring ?angles j \<le> tipScore ?cc ring ?angles k"
    "\<forall>j<k. tipScore ?cc ring ?angles j < tipScore ?cc ring ?angles k"
    by blast
  note ts = tipScore_vertexScore [OF mem cov]
  have mx: "\<forall>j<?n. vertexScore L features ?vs j \<le> vertexScore L features ?vs k"
    using k(1) k(3) ts by simp
  have fst: "\<forall>j<k. vertexScore L features ?vs j < vertexScore L features ?vs k"
    using k(1) k(4) ts by simp
  have "inferCenter L ?cc ?f1 = Inr (Some (?vs ! k))"
    using ic rc k(2) analyzedRing_nth [OF k(1)] by simp
  from annotateFeature_center [OF this]
  obtain f' where f': "annotateFeature L ?cc newId f = Inr f'" "getCenter f' = Some (?vs ! k)"
    by blast
  have idx: "\<forall>v. ?cc v = (if occurrenceCount L features v = 0 then None
              else Some (occurrenceCount L features v))"
    by (simp add: buildCoordCounts_at)
  have "\<exists>f' k. annotateFeature L ?cc newId f = Inr f' \<and> k < ?n
            \<and> getCenter f' = Some (?vs ! k)
            \<and> (\<forall>j<?n. vertexScore L features ?vs j \<le> vertexScore L features ?vs k)
            \<and> (\<forall>j<k. vertexScore L features ?vs j < vertexScore L features ?vs k)"
    using f' k(1) mx fst by blast
  then show ?thesis using idx by blast
qed


subsection \<open>Evaluation on an octagon and on a sector\<close>


lemma octagon_analyzed: "analyzedRing octagonRing = butlast octagonRing"
  by (simp add: analyzedRing_def ringClosed_def octagonRing_def)

lemma octagon_angles:
  "turningAngles planarLib (butlast octagonRing) = [135, 135, 135, 135, 135, 135, 135, 135]"
  by (simp add: turningAngles_def turningAngle_def calculateDeviation_def planarLib_def
        planarBearing_def octagonRing_def upt_rec Let_def)

lemma octagon_stats:
  "mean [135, 135, 135, 135, 135, 135, 135, 135] = 135"
  "populationStdDev [135, 135, 135, 135, 135, 135, 135, 135] = 0"
  by (simp_all add: mean_def populationStdDev_def)

lemma octagon_centroid:
  "centroid planarLib (geometry octagon) = Some (Position (13/9) (4/3) [])"
  by (simp add: planarLib_def planarCentroid_def planarCoordAll_def octagon_def octagonRing_def)

lemma noExplicit:
  "getExplicitCenter planarLib (properties octagon) = None"
  "getExplicitCenter planarLib (properties sectorNE) = None"
  by (simp_all add: getExplicitCenter_def octagon_def sectorNE_def latKeyTest_def rx_full_def
        latRx_def sitePrefix_def lower_def)

theorem regular_polygon_centroid_witness:
  "getExplicitCenter planarLib (properties octagon) = None
   \<and> representativeRing octagon = Some octagonRing
   \<and> length (analyzedRing octagonRing) > 3
   \<and> mean (turningAngles planarLib (analyzedRing octagonRing)) > 90
   \<and> populationStdDev (turningAngles planarLib (analyzedRing octagonRing)) < 15
   \<and> centroid planarLib (geometry octagon) = Some (Position (13/9) (4/3) [])
   \<and> (\<exists>f'. annotateFeature planarLib Map.empty ''feat_0'' octagon = Inr f'
           \<and> getCenter f' = Some (Position (13/9) (4/3) []))"
proof -
  have r: "representativeRing octagon = Some octagonRing"
    by (simp add: representativeRing_def octagon_def)
  have n: "length (analyzedRing octagonRing) > 3"
    by (simp add: octagon_analyzed) (simp add: octagonRing_def)
  have m: "mean (turningAngles planarLib (analyzedRing octagonRing)) > 90"
    by (simp add: octagon_analyzed octagon_angles octagon_stats)
  have s: "populationStdDev (turningAngles planarLib (analyzedRing octagonRing)) < 15"
    by (simp add: octagon_analyzed octagon_angles octagon_stats)
  from regular_polygon_centroid [OF noExplicit(1) r n m s octagon_centroid, of Map.empty "''feat_0''"]
  show ?thesis using noExplicit(1) r n m s octagon_centroid by blast
qed

lemma ringNE_analyzed:
  "analyzedRing ringNE = [Position 0 0 [], Position 0 (1/100) [], Position (1/100) 0 []]"
  by (simp add: analyzedRing_def ringClosed_def ringNE_def)

theorem sector_tip_scoring_witness:
  "getExplicitCenter planarLib (properties sectorNE) = None
   \<and> representativeRing sectorNE = Some ringNE
   \<and> 3 \<le> length ringNE
   \<and> \<not> (length (analyzedRing ringNE) > 3
          \<and> mean (turningAngles planarLib (analyzedRing ringNE)) > 90
          \<and> populationStdDev (turningAngles planarLib (analyzedRing ringNE)) < 15
          \<and> centroid planarLib (geometry sectorNE) \<noteq> None)
   \<and> sectorNE \<in> set [sectorNE, sectorSW]
   \<and> set (analyzedRing ringNE) \<subseteq> set (coordAll planarLib (geometry sectorNE))
   \<and> (\<exists>f' k. annotateFeature planarLib (buildCoordCounts planarLib [sectorNE, sectorSW])
                   ''feat_0'' sectorNE = Inr f'
              \<and> k < length (analyzedRing ringNE)
              \<and> getCenter f' = Some (analyzedRing ringNE ! k)
              \<and> (\<forall>j<length (analyzedRing ringNE).
                     vertexScore planarLib [sectorNE, sectorSW] (analyzedRing ringNE) j
                     \<le> vertexScore planarLib [sectorNE, sectorSW] (analyzedRing ringNE) k))"
proof -
  have r: "representativeRing sectorNE = Some ringNE"
    by (simp add: representativeRing_def sectorNE_def ringNE_def)
  have l: "3 \<le> length ringNE" by (simp add: ringNE_def)
  have fb: "\<not> (length (analyzedRing ringNE) > 3
          \<and> mean (turningAngles planarLib (analyzedRing ringNE)) > 90
          \<and> populationStdDev (turningAngles planarLib (analyzedRing ringNE)) < 15
          \<and> centroid planarLib (geometry sectorNE) \<noteq> None)"
    by (simp add: ringNE_analyzed)
  have mem: "sectorNE \<in> set [sectorNE, sectorSW]" by simp
  have cov: "set (analyzedRing ringNE) \<subseteq> set (coordAll planarLib (geometry sectorNE))"
    by (simp add: ringNE_analyzed planarLib_def planarCoordAll_def sectorNE_def)
  from sector_tip_scoring [OF noExplicit(2) r l fb mem cov, of "''feat_0''"]
  have "\<exists>f' k. annotateFeature planarLib (buildCoordCounts planarLib [sectorNE, sectorSW])
                   ''feat_0'' sectorNE = Inr f'
              \<and> k < length (analyzedRing ringNE)
              \<and> getCenter f' = Some (analyzedRing ringNE ! k)
              \<and> (\<forall>j<length (analyzedRing ringNE).
                     vertexScore planarLib [sectorNE, sectorSW] (analyzedRing ringNE) j
                     \<le> vertexScore planarLib [sectorNE, sectorSW] (analyzedRing ringNE) k)"
    by blast
  then show ?thesis using noExplicit(2) r l fb mem cov by blast
qed



lemma ringNE_angles:
  "turningAngles planarLib [Position 0 0 [], Position 0 (1/100) [], Position (1/100) 0 []]
     = [90, 45, 45]"
  by (simp add: turningAngles_def turningAngle_def calculateDeviation_def planarLib_def
        planarBearing_def upt_rec Let_def)

lemma demo_counts:
  "buildCoordCounts planarLib [sectorNE, sectorSW] (Position 0 0 []) = Some 2"
  "buildCoordCounts planarLib [sectorNE, sectorSW] (Position 0 (1/100) []) = Some 1"
  "buildCoordCounts planarLib [sectorNE, sectorSW] (Position (1/100) 0 []) = Some 1"
  by (simp_all add: buildCoordCounts_at occurrenceCount_def planarLib_def planarCoordAll_def
        sectorNE_def sectorSW_def)

lemma sectorNE_tip:
  "sectorTip (buildCoordCounts planarLib [sectorNE, sectorSW]) ringNE [90, 45, 45]
     (Suc (Suc (Suc 0))) = Position 0 0 []"
  by (simp add: sectorTip_def tipStep_def tipScore_def Let_def ringNE_def demo_counts)

text \<open>
  In the dataset of the two sectors the tip at the origin, shared by both, is the anchor
  of the north-east sector.
\<close>

lemma sectorNE_anchor:
  "annotateFeature planarLib (buildCoordCounts planarLib [sectorNE, sectorSW]) ''feat_0'' sectorNE
     = Inr \<lparr>geometry = Some (Polygon [ringNE]),
            properties = [(''name'', PStr ''NE''), (''_center'', PPos (Position 0 0 [])),
                          (''_id'', PStr ''feat_0'')]\<rparr>"
proof -
  let ?f1 = "sectorNE\<lparr>properties := setProp ''_id'' (PStr ''feat_0'') (properties sectorNE)\<rparr>"
  have l: "3 \<le> length ringNE" by (simp add: ringNE_def)
  have ex1: "getExplicitCenter planarLib (properties ?f1) = None"
    by (simp add: getExplicitCenter_setId noExplicit)
  have r1: "representativeRing ?f1 = Some ringNE"
    by (simp add: representativeRing_def sectorNE_def ringNE_def)
  have "ringCenter planarLib (buildCoordCounts planarLib [sectorNE, sectorSW]) ?f1 ringNE
          = Some (Position 0 0 [])"
    by (simp add: ringCenter_cases [OF l] ringNE_analyzed ringNE_angles sectorNE_tip Let_def)
  then have "inferCenter planarLib (buildCoordCounts planarLib [sectorNE, sectorSW]) ?f1
          = Inr (Some (Position 0 0 []))"
    using inferCenter_ring [OF ex1 r1] by simp
  then show ?thesis
    by (simp add: annotateFeature_def Let_def) (simp add: sectorNE_def ringNE_def)
qed

end
